(* ===== verification/Prelude.thy ===== *)
theory Prelude
  imports "HOL-Library.Word" "HOL-Library.List_Lexorder"
begin

text \<open>
  What every component of the settlement development shares.

  \<^item> The result monad: Rust's \<open>Result\<close> is the sum type, \<open>bindE\<close> is the \<open>?\<close> operator,
    \<open>ensure\<close> an early return behind a guard.
  \<^item> Machine integers with Rust's checked and saturating operations.
  \<^item> Byte strings: little-endian integers, slices, in-place slice writes, \<open>as_chunks\<close>.
  \<^item> The type \<open>bytes32\<close> of 32-byte arrays, which is \<open>Pubkey\<close>, \<open>Address\<close>, \<open>Hash\<close> and
    \<open>[u8; 32]\<close> in the source, with its byte-lexicographic order.
  \<^item> The contract \<open>byte_codec\<close> of a fixed-width encoding, interpreted for every integer
    width the wire formats use and for addresses.
\<close>

section \<open>Collections\<close>

named_theorems result_simps \<open>inversion of monadic code\<close>
named_theorems layout_simps \<open>reading and writing byte slices\<close>

type_synonym u8 = "8 word"
type_synonym u16 = "16 word"
type_synonym u32 = "32 word"
type_synonym u64 = "64 word"
type_synonym u128 = "128 word"
type_synonym bytes = "u8 list"

section \<open>The result monad\<close>

definition bindE :: "'e + 'a \<Rightarrow> ('a \<Rightarrow> 'e + 'b) \<Rightarrow> 'e + 'b" where
  "bindE m k = (case m of Inl e \<Rightarrow> Inl e | Inr x \<Rightarrow> k x)"

definition ensure :: "bool \<Rightarrow> 'e \<Rightarrow> 'e + unit" where
  "ensure b e = (if b then Inr () else Inl e)"

definition ok_or :: "'a option \<Rightarrow> 'e \<Rightarrow> 'e + 'a" where
  "ok_or m e = (case m of None \<Rightarrow> Inl e | Some x \<Rightarrow> Inr x)"

definition map_err :: "('e \<Rightarrow> 'f) \<Rightarrow> 'e + 'a \<Rightarrow> 'f + 'a" where
  "map_err f m = (case m of Inl e \<Rightarrow> Inl (f e) | Inr x \<Rightarrow> Inr x)"

lemma bindE_simps [simp]: "bindE (Inl e) k = Inl e" "bindE (Inr x) k = k x"
  by (simp_all add: bindE_def)

lemma ensure_simps [simp]: "ensure True e = Inr ()" "ensure False e = Inl e"
  by (simp_all add: ensure_def)

lemma ok_or_simps [simp]: "ok_or None e = Inl e" "ok_or (Some x) e = Inr x"
  by (simp_all add: ok_or_def)

lemma map_err_simps [simp]: "map_err f (Inl e) = Inl (f e)" "map_err f (Inr x) = Inr x"
  by (simp_all add: map_err_def)

lemma bindE_Inr_iff [result_simps]: "bindE m k = Inr y \<longleftrightarrow> (\<exists>x. m = Inr x \<and> k x = Inr y)"
  by (simp add: bindE_def split: sum.splits)

lemma bindE_Inl_iff:
  "bindE m k = Inl e \<longleftrightarrow> m = Inl e \<or> (\<exists>x. m = Inr x \<and> k x = Inl e)"
  by (auto simp: bindE_def split: sum.splits)

lemma ensure_Inr_iff [result_simps]: "ensure b e = Inr u \<longleftrightarrow> b"
  by (simp add: ensure_def)

lemma ensure_Inl_iff: "ensure b e = Inl e' \<longleftrightarrow> \<not> b \<and> e' = e"
  by (auto simp: ensure_def)

lemma ok_or_Inr_iff [result_simps]: "ok_or m e = Inr x \<longleftrightarrow> m = Some x"
  by (simp add: ok_or_def split: option.splits)

lemma ok_or_Inl_iff: "ok_or m e = Inl e' \<longleftrightarrow> m = None \<and> e' = e"
  by (auto simp: ok_or_def split: option.splits)

lemma map_err_Inr_iff [result_simps]: "map_err f m = Inr x \<longleftrightarrow> m = Inr x"
  by (simp add: map_err_def split: sum.splits)

lemma map_err_Inl_iff: "map_err f m = Inl e \<longleftrightarrow> (\<exists>e'. m = Inl e' \<and> e = f e')"
  by (auto simp: map_err_def split: sum.splits)

lemma if_Inl_Inr_iff [result_simps]: "(if b then Inl e else m) = Inr x \<longleftrightarrow> \<not> b \<and> m = Inr x"
  by simp

lemma case_list_Inr_iff [result_simps]:
  "(case xs of [] \<Rightarrow> Inl e | y # ys \<Rightarrow> f y ys) = Inr r \<longleftrightarrow> (\<exists>y ys. xs = y # ys \<and> f y ys = Inr r)"
  by (cases xs) simp_all

lemma case_option_Inr_iff [result_simps]:
  "(case x of None \<Rightarrow> Inl e | Some y \<Rightarrow> f y) = Inr r \<longleftrightarrow> (\<exists>y. x = Some y \<and> f y = Inr r)"
  by (cases x) simp_all

lemma case_prod_Inr_iff [result_simps]:
  "(case p of (a, b) \<Rightarrow> f a b) = Inr r \<longleftrightarrow> (\<exists>a b. p = (a, b) \<and> f a b = Inr r)"
  by (cases p) simp

declare Let_def [result_simps]

text \<open>The error alternatives of a chain, for proofs that an error never occurs.\<close>

lemmas error_simps = bindE_Inl_iff ensure_Inl_iff ok_or_Inl_iff map_err_Inl_iff

section \<open>Machine integers\<close>

definition checked_add :: "'a::len word \<Rightarrow> 'a word \<Rightarrow> 'a word option" where
  "checked_add a b = (if unat a + unat b < 2 ^ LENGTH('a) then Some (a + b) else None)"

definition checked_sub :: "'a::len word \<Rightarrow> 'a word \<Rightarrow> 'a word option" where
  "checked_sub a b = (if b \<le> a then Some (a - b) else None)"

definition checked_mul :: "'a::len word \<Rightarrow> 'a word \<Rightarrow> 'a word option" where
  "checked_mul a b = (if unat a * unat b < 2 ^ LENGTH('a) then Some (a * b) else None)"

definition saturating_sub :: "'a::len word \<Rightarrow> 'a word \<Rightarrow> 'a word" where
  "saturating_sub a b = (if b \<le> a then a - b else 0)"

lemma checked_add_Some_iff:
  fixes a :: "'a::len word"
  shows "checked_add a b = Some c \<longleftrightarrow> unat c = unat a + unat b"
proof
  assume "checked_add a b = Some c"
  then show "unat c = unat a + unat b"
    by (auto simp: checked_add_def unat_word_ariths split: if_splits)
next
  assume c: "unat c = unat a + unat b"
  then have "unat a + unat b < 2 ^ LENGTH('a)"
    using unsigned_less [of c, where ?'a = nat] by simp
  moreover from this have "unat (a + b) = unat c"
    using c by (simp add: unat_word_ariths)
  then have "a + b = c"
    by (simp add: word_unat_eq_iff)
  ultimately show "checked_add a b = Some c"
    by (simp add: checked_add_def)
qed

lemma checked_sub_Some_iff:
  fixes a :: "'a::len word"
  shows "checked_sub a b = Some c \<longleftrightarrow> unat a = unat c + unat b"
proof
  assume "checked_sub a b = Some c"
  then have "b \<le> a" and "c = a - b"
    by (auto simp: checked_sub_def split: if_splits)
  then show "unat a = unat c + unat b"
    by (simp add: unat_sub word_le_nat_alt)
next
  assume a: "unat a = unat c + unat b"
  then have le: "b \<le> a"
    by (simp add: word_le_nat_alt)
  moreover from le a have "unat (a - b) = unat c"
    by (simp add: unat_sub)
  then have "a - b = c"
    by (simp add: word_unat_eq_iff)
  ultimately show "checked_sub a b = Some c"
    by (simp add: checked_sub_def)
qed

lemma unat_saturating_sub: "unat (saturating_sub a b) = unat a - unat b"
  by (auto simp: saturating_sub_def unat_sub word_le_nat_alt)

lemma unat_min: "unat (min a b) = min (unat a) (unat b)"
  by (simp add: min_def word_le_nat_alt)

lemma checked_mul_widened:
  fixes a b :: u64
  shows "checked_mul (ucast a :: u128) (ucast b) = Some (ucast a * ucast b)"
    and "unat (ucast a * ucast b :: u128) = unat a * unat b"
proof -
  have ab: "unat a < 2 ^ 64" "unat b < 2 ^ 64"
    using unsigned_less [of a, where ?'a = nat] unsigned_less [of b, where ?'a = nat] by simp_all
  then have "unat a * unat b < 2 ^ 64 * 2 ^ 64"
    by (intro mult_strict_mono) simp_all
  then have lt: "unat a * unat b < 2 ^ 128"
    by simp
  have u: "unat (ucast a :: u128) = unat a" "unat (ucast b :: u128) = unat b"
    using ab by (simp_all add: unsigned_ucast_eq take_bit_nat_eq_self order_less_trans)
  show "checked_mul (ucast a :: u128) (ucast b) = Some (ucast a * ucast b)"
    using lt by (simp add: checked_mul_def u)
  show "unat (ucast a * ucast b :: u128) = unat a * unat b"
    using lt by (simp add: unat_word_ariths u)
qed

text \<open>\<open>usize\<close> is 64 bits wide on the target; lengths and offsets are naturals below its range.\<close>

definition usize_checked_add :: "nat \<Rightarrow> nat \<Rightarrow> nat option" where
  "usize_checked_add a b = (if a + b < 2 ^ 64 then Some (a + b) else None)"

definition usize_checked_mul :: "nat \<Rightarrow> nat \<Rightarrow> nat option" where
  "usize_checked_mul a b = (if a * b < 2 ^ 64 then Some (a * b) else None)"

definition usize_checked_sub :: "nat \<Rightarrow> nat \<Rightarrow> nat option" where
  "usize_checked_sub a b = (if b \<le> a then Some (a - b) else None)"

section \<open>Little-endian integers\<close>

text \<open>\<open>to_le_bytes\<close> and \<open>from_le_bytes\<close> of the unsigned integers, over \<open>nat\<close> and then per width.\<close>

fun le_nat :: "bytes \<Rightarrow> nat" where
  "le_nat [] = 0"
| "le_nat (b # bs) = unat b + 256 * le_nat bs"

fun le_bytes :: "nat \<Rightarrow> nat \<Rightarrow> bytes" where
  "le_bytes 0 n = []"
| "le_bytes (Suc k) n = of_nat n # le_bytes k (n div 256)"

lemma length_le_bytes [simp]: "length (le_bytes k n) = k"
  by (induction k arbitrary: n) auto

lemma unat_u8_lt: "unat (b :: u8) < 256"
  using unsigned_less [of b, where ?'a = nat] by simp

lemma le_nat_less: "le_nat bs < 256 ^ length bs"
proof (induction bs)
  case (Cons b bs)
  have "unat b + 256 * le_nat bs < 256 + 256 * le_nat bs"
    using unat_u8_lt [of b] by simp
  also have "\<dots> = 256 * (le_nat bs + 1)" by simp
  also have "\<dots> \<le> 256 * 256 ^ length bs"
    using Cons.IH by (intro mult_le_mono) simp_all
  finally show ?case by simp
qed simp

lemma le_nat_le_bytes: "n < 256 ^ k \<Longrightarrow> le_nat (le_bytes k n) = n"
proof (induction k arbitrary: n)
  case (Suc k)
  then have "n div 256 < 256 ^ k"
    by (simp add: less_mult_imp_div_less mult.commute)
  then have "le_nat (le_bytes k (n div 256)) = n div 256"
    by (rule Suc.IH)
  moreover have "unat (of_nat n :: u8) = n mod 256"
    by (simp add: unsigned_of_nat take_bit_eq_mod)
  ultimately show ?case by simp
qed simp

lemma le_bytes_le_nat: "length bs = k \<Longrightarrow> le_bytes k (le_nat bs) = bs"
proof (induction bs arbitrary: k)
  case (Cons b bs)
  have "(unat b + 256 * le_nat bs) div 256 = le_nat bs"
    using unat_u8_lt [of b] by simp
  moreover have "unat (of_nat (unat b + 256 * le_nat bs) :: u8) = unat b"
    using unat_u8_lt [of b] by (simp only: unsigned_of_nat take_bit_eq_mod) simp
  then have "of_nat (unat b + 256 * le_nat bs) = b"
    by (simp only: word_unat_eq_iff)
  ultimately show ?case using Cons by auto
qed simp

definition to_le :: "nat \<Rightarrow> 'a::len word \<Rightarrow> bytes" where
  "to_le k w = le_bytes k (unat w)"

definition from_le :: "bytes \<Rightarrow> 'a::len word" where
  "from_le bs = of_nat (le_nat bs)"

lemma length_to_le [simp]: "length (to_le k w) = k"
  by (simp add: to_le_def)

lemma from_le_to_le:
  fixes w :: "'a::len word"
  assumes "8 * k = LENGTH('a)"
  shows "from_le (to_le k w) = w"
proof -
  have "(256 :: nat) ^ k = 2 ^ LENGTH('a)"
    by (simp add: power_mult flip: assms)
  then have "le_nat (le_bytes k (unat w)) = unat w"
    using unsigned_less [of w, where ?'a = nat] by (intro le_nat_le_bytes) simp
  then show ?thesis by (simp add: to_le_def from_le_def)
qed

lemma to_le_from_le:
  assumes "8 * k = LENGTH('a::len)" and "length bs = k"
  shows "to_le k (from_le bs :: 'a word) = bs"
proof -
  have "(256 :: nat) ^ k = 2 ^ LENGTH('a)"
    by (simp add: power_mult flip: assms(1))
  then have "unat (of_nat (le_nat bs) :: 'a word) = le_nat bs"
    using le_nat_less [of bs] assms(2) by (simp add: unsigned_of_nat take_bit_nat_eq_self)
  then show ?thesis
    using assms(2) by (simp add: to_le_def from_le_def le_bytes_le_nat)
qed

section \<open>Slices\<close>

definition slice :: "nat \<Rightarrow> nat \<Rightarrow> 'a list \<Rightarrow> 'a list" where
  "slice off n xs = take n (drop off xs)"

definition splice :: "nat \<Rightarrow> 'a list \<Rightarrow> 'a list \<Rightarrow> 'a list" where
  "splice off ws xs = take off xs @ ws @ drop (off + length ws) xs"

lemma length_slice [layout_simps]: "off + n \<le> length xs \<Longrightarrow> length (slice off n xs) = n"
  by (simp add: slice_def)

lemma length_splice [layout_simps]:
  "off + length ws \<le> length xs \<Longrightarrow> length (splice off ws xs) = length xs"
  by (simp add: splice_def)

lemma slice_splice_eq [layout_simps]:
  "length ws = n \<Longrightarrow> off + n \<le> length xs \<Longrightarrow> slice off n (splice off ws xs) = ws"
  by (simp add: slice_def splice_def)

lemma slice_splice_before [layout_simps]:
  "off' + n \<le> off \<Longrightarrow> off \<le> length xs \<Longrightarrow> slice off' n (splice off ws xs) = slice off' n xs"
  by (auto simp: slice_def splice_def drop_take min_def)

lemma slice_splice_after [layout_simps]:
  "off + length ws \<le> off' \<Longrightarrow> off + length ws \<le> length xs \<Longrightarrow>
    slice off' n (splice off ws xs) = slice off' n xs"
  by (simp add: slice_def splice_def)

lemma slice_append_skip [layout_simps]:
  "length xs \<le> off \<Longrightarrow> slice off n (xs @ ys) = slice (off - length xs) n ys"
  by (simp add: slice_def)

lemma slice_append_hit [layout_simps]: "n = length xs \<Longrightarrow> slice 0 n (xs @ ys) = xs"
  by (simp add: slice_def)

lemma slice_all [layout_simps]: "n = length xs \<Longrightarrow> slice 0 n xs = xs"
  by (simp add: slice_def)

lemma length_2E:
  assumes "length xs = 2"
  obtains a b where "xs = [a, b]"
  using assms by (cases xs; cases "tl xs") auto

lemma slice_decompose:
  "k \<le> length xs \<Longrightarrow> xs = slice 0 k xs @ drop k xs"
  by (simp add: slice_def)

lemma drop_slice: "off + n \<le> length xs \<Longrightarrow> drop off xs = slice off n xs @ drop (off + n) xs"
  by (metis add.commute append_take_drop_id drop_drop slice_def)

section \<open>Chunks\<close>

text \<open>\<open>slice::as_chunks\<close>: the whole chunks of length \<open>n\<close>, and what is left over.\<close>

fun as_chunks :: "nat \<Rightarrow> 'a list \<Rightarrow> 'a list list \<times> 'a list" where
  "as_chunks n xs =
     (if n = 0 \<or> length xs < n then ([], xs)
      else (case as_chunks n (drop n xs) of (cs, r) \<Rightarrow> (take n xs # cs, r)))"

declare as_chunks.simps [simp del]

lemma as_chunks_short [simp]: "length xs < n \<Longrightarrow> as_chunks n xs = ([], xs)"
  by (simp add: as_chunks.simps)

lemma as_chunks_append [simp]:
  "length c = n \<Longrightarrow> 0 < n \<Longrightarrow>
    as_chunks n (c @ xs) = (c # fst (as_chunks n xs), snd (as_chunks n xs))"
  by (simp add: as_chunks.simps [of n "c @ xs"] split: prod.splits)

lemma as_chunks_concat:
  "0 < n \<Longrightarrow> \<forall>c \<in> set cs. length c = n \<Longrightarrow> length r < n \<Longrightarrow> as_chunks n (concat cs @ r) = (cs, r)"
  by (induction cs) auto

lemma as_chunks_inverse:
  assumes "0 < n" and "as_chunks n xs = (cs, r)"
  shows "xs = concat cs @ r" and "\<forall>c \<in> set cs. length c = n" and "length r < n"
proof -
  have "xs = concat cs @ r \<and> (\<forall>c \<in> set cs. length c = n) \<and> length r < n"
    using assms
  proof (induction n xs arbitrary: cs r rule: as_chunks.induct)
    case (1 n xs)
    show ?case
    proof (cases "length xs < n")
      case True
      with "1.prems" show ?thesis by simp
    next
      case False
      obtain cs' r' where rec: "as_chunks n (drop n xs) = (cs', r')" by fastforce
      with False "1.prems" have eq: "cs = take n xs # cs'" "r = r'"
        by (auto simp: as_chunks.simps [of n xs])
      have "drop n xs = concat cs' @ r' \<and> (\<forall>c \<in> set cs'. length c = n) \<and> length r' < n"
        using "1.IH" False "1.prems"(1) rec by simp
      with False eq show ?thesis
        using append_take_drop_id [of n xs] by auto
    qed
  qed
  then show "xs = concat cs @ r" "\<forall>c \<in> set cs. length c = n" "length r < n" by simp_all
qed

lemma length_concat_chunks:
  "\<forall>c \<in> set cs. length c = n \<Longrightarrow> length (concat cs) = n * length cs"
  by (induction cs) auto

lemma take_concat_chunks:
  "\<forall>c \<in> set cs. length c = n \<Longrightarrow> take (n * i) (concat cs) = concat (take i cs)"
proof (induction cs arbitrary: i)
  case (Cons c cs)
  then show ?case by (cases i) simp_all
qed simp

lemma drop_concat_chunks:
  "\<forall>c \<in> set cs. length c = n \<Longrightarrow> drop (n * i) (concat cs) = concat (drop i cs)"
proof (induction cs arbitrary: i)
  case (Cons c cs)
  then show ?case by (cases i) simp_all
qed simp

text \<open>\<open>slice::copy_within\<close>, with its panics.\<close>

definition copy_within :: "nat \<Rightarrow> nat \<Rightarrow> nat \<Rightarrow> 'a list \<Rightarrow> 'a list option" where
  "copy_within src_start src_end dest data =
     (if src_start \<le> src_end \<and> src_end \<le> length data \<and> dest + (src_end - src_start) \<le> length data
      then Some (splice dest (slice src_start (src_end - src_start) data) data) else None)"

section \<open>32-byte arrays\<close>

typedef bytes32 = "{bs :: bytes. length bs = 32}"
  morphisms to_bytes new_from_array
  by (rule exI [of _ "replicate 32 0"]) simp

setup_lifting type_definition_bytes32

type_synonym pubkey = bytes32
type_synonym hash = bytes32

lemma length_to_bytes [simp]: "length (to_bytes k) = 32"
  using to_bytes [of k] by simp

lemma new_from_array_to_bytes [simp]: "new_from_array (to_bytes k) = k"
  by (rule to_bytes_inverse)

lemma to_bytes_new_from_array [simp]: "length bs = 32 \<Longrightarrow> to_bytes (new_from_array bs) = bs"
  by (simp add: new_from_array_inverse)

lemma to_bytes_eq_iff [simp]: "to_bytes a = to_bytes b \<longleftrightarrow> a = b"
  by (rule to_bytes_inject)

instantiation bytes32 :: linorder
begin
lift_definition less_eq_bytes32 :: "bytes32 \<Rightarrow> bytes32 \<Rightarrow> bool" is "\<lambda>a b. a \<le> b" .
lift_definition less_bytes32 :: "bytes32 \<Rightarrow> bytes32 \<Rightarrow> bool" is "\<lambda>a b. a < b" .
instance by standard (transfer; auto)+
end

instantiation bytes32 :: equal
begin
lift_definition equal_bytes32 :: "bytes32 \<Rightarrow> bytes32 \<Rightarrow> bool" is "\<lambda>a b. a = b" .
instance by standard (transfer; auto)
end

lemma bytes32_less_iff: "a < b \<longleftrightarrow> to_bytes a < to_bytes b"
  by transfer simp

text \<open>A 32-byte array repeating one byte, to build concrete addresses.\<close>

definition fill32 :: "u8 \<Rightarrow> bytes32" where
  "fill32 b = new_from_array (replicate 32 b)"

lemma to_bytes_fill32 [simp, code abstract]: "to_bytes (fill32 b) = replicate 32 b"
  by (simp add: fill32_def)

lemma fill32_eq_iff [simp]: "fill32 a = fill32 b \<longleftrightarrow> a = b"
  by (simp flip: to_bytes_eq_iff)

lemma replicate_less_iff: "0 < n \<Longrightarrow> replicate n a < replicate n b \<longleftrightarrow> (a :: 'a::linorder) < b"
  by (induction n) auto

lemma fill32_less_iff [simp]: "fill32 a < fill32 b \<longleftrightarrow> a < b"
  by (simp add: bytes32_less_iff replicate_less_iff)

section \<open>Fixed-width encodings\<close>

text \<open>
  The contract of a fixed-width wire field: every value takes exactly \<open>width\<close> bytes, decoding
  undoes encoding, and every \<open>width\<close>-byte string is the encoding of what it decodes to. A field
  with this contract has one spelling per value, so encodings are injective, and a run of
  fields splits back into its values.
\<close>

locale byte_codec =
  fixes width :: nat
    and enc :: "'v \<Rightarrow> bytes"
    and dec :: "bytes \<Rightarrow> 'v"
  assumes width_pos: "0 < width"
    and length_enc: "length (enc v) = width"
    and dec_enc: "dec (enc v) = v"
    and enc_dec: "length bs = width \<Longrightarrow> enc (dec bs) = bs"
begin

lemma enc_inj: "enc a = enc b \<longleftrightarrow> a = b"
  by (metis dec_enc)

lemma dec_inj: "length a = width \<Longrightarrow> length b = width \<Longrightarrow> dec a = dec b \<longleftrightarrow> a = b"
  by (metis enc_dec)

lemma chunks_enc: "as_chunks width (concat (map enc vs)) = (map enc vs, [])"
  using as_chunks_concat [of width "map enc vs" "[]"] width_pos by (simp add: length_enc)

lemma map_dec_enc: "map dec (map enc vs) = vs"
  by (simp add: comp_def dec_enc)

lemma length_concat_enc: "length (concat (map enc vs)) = width * length vs"
  by (induction vs) (simp_all add: length_enc)

lemma concat_enc_inj: "concat (map enc as) = concat (map enc bs) \<longleftrightarrow> as = bs"
  by (metis chunks_enc fst_conv map_dec_enc)

end

lemma from_le_to_le_widths [simp]:
  "from_le (to_le 2 (w2 :: u16)) = w2"
  "from_le (to_le 4 (w4 :: u32)) = w4"
  "from_le (to_le 8 (w8 :: u64)) = w8"
  by (simp_all add: from_le_to_le)

interpretation u16_codec: byte_codec 2 "to_le 2 :: u16 \<Rightarrow> bytes" from_le
  by unfold_locales (simp_all add: to_le_from_le)

interpretation u32_codec: byte_codec 4 "to_le 4 :: u32 \<Rightarrow> bytes" from_le
  by unfold_locales (simp_all add: to_le_from_le)

interpretation u64_codec: byte_codec 8 "to_le 8 :: u64 \<Rightarrow> bytes" from_le
  by unfold_locales (simp_all add: to_le_from_le)

interpretation pubkey_codec: byte_codec 32 to_bytes new_from_array
  by unfold_locales simp_all

section \<open>Enums with discriminants\<close>

text \<open>
  \<open>num_enum::TryFromPrimitive\<close>: the variant with the given discriminant, if there is one. The
  contract of such an enum is that the listed variants are all of them and that no two share a
  discriminant; then the conversions are inverse to each other.
\<close>

definition try_from_tag :: "('e \<Rightarrow> 't) \<Rightarrow> 'e list \<Rightarrow> 't \<Rightarrow> 'e option" where
  "try_from_tag tag variants t = find (\<lambda>e. tag e = t) variants"

locale tagged_enum =
  fixes tag :: "'e \<Rightarrow> 't"
    and variants :: "'e list"
  assumes complete: "e \<in> set variants"
    and distinct_tags: "distinct (map tag variants)"
begin

lemma tag_inj: "tag a = tag b \<longleftrightarrow> a = b"
  using distinct_tags complete [of a] complete [of b] by (auto simp: distinct_map inj_on_def)

lemma try_from_Some_iff: "try_from_tag tag variants t = Some e \<longleftrightarrow> tag e = t"
proof
  assume "try_from_tag tag variants t = Some e"
  then show "tag e = t" by (auto simp: try_from_tag_def find_Some_iff)
next
  assume t: "tag e = t"
  then obtain e' where e': "try_from_tag tag variants t = Some e'"
    using complete [of e] by (cases "try_from_tag tag variants t") (auto simp: try_from_tag_def find_None_iff)
  then have "tag e' = t" by (auto simp: try_from_tag_def find_Some_iff)
  with t have "e' = e" by (simp flip: tag_inj)
  with e' show "try_from_tag tag variants t = Some e" by simp
qed

lemma try_from_tag_tag: "try_from_tag tag variants (tag e) = Some e"
  by (simp add: try_from_Some_iff)

lemma try_from_None_iff: "try_from_tag tag variants t = None \<longleftrightarrow> t \<notin> range tag"
  by (auto simp: try_from_tag_def find_None_iff complete)

end

section \<open>A relation through a list\<close>

text \<open>\<open>steps_through R xs s t\<close>: from state \<open>s\<close>, one step of \<open>R\<close> for each element, in order, leads to \<open>t\<close>.\<close>

primrec steps_through :: "('a \<Rightarrow> 's \<Rightarrow> 's \<Rightarrow> bool) \<Rightarrow> 'a list \<Rightarrow> 's \<Rightarrow> 's \<Rightarrow> bool" where
  "steps_through R [] s t \<longleftrightarrow> s = t"
| "steps_through R (x # xs) s t \<longleftrightarrow> (\<exists>u. R x s u \<and> steps_through R xs u t)"

lemma steps_through_append [simp]:
  "steps_through R (xs @ ys) s t \<longleftrightarrow> (\<exists>u. steps_through R xs s u \<and> steps_through R ys u t)"
  by (induction xs arbitrary: s) auto

text \<open>The step of one element, with what came before and after it.\<close>

lemma steps_through_split:
  assumes "steps_through R xs s t" and "x \<in> set xs"
  obtains before after u v where "xs = before @ x # after" and "steps_through R before s u" and "R x u v"
    and "steps_through R after v t"
proof -
  from assms(2) obtain before after where "xs = before @ x # after" by (meson split_list)
  with assms(1) show thesis by (auto intro: that)
qed

end
