(* ===== verification/Errors.thy ===== *)
theory Errors
  imports Prelude
begin

text \<open>
  The errors of the settlement program: \<open>SettlementError\<close> with its on-chain codes
  (\<open>interface/src/error.rs\<close>), the runtime's \<open>ProgramError\<close> into which it is injected as
  \<open>Custom(code)\<close>, and the off-chain decoder \<open>parse_settlement_error\<close>. The lemmas show that
  the codes are distinct and dense, and that decoding undoes encoding.
\<close>

section \<open>Program errors\<close>

text \<open>
  The variants of \<open>ProgramError\<close> that the runtime and the invoked programs return. \<open>Panic\<close> is
  not one of them: it is the outcome of a Rust panic (a failed \<open>expect\<close>, an out-of-range
  slice, \<open>unreachable!\<close>), which aborts the program and reverts the transaction as an error does.
\<close>

datatype error =
    Custom u32
  | InvalidArgument
  | InvalidInstructionData
  | InvalidAccountData
  | AccountDataTooSmall
  | InsufficientFunds
  | IncorrectProgramId
  | MissingRequiredSignature
  | AccountAlreadyInitialized
  | UninitializedAccount
  | NotEnoughAccountKeys
  | AccountBorrowFailed
  | MaxSeedLengthExceeded
  | InvalidSeeds
  | BorshIoError
  | AccountNotRentExempt
  | UnsupportedSysvar
  | IllegalOwner
  | MaxAccountsDataAllocationsExceeded
  | InvalidRealloc
  | MaxInstructionTraceLengthExceeded
  | BuiltinProgramsMustConsumeComputeUnits
  | InvalidAccountOwner
  | ArithmeticOverflow
  | Immutable
  | IncorrectAuthority
  | Panic

type_synonym 'a result = "error + 'a"

section \<open>Settlement errors\<close>

datatype SettlementError =
    FinalizeBeforeInitialize
  | BeginFinalizePairOverlap
  | MissingCounterpartInstruction
  | CounterpartIsExternal
  | InvalidCounterpartDiscriminator
  | InvalidCounterpartCounterpart
  | MismatchedCounterpartDiscriminator
  | OwnerMismatch
  | AccountNotDerivable
  | OrdersNotStrictlyIncreasing
  | SellTokenAccountMismatch
  | SellTokenAccountInvalid
  | SellTokenOwnerMismatch
  | AccountCountNotMatchingOrderCount
  | CalledViaCpi
  | OrderCancelled
  | OrderExpired
  | TransferCountMismatch
  | StateAccountMismatch
  | AccountCountNotMatchingPushCount
  | SettledOrderPushCountMismatch
  | PushDestinationMismatch
  | PushSourceNotBuffer
  | SellMintMismatch
  | LimitPriceViolated
  | PullAmountOverflow
  | FillExceedsOrderAmount
  | OrderNotExactlyFilled
  | AmountWithdrawnOverflow
  | AmountReceivedOverflow
  | OrderNotReclaimable
  | ReclaimRecipientMismatch
  | ReclaimAuthorityMismatch
  | ReclaimBufferNotCanonical
  | UnauthorizedAuthorityTransfer
  | UnauthorizedSolverManagement
  | SolverAlreadyExists
  | UnauthorizedSolver
  | SolverNotFound
  | BufferSizeUnavailable
  | InvalidTokenProgram
  | UnauthorizedSettlementOwnedOrder
  | ZeroOrderAmount
  | InvalidMint
  | PushSourceIsDestination
  | NativeSolBufferEmptied
  | ReclaimBufferBurnLimitExceeded
  | UnauthorizedNativeSolWithdrawal
  | NativeSolBufferMismatch

text \<open>The discriminants: \<open>impl From<SettlementError> for u32\<close>.\<close>

fun settlement_error_code :: "SettlementError \<Rightarrow> u32" where
  "settlement_error_code FinalizeBeforeInitialize = 0"
| "settlement_error_code BeginFinalizePairOverlap = 1"
| "settlement_error_code MissingCounterpartInstruction = 2"
| "settlement_error_code CounterpartIsExternal = 3"
| "settlement_error_code InvalidCounterpartDiscriminator = 4"
| "settlement_error_code InvalidCounterpartCounterpart = 5"
| "settlement_error_code MismatchedCounterpartDiscriminator = 6"
| "settlement_error_code OwnerMismatch = 7"
| "settlement_error_code AccountNotDerivable = 8"
| "settlement_error_code OrdersNotStrictlyIncreasing = 9"
| "settlement_error_code SellTokenAccountMismatch = 10"
| "settlement_error_code SellTokenAccountInvalid = 11"
| "settlement_error_code SellTokenOwnerMismatch = 12"
| "settlement_error_code AccountCountNotMatchingOrderCount = 13"
| "settlement_error_code CalledViaCpi = 14"
| "settlement_error_code OrderCancelled = 15"
| "settlement_error_code OrderExpired = 16"
| "settlement_error_code TransferCountMismatch = 17"
| "settlement_error_code StateAccountMismatch = 18"
| "settlement_error_code AccountCountNotMatchingPushCount = 19"
| "settlement_error_code SettledOrderPushCountMismatch = 20"
| "settlement_error_code PushDestinationMismatch = 21"
| "settlement_error_code PushSourceNotBuffer = 22"
| "settlement_error_code SellMintMismatch = 23"
| "settlement_error_code LimitPriceViolated = 24"
| "settlement_error_code PullAmountOverflow = 25"
| "settlement_error_code FillExceedsOrderAmount = 26"
| "settlement_error_code OrderNotExactlyFilled = 27"
| "settlement_error_code AmountWithdrawnOverflow = 28"
| "settlement_error_code AmountReceivedOverflow = 29"
| "settlement_error_code OrderNotReclaimable = 30"
| "settlement_error_code ReclaimRecipientMismatch = 31"
| "settlement_error_code ReclaimAuthorityMismatch = 32"
| "settlement_error_code ReclaimBufferNotCanonical = 33"
| "settlement_error_code UnauthorizedAuthorityTransfer = 34"
| "settlement_error_code UnauthorizedSolverManagement = 35"
| "settlement_error_code SolverAlreadyExists = 36"
| "settlement_error_code UnauthorizedSolver = 37"
| "settlement_error_code SolverNotFound = 38"
| "settlement_error_code BufferSizeUnavailable = 39"
| "settlement_error_code InvalidTokenProgram = 40"
| "settlement_error_code UnauthorizedSettlementOwnedOrder = 41"
| "settlement_error_code ZeroOrderAmount = 42"
| "settlement_error_code InvalidMint = 43"
| "settlement_error_code PushSourceIsDestination = 44"
| "settlement_error_code NativeSolBufferEmptied = 45"
| "settlement_error_code ReclaimBufferBurnLimitExceeded = 46"
| "settlement_error_code UnauthorizedNativeSolWithdrawal = 47"
| "settlement_error_code NativeSolBufferMismatch = 48"

text \<open>\<open>impl From<SettlementError> for ProgramError\<close>.\<close>

definition serr :: "SettlementError \<Rightarrow> error" where
  "serr e = Custom (settlement_error_code e)"

text \<open>\<open>num_enum::TryFromPrimitive\<close>: the variant with the given discriminant, if there is one.\<close>

definition settlement_errors :: "SettlementError list" where
  "settlement_errors =
   [FinalizeBeforeInitialize, BeginFinalizePairOverlap, MissingCounterpartInstruction,
    CounterpartIsExternal, InvalidCounterpartDiscriminator, InvalidCounterpartCounterpart,
    MismatchedCounterpartDiscriminator, OwnerMismatch, AccountNotDerivable,
    OrdersNotStrictlyIncreasing, SellTokenAccountMismatch, SellTokenAccountInvalid,
    SellTokenOwnerMismatch, AccountCountNotMatchingOrderCount, CalledViaCpi, OrderCancelled,
    OrderExpired, TransferCountMismatch, StateAccountMismatch,
    AccountCountNotMatchingPushCount, SettledOrderPushCountMismatch, PushDestinationMismatch,
    PushSourceNotBuffer, SellMintMismatch, LimitPriceViolated, PullAmountOverflow,
    FillExceedsOrderAmount, OrderNotExactlyFilled, AmountWithdrawnOverflow,
    AmountReceivedOverflow, OrderNotReclaimable, ReclaimRecipientMismatch,
    ReclaimAuthorityMismatch, ReclaimBufferNotCanonical, UnauthorizedAuthorityTransfer,
    UnauthorizedSolverManagement, SolverAlreadyExists, UnauthorizedSolver, SolverNotFound,
    BufferSizeUnavailable, InvalidTokenProgram, UnauthorizedSettlementOwnedOrder,
    ZeroOrderAmount, InvalidMint, PushSourceIsDestination, NativeSolBufferEmptied,
    ReclaimBufferBurnLimitExceeded, UnauthorizedNativeSolWithdrawal, NativeSolBufferMismatch]"

definition settlement_error_try_from :: "u32 \<Rightarrow> SettlementError option" where
  "settlement_error_try_from code = try_from_tag settlement_error_code settlement_errors code"

text \<open>
  \<open>InstructionError\<close> as the off-chain decoder sees it: a custom code, or any of its other
  variants, which it hands back.
\<close>

datatype 'x InstructionError = IE_Custom u32 | IE_Other 'x

text \<open>\<open>impl From<SettlementError> for InstructionError\<close>.\<close>

definition serr_instruction :: "SettlementError \<Rightarrow> 'x InstructionError" where
  "serr_instruction e = IE_Custom (settlement_error_code e)"

fun parse_settlement_error :: "'x InstructionError \<Rightarrow> 'x InstructionError + SettlementError" where
  "parse_settlement_error (IE_Custom code) =
     ok_or (settlement_error_try_from code) (IE_Custom code)"
| "parse_settlement_error (IE_Other x) = Inl (IE_Other x)"

section \<open>Decoding undoes encoding\<close>

lemma settlement_errors_complete: "e \<in> set settlement_errors"
  by (cases e) (simp_all add: settlement_errors_def)

lemma settlement_error_codes: "map settlement_error_code settlement_errors = map of_nat [0..<49]"
  by code_simp

lemma distinct_of_nat_u32: "n \<le> 2 ^ 32 \<Longrightarrow> distinct (map (of_nat :: nat \<Rightarrow> u32) [0..<n])"
  by (auto simp: distinct_map inj_on_def word_unat_eq_iff unsigned_of_nat take_bit_nat_eq_self)

interpretation settlement_error: tagged_enum settlement_error_code settlement_errors
proof unfold_locales
  show "e \<in> set settlement_errors" for e
    by (rule settlement_errors_complete)
  show "distinct (map settlement_error_code settlement_errors)"
    by (simp only: settlement_error_codes) (rule distinct_of_nat_u32, simp)
qed

lemma serr_eq_iff [simp]: "serr a = serr b \<longleftrightarrow> a = b"
  by (simp add: serr_def settlement_error.tag_inj)

lemma serr_neq [simp]:
  "serr a \<noteq> Panic" "serr a \<noteq> InvalidAccountData" "serr a \<noteq> InvalidInstructionData"
  "serr a \<noteq> MissingRequiredSignature" "serr a \<noteq> ArithmeticOverflow"
  "serr a \<noteq> NotEnoughAccountKeys"
  by (simp_all add: serr_def)

lemma settlement_error_code_less: "settlement_error_code e < 49"
  by (cases e) simp_all

section \<open>Property\<close>

text \<open>
  An instruction error decodes to a settlement error exactly when it is the one that error is
  reported as, so no two settlement errors share a code and no foreign code is mistaken for one.
\<close>

theorem settlement_error_roundtrip: "parse_settlement_error ie = Inr e \<longleftrightarrow> ie = serr_instruction e"
  by (cases ie)
    (auto simp: serr_instruction_def ok_or_Inr_iff settlement_error_try_from_def settlement_error.try_from_Some_iff)

end
