(* ===== verification/Platform.thy ===== *)
theory Platform
  imports Errors
begin

text \<open>
  What the settlement program runs on and the repository does not contain: the Solana runtime
  (accounts, cross-program invocation, sysvars), the hash and address-derivation functions, the
  two token programs' account decoders, and four well-known program addresses. All of it is one
  record \<open>platform\<close> that every definition needing it takes as its first argument. What the
  program relies on is stated as the predicates \<open>invoke_frame\<close>, \<open>create_account_spec\<close>,
  \<open>resize_spec\<close>, \<open>close_spec\<close>, \<open>find_agrees\<close> and \<open>derive_agrees\<close>, each the documented
  behaviour of the function it names; a theorem that needs one has it as a hypothesis.
\<close>

section \<open>Accounts\<close>

text \<open>
  The runtime's accounts: every address has an owner program, a lamport balance and data. A
  handler reaches them through \<open>AccountView\<close> handles, which copy freely and write through to
  the same account, so handles carry an address and the transaction's flags and the accounts
  are a store indexed by address: two handles with one address are the same account.
\<close>

record account =
  acc_owner :: pubkey
  acc_lamports :: u64
  acc_data :: bytes

type_synonym accounts = "pubkey \<Rightarrow> account"

record account_view =
  av_address :: pubkey
  av_is_signer :: bool
  av_is_writable :: bool

abbreviation view_account :: "accounts \<Rightarrow> account_view \<Rightarrow> account" where
  "view_account accs v \<equiv> accs (av_address v)"

definition set_data :: "pubkey \<Rightarrow> bytes \<Rightarrow> accounts \<Rightarrow> accounts" where
  "set_data a d accs = accs(a := (accs a)\<lparr>acc_data := d\<rparr>)"

definition set_lamports :: "pubkey \<Rightarrow> u64 \<Rightarrow> accounts \<Rightarrow> accounts" where
  "set_lamports a l accs = accs(a := (accs a)\<lparr>acc_lamports := l\<rparr>)"

lemma set_data_sel [simp]:
  "acc_owner (set_data a d accs b) = acc_owner (accs b)"
  "acc_lamports (set_data a d accs b) = acc_lamports (accs b)"
  "acc_data (set_data a d accs b) = (if b = a then d else acc_data (accs b))"
  by (simp_all add: set_data_def)

lemma set_lamports_sel [simp]:
  "acc_owner (set_lamports a l accs b) = acc_owner (accs b)"
  "acc_data (set_lamports a l accs b) = acc_data (accs b)"
  "acc_lamports (set_lamports a l accs b) = (if b = a then l else acc_lamports (accs b))"
  by (simp_all add: set_lamports_def)

section \<open>Instructions and cross-program invocations\<close>

record account_meta =
  am_pubkey :: pubkey
  am_is_signer :: bool
  am_is_writable :: bool

record instruction =
  ix_program_id :: pubkey
  ix_accounts :: "account_meta list"
  ix_data :: bytes

text \<open>\<open>AccountMeta::new\<close> (writable) and \<open>AccountMeta::new_readonly\<close>.\<close>

definition meta_new :: "pubkey \<Rightarrow> bool \<Rightarrow> account_meta" where
  "meta_new k s = \<lparr>am_pubkey = k, am_is_signer = s, am_is_writable = True\<rparr>"

definition meta_new_readonly :: "pubkey \<Rightarrow> bool \<Rightarrow> account_meta" where
  "meta_new_readonly k s = \<lparr>am_pubkey = k, am_is_signer = s, am_is_writable = False\<rparr>"

text \<open>
  The invocations the program issues. A \<open>bytes list list\<close> argument holds the seeds of the
  program-derived addresses that sign; \<open>CreateAccountAllowPrefund\<close> is the
  \<open>with_minimum_balance\<close> form, which looks the rent up itself.
\<close>

datatype cpi =
    TokenTransfer pubkey account_view account_view account_view u64 "bytes list list"
    \<comment> \<open>program, from, to, authority, amount, signers\<close>
  | TokenTransferChecked pubkey account_view account_view account_view account_view u64 u8 "bytes list list"
    \<comment> \<open>program, from, mint, to, authority, amount, decimals, signers\<close>
  | InitializeAccount3 pubkey account_view account_view pubkey
    \<comment> \<open>program, account, mint, owner\<close>
  | Burn pubkey account_view account_view account_view u64 "bytes list list"
    \<comment> \<open>program, account, mint, authority, amount, signers\<close>
  | CloseAccount pubkey account_view account_view account_view "bytes list list"
    \<comment> \<open>program, account, destination, authority, signers\<close>
  | GetAccountDataSize pubkey account_view
    \<comment> \<open>program, mint\<close>
  | CreateAccountAllowPrefund account_view account_view u64 pubkey "bytes list list"
    \<comment> \<open>payer, account, size, owner, signers\<close>
  | SystemTransfer account_view account_view u64
    \<comment> \<open>from, to, lamports\<close>

section \<open>The platform\<close>

record platform =
  pf_build_program_id :: "pubkey option"  \<comment> \<open>\<open>option_env!("SETTLEMENT_PROGRAM_ID")\<close>\<close>
  pf_feature_barn :: bool                 \<comment> \<open>\<open>--features barn\<close>\<close>
  pf_system_program_id :: pubkey
  pf_instructions_sysvar_id :: pubkey
  pf_spl_token_id :: pubkey
  pf_token_2022_id :: pubkey
  pf_sha256 :: "bytes \<Rightarrow> hash"             \<comment> \<open>\<open>solana_sha256_hasher::hashv\<close>\<close>
  pf_create_program_address :: "bytes list \<Rightarrow> pubkey \<Rightarrow> pubkey option"
  pf_find_program_address :: "bytes list \<Rightarrow> pubkey \<Rightarrow> pubkey \<times> u8"
  pf_derive_program_address :: "bytes list \<Rightarrow> pubkey \<Rightarrow> pubkey \<times> u8"  \<comment> \<open>\<open>const_crypto\<close>, at build time\<close>
  pf_const_sha256 :: "bytes \<Rightarrow> bytes32"    \<comment> \<open>\<open>const_crypto::sha2\<close>, at build time\<close>
  pf_decode_pubkey :: "string \<Rightarrow> pubkey"   \<comment> \<open>\<open>const_crypto::bs58\<close>, at build time\<close>
  pf_stack_height :: nat
  pf_clock :: "int result"                 \<comment> \<open>\<open>Clock::get()?.unix_timestamp\<close>\<close>
  pf_rent_minimum :: "nat \<Rightarrow> u64 result"   \<comment> \<open>\<open>Rent::get()?.try_minimum_balance\<close>\<close>
  pf_instructions :: "instruction list"    \<comment> \<open>the transaction, seen through the sysvar\<close>
  pf_current_index :: u16
  pf_spl_account :: "account \<Rightarrow> (pubkey \<times> pubkey \<times> u64) result"   \<comment> \<open>mint, owner, amount\<close>
  pf_token_2022_account :: "account \<Rightarrow> (pubkey \<times> pubkey \<times> u64) result"
  pf_spl_mint_decimals :: "account \<Rightarrow> u8 result"
  pf_token_2022_mint_decimals :: "account \<Rightarrow> u8 result"
  pf_invoke :: "pubkey list \<Rightarrow> cpi \<Rightarrow> accounts \<Rightarrow> accounts result"
    \<comment> \<open>the addresses the caller holds borrowed mutably, the invocation, the accounts before\<close>
  pf_return_data :: "cpi \<Rightarrow> accounts \<Rightarrow> (pubkey \<times> bytes) option"
    \<comment> \<open>\<open>get_return_data\<close> after that invocation\<close>
  pf_resize :: "account \<Rightarrow> nat \<Rightarrow> account result"
  pf_close :: "account \<Rightarrow> account result"

text \<open>The program addresses of the two deployments (\<open>interface/src/lib.rs\<close>), base58-decoded.\<close>

definition PROD_ID :: pubkey where
  "PROD_ID = new_from_array
     [5, 84, 138, 128, 134, 3, 65, 189, 80, 66, 142, 50, 244, 98, 61, 68,
      117, 240, 124, 240, 106, 174, 57, 25, 138, 61, 251, 145, 102, 248, 163, 207]"

definition BARN_ID :: pubkey where
  "BARN_ID = new_from_array
     [207, 213, 19, 60, 210, 70, 136, 81, 124, 195, 19, 0, 196, 253, 170, 103,
      71, 246, 248, 19, 110, 136, 194, 121, 65, 114, 201, 46, 58, 26, 126, 34]"

text \<open>The program address the build targets (\<open>programs/settlement/src/pda/mod.rs\<close>).\<close>

definition program_ID :: "platform \<Rightarrow> pubkey" where
  "program_ID P =
     (case pf_build_program_id P of
        Some address \<Rightarrow> address
      | None \<Rightarrow> if pf_feature_barn P then BARN_ID else PROD_ID)"

text \<open>
  The only account allowed to pay for \<open>Initialize\<close>
  (\<open>interface/src/instruction/initialize.rs\<close>), base58-decoded.
\<close>

definition INITIALIZER :: pubkey where
  "INITIALIZER = new_from_array
     [150, 2, 200, 157, 155, 146, 10, 193, 188, 215, 174, 20, 73, 100, 18, 179,
      223, 248, 74, 131, 220, 54, 122, 131, 130, 218, 196, 136, 138, 139, 29, 102]"

section \<open>What the program relies on\<close>

definition zeroed :: "bytes \<Rightarrow> bool" where
  "zeroed d \<longleftrightarrow> (\<forall>b \<in> set d. b = 0)"

text \<open>
  The account ownership rules of the runtime: whatever runs outside the program leaves the data
  and the owner of the program's accounts alone, and an account that comes to be assigned to
  the program has zeroed data.
\<close>

definition owned_frame :: "pubkey \<Rightarrow> accounts \<Rightarrow> accounts \<Rightarrow> bool" where
  "owned_frame prog accs accs' \<longleftrightarrow>
     (\<forall>a. (acc_owner (accs a) = prog \<longrightarrow>
             acc_owner (accs' a) = prog \<and> acc_data (accs' a) = acc_data (accs a)) \<and>
          (acc_owner (accs a) \<noteq> prog \<longrightarrow> acc_owner (accs' a) = prog \<longrightarrow>
             zeroed (acc_data (accs' a))))"

text \<open>
  An invocation runs outside the program, and it is refused when it is handed an account whose
  data the caller holds borrowed mutably; so a borrowed account comes back as it was.
\<close>

definition invoke_frame :: "platform \<Rightarrow> pubkey \<Rightarrow> bool" where
  "invoke_frame P prog \<longleftrightarrow>
     (\<forall>borrowed c accs accs'. pf_invoke P borrowed c accs = Inr accs' \<longrightarrow>
        owned_frame prog accs accs' \<and> (\<forall>a \<in> set borrowed. accs' a = accs a))"

text \<open>
  The system program's account creation: the new account has the requested owner and a zeroed
  data area of the requested size.
\<close>

definition create_account_spec :: "platform \<Rightarrow> bool" where
  "create_account_spec P \<longleftrightarrow>
     (\<forall>borrowed payer v size owner seeds accs accs'.
        pf_invoke P borrowed (CreateAccountAllowPrefund payer v size owner seeds) accs = Inr accs' \<longrightarrow>
        acc_owner (view_account accs' v) = owner \<and>
        acc_data (view_account accs' v) = replicate (unat size) 0)"

text \<open>
  The runtime lets an account sign when it signed the transaction, or when the seeds passed
  along derive its address under the calling program.
\<close>

definition create_signer_rule :: "platform \<Rightarrow> pubkey \<Rightarrow> bool" where
  "create_signer_rule P prog \<longleftrightarrow>
     (\<forall>borrowed payer v size owner seeds accs accs'.
        pf_invoke P borrowed (CreateAccountAllowPrefund payer v size owner [seeds]) accs = Inr accs' \<longrightarrow>
        av_is_signer v \<or> pf_create_program_address P seeds prog = Some (av_address v))"

text \<open>
  \<open>Resize::resize\<close> truncates the data or extends it with zeros, and no account grows beyond the
  runtime's limit of 10 MiB.
\<close>

definition MAX_PERMITTED_DATA_LENGTH :: nat where
  "MAX_PERMITTED_DATA_LENGTH = 10 * 1024 * 1024"

definition resize_spec :: "platform \<Rightarrow> bool" where
  "resize_spec P \<longleftrightarrow>
     (\<forall>a n a'. pf_resize P a n = Inr a' \<longrightarrow>
        n \<le> MAX_PERMITTED_DATA_LENGTH \<and>
        a' = a\<lparr>acc_data := take n (acc_data a @ replicate (n - length (acc_data a)) 0)\<rparr>)"

text \<open>\<open>AccountView::close\<close> empties the account and hands it back to the system program.\<close>

definition close_spec :: "platform \<Rightarrow> bool" where
  "close_spec P \<longleftrightarrow>
     (\<forall>a a'. pf_close P a = Inr a' \<longrightarrow>
        a' = \<lparr>acc_owner = pf_system_program_id P, acc_lamports = 0, acc_data = []\<rparr>)"

text \<open>
  \<open>find_program_address\<close> returns an address that \<open>create_program_address\<close> derives from the same
  seeds and the returned bump; the build-time derivation agrees with it.
\<close>

definition find_agrees :: "platform \<Rightarrow> bool" where
  "find_agrees P \<longleftrightarrow>
     (\<forall>seeds prog. pf_create_program_address P
        (seeds @ [[snd (pf_find_program_address P seeds prog)]]) prog =
      Some (fst (pf_find_program_address P seeds prog)))"

definition derive_agrees :: "platform \<Rightarrow> bool" where
  "derive_agrees P \<longleftrightarrow> pf_derive_program_address P = pf_find_program_address P"

section \<open>The frame rule\<close>

lemma owned_frame_refl [simp]: "owned_frame prog accs accs"
  by (simp add: owned_frame_def)

lemma owned_frame_trans:
  assumes "owned_frame prog a b" and "owned_frame prog b c"
  shows "owned_frame prog a c"
  using assms unfolding owned_frame_def by metis

lemma owned_frame_owned:
  "owned_frame prog accs accs' \<Longrightarrow> acc_owner (accs a) = prog \<Longrightarrow>
    acc_owner (accs' a) = prog \<and> acc_data (accs' a) = acc_data (accs a)"
  by (simp add: owned_frame_def)

lemma owned_frame_fresh:
  "owned_frame prog accs accs' \<Longrightarrow> acc_owner (accs a) \<noteq> prog \<Longrightarrow> acc_owner (accs' a) = prog \<Longrightarrow>
    zeroed (acc_data (accs' a))"
  by (simp add: owned_frame_def)

lemma invoke_frameD:
  "invoke_frame P prog \<Longrightarrow> pf_invoke P borrowed c accs = Inr accs' \<Longrightarrow> owned_frame prog accs accs'"
  by (simp add: invoke_frame_def)

lemma invoke_frame_borrowed:
  "invoke_frame P prog \<Longrightarrow> pf_invoke P borrowed c accs = Inr accs' \<Longrightarrow> a \<in> set borrowed \<Longrightarrow> accs' a = accs a"
  by (simp add: invoke_frame_def)

lemma zeroed_replicate [simp]: "zeroed (replicate n 0)"
  by (simp add: zeroed_def)

end
