(* ===== verification/Enums.thy ===== *)
theory Enums
  imports Platform
begin

text \<open>
  The enums of the wire formats: \<open>Role\<close> (\<open>interface/src/role.rs\<close>), \<open>TokenProgram\<close>
  (\<open>interface/src/token_program.rs\<close>), \<open>SettlementAccount\<close> (\<open>interface/src/pda/mod.rs\<close>) and
  \<open>SettlementInstruction\<close> (\<open>interface/src/instruction/mod.rs\<close>), with their discriminants and the
  conversions back. Each one with a discriminant is an instance of \<open>tagged_enum\<close>, so its two
  conversions are inverse to each other and reject every other byte.
\<close>

section \<open>Roles\<close>

datatype Role = Manager | SolverAuthority | ReclaimAuthority | SettlementOwnedOrderAuthority

definition role_all :: "Role list" where
  "role_all = [Manager, SolverAuthority, ReclaimAuthority, SettlementOwnedOrderAuthority]"

fun role_discriminator :: "Role \<Rightarrow> u8" where
  "role_discriminator Manager = 0"
| "role_discriminator SolverAuthority = 1"
| "role_discriminator ReclaimAuthority = 2"
| "role_discriminator SettlementOwnedOrderAuthority = 3"

definition role_try_from :: "u8 \<Rightarrow> Role result" where
  "role_try_from b = ok_or (try_from_tag role_discriminator role_all b) InvalidInstructionData"

interpretation role: tagged_enum role_discriminator role_all
proof unfold_locales
  show "e \<in> set role_all" for e by (cases e) (simp_all add: role_all_def)
  show "distinct (map role_discriminator role_all)" by (simp add: role_all_def)
qed

lemma role_try_from_discriminator [simp]: "role_try_from (role_discriminator r) = Inr r"
  by (simp add: role_try_from_def role.try_from_tag_tag)

lemma role_try_from_Inr_iff [result_simps]: "role_try_from b = Inr r \<longleftrightarrow> role_discriminator r = b"
  by (simp add: role_try_from_def ok_or_Inr_iff role.try_from_Some_iff)

section \<open>Token programs\<close>

datatype TokenProgram = SplToken | Token2022

definition token_program_all :: "TokenProgram list" where
  "token_program_all = [SplToken, Token2022]"

fun token_program_address :: "platform \<Rightarrow> TokenProgram \<Rightarrow> pubkey" where
  "token_program_address P SplToken = pf_spl_token_id P"
| "token_program_address P Token2022 = pf_token_2022_id P"

definition token_program_try_from :: "platform \<Rightarrow> pubkey \<Rightarrow> TokenProgram result" where
  "token_program_try_from P address =
     ok_or (find (\<lambda>program. token_program_address P program = address) token_program_all)
       IncorrectProgramId"

lemma token_program_try_from_Inr:
  "token_program_try_from P a = Inr p \<Longrightarrow> token_program_address P p = a"
  by (auto simp: token_program_try_from_def token_program_all_def ok_or_Inr_iff split: if_splits)

lemma token_program_try_from_address:
  "pf_spl_token_id P \<noteq> pf_token_2022_id P \<Longrightarrow>
    token_program_try_from P (token_program_address P p) = Inr p"
  by (cases p) (auto simp: token_program_try_from_def token_program_all_def)

section \<open>Account discriminators\<close>

datatype SettlementAccount = OrderAccount | SettlementState

definition settlement_account_all :: "SettlementAccount list" where
  "settlement_account_all = [OrderAccount, SettlementState]"

fun account_discriminator :: "SettlementAccount \<Rightarrow> u8" where
  "account_discriminator OrderAccount = 128"
| "account_discriminator SettlementState = 129"

definition settlement_account_try_from :: "u8 \<Rightarrow> SettlementAccount result" where
  "settlement_account_try_from b =
     ok_or (try_from_tag account_discriminator settlement_account_all b) InvalidAccountData"

interpretation settlement_account: tagged_enum account_discriminator settlement_account_all
proof unfold_locales
  show "e \<in> set settlement_account_all" for e by (cases e) (simp_all add: settlement_account_all_def)
  show "distinct (map account_discriminator settlement_account_all)"
    by (simp add: settlement_account_all_def)
qed

section \<open>Instructions\<close>

datatype SettlementInstruction =
    BeginSettle
  | FinalizeSettle
  | CreateOrder
  | Initialize
  | CreateBuffer
  | ReclaimOrder
  | ReclaimBuffer
  | TransferAuthority
  | AddSolver
  | RemoveSolver
  | CreateSettlementOwnedOrder
  | CancelOrder
  | WithdrawNativeSol

definition settlement_instruction_all :: "SettlementInstruction list" where
  "settlement_instruction_all =
     [BeginSettle, FinalizeSettle, CreateOrder, Initialize, CreateBuffer, ReclaimOrder,
      ReclaimBuffer, TransferAuthority, AddSolver, RemoveSolver, CreateSettlementOwnedOrder,
      CancelOrder, WithdrawNativeSol]"

fun ix_discriminator :: "SettlementInstruction \<Rightarrow> u8" where
  "ix_discriminator BeginSettle = 0"
| "ix_discriminator FinalizeSettle = 1"
| "ix_discriminator CreateOrder = 2"
| "ix_discriminator Initialize = 3"
| "ix_discriminator CreateBuffer = 4"
| "ix_discriminator ReclaimOrder = 5"
| "ix_discriminator ReclaimBuffer = 6"
| "ix_discriminator TransferAuthority = 7"
| "ix_discriminator AddSolver = 8"
| "ix_discriminator RemoveSolver = 9"
| "ix_discriminator CreateSettlementOwnedOrder = 10"
| "ix_discriminator CancelOrder = 11"
| "ix_discriminator WithdrawNativeSol = 12"

definition settlement_instruction_try_from :: "u8 \<Rightarrow> SettlementInstruction result" where
  "settlement_instruction_try_from b =
     ok_or (try_from_tag ix_discriminator settlement_instruction_all b) InvalidInstructionData"

interpretation settlement_instruction: tagged_enum ix_discriminator settlement_instruction_all
proof unfold_locales
  show "e \<in> set settlement_instruction_all" for e
    by (cases e) (simp_all add: settlement_instruction_all_def)
  show "distinct (map ix_discriminator settlement_instruction_all)"
    by (simp add: settlement_instruction_all_def)
qed

lemma settlement_instruction_try_from_discriminator [simp]:
  "settlement_instruction_try_from (ix_discriminator i) = Inr i"
  by (simp add: settlement_instruction_try_from_def settlement_instruction.try_from_tag_tag)

lemma settlement_instruction_try_from_Inr_iff [result_simps]:
  "settlement_instruction_try_from b = Inr i \<longleftrightarrow> ix_discriminator i = b"
  by (simp add: settlement_instruction_try_from_def ok_or_Inr_iff
      settlement_instruction.try_from_Some_iff)

end
