(* ===== verification/Intent.thy ===== *)
theory Intent
  imports Enums
begin

text \<open>
  Order intents (\<open>interface/src/data/intent.rs\<close>) and the zero-copy accessor the program reads
  them through (\<open>programs/settlement/src/processor/utils/intent.rs\<close>). An \<open>OrderIntent\<close> has one
  canonical 213-byte encoding, which is the wire format, the stored form and the preimage of
  the order UID. The lemmas show that decoding undoes encoding, that every byte string which
  decodes is the encoding of its result (so the UID preimage is unique), that the cheap check
  \<open>check_bytes\<close> accepts exactly the strings that decode, and that the accessor's getters never
  hit their \<open>unreachable!\<close> branches and agree with the decoded fields.
\<close>

unbundle bit_operations_syntax

section \<open>Flags\<close>

datatype OrderKind = Sell | Buy

record Flags =
  fl_kind :: OrderKind
  fl_partially_fillable :: bool

definition FLAG_KIND :: u8 where
  "FLAG_KIND = push_bit 1 1"

definition FLAG_PARTIALLY_FILLABLE :: u8 where
  "FLAG_PARTIALLY_FILLABLE = push_bit 2 1"

definition FLAG_DEFINED :: u8 where
  "FLAG_DEFINED = FLAG_KIND OR FLAG_PARTIALLY_FILLABLE"

definition flags_to_byte :: "Flags \<Rightarrow> bytes" where
  "flags_to_byte flags =
     (let byte = 0;
          byte = (if fl_kind flags = Buy then byte OR FLAG_KIND else byte);
          byte = (if fl_partially_fillable flags then byte OR FLAG_PARTIALLY_FILLABLE else byte)
      in [byte])"

definition flags_try_from :: "bytes \<Rightarrow> Flags result" where
  "flags_try_from bs =
     (case bs of
        [byte] \<Rightarrow>
          (if byte AND NOT FLAG_DEFINED \<noteq> 0 then Inl InvalidInstructionData
           else Inr \<lparr>fl_kind = (if byte AND FLAG_KIND = 0 then Sell else Buy),
                      fl_partially_fillable = (byte AND FLAG_PARTIALLY_FILLABLE \<noteq> 0)\<rparr>)
      | _ \<Rightarrow> Inl Panic)"

lemmas flag_masks = FLAG_KIND_def FLAG_PARTIALLY_FILLABLE_def FLAG_DEFINED_def

lemma length_flags_to_byte [simp]: "length (flags_to_byte f) = 1"
  by (simp add: flags_to_byte_def)

lemma flags_try_from_to_byte [simp]: "flags_try_from (flags_to_byte f) = Inr f"
  by (cases f; cases "fl_kind f")
    (auto simp: flags_try_from_def flags_to_byte_def flag_masks)

lemma flags_byte_unique:
  assumes "byte AND NOT FLAG_DEFINED = 0"
  shows "flags_to_byte \<lparr>fl_kind = (if byte AND FLAG_KIND = 0 then Sell else Buy),
           fl_partially_fillable = (byte AND FLAG_PARTIALLY_FILLABLE \<noteq> 0)\<rparr> = [byte]"
proof -
  have split: "byte = (byte AND NOT 6) OR (byte AND 2) OR (byte AND 4)"
    by (rule bit_word_eqI) (auto simp: bit_simps numeral_eq_Suc less_Suc_eq)
  have k: "byte AND 2 = (if bit byte 1 then 2 else 0)"
    by (rule bit_word_eqI) (auto simp: bit_simps numeral_eq_Suc less_Suc_eq)
  have p: "byte AND 4 = (if bit byte 2 then 4 else 0)"
    by (rule bit_word_eqI) (auto simp: bit_simps numeral_eq_Suc less_Suc_eq)
  show ?thesis
    using assms split k p by (auto simp: flags_to_byte_def flag_masks)
qed

lemma flags_to_byte_try_from:
  "flags_try_from bs = Inr f \<Longrightarrow> flags_to_byte f = bs"
  by (auto simp: flags_try_from_def dest: flags_byte_unique split: list.splits if_splits)

section \<open>Assets\<close>

record TokenAsset =
  ta_mint :: pubkey
  ta_token_account :: pubkey

datatype Asset = Native pubkey | AssetToken TokenAsset

datatype NativeSolHasNoMint = NativeSolHasNoMint

definition ENCODED_NATIVE_SOL_TRANSFER :: "platform \<Rightarrow> pubkey" where
  "ENCODED_NATIVE_SOL_TRANSFER P = pf_system_program_id P"

definition asset_try_from :: "platform \<Rightarrow> TokenAsset \<Rightarrow> NativeSolHasNoMint + Asset" where
  "asset_try_from P token =
     (if ta_mint token = ENCODED_NATIVE_SOL_TRANSFER P then Inl NativeSolHasNoMint
      else Inr (AssetToken token))"

fun asset_encode :: "platform \<Rightarrow> Asset \<Rightarrow> pubkey \<times> pubkey" where
  "asset_encode P (Native account) = (ENCODED_NATIVE_SOL_TRANSFER P, account)"
| "asset_encode P (AssetToken token) = (ta_mint token, ta_token_account token)"

definition asset_decode :: "platform \<Rightarrow> pubkey \<Rightarrow> pubkey \<Rightarrow> Asset" where
  "asset_decode P mint account =
     (if mint = ENCODED_NATIVE_SOL_TRANSFER P then Native account
      else AssetToken \<lparr>ta_mint = mint, ta_token_account = account\<rparr>)"

text \<open>
  A token side naming the native marker can be written down in Rust (the variant is public) but
  \<open>asset_try_from\<close> refuses to build it; the canonical assets are the others.
\<close>

fun canonical_asset :: "platform \<Rightarrow> Asset \<Rightarrow> bool" where
  "canonical_asset P (Native _) = True"
| "canonical_asset P (AssetToken token) = (ta_mint token \<noteq> ENCODED_NATIVE_SOL_TRANSFER P)"

lemma asset_encode_decode [simp]: "asset_encode P (asset_decode P m a) = (m, a)"
  by (simp add: asset_decode_def)

lemma asset_decode_encode:
  "canonical_asset P x \<Longrightarrow> asset_decode P (fst (asset_encode P x)) (snd (asset_encode P x)) = x"
  by (cases x) (simp_all add: asset_decode_def)

lemma canonical_asset_decode [simp]: "canonical_asset P (asset_decode P m a)"
  by (simp add: asset_decode_def)

section \<open>Intents\<close>

record OrderIntent =
  oi_owner :: pubkey
  oi_sell :: TokenAsset
  oi_buy :: Asset
  oi_sell_amount :: u64
  oi_buy_amount :: u64
  oi_valid_to :: u32
  oi_flags :: Flags
  oi_app_data :: bytes32

text \<open>
  The values of the Rust type that the library builds: the amounts are \<open>NonZeroU64\<close>, the buy
  side is canonical.
\<close>

definition wf_intent :: "platform \<Rightarrow> OrderIntent \<Rightarrow> bool" where
  "wf_intent P i \<longleftrightarrow> oi_sell_amount i \<noteq> 0 \<and> oi_buy_amount i \<noteq> 0 \<and> canonical_asset P (oi_buy i)"

abbreviation WIDTH_OWNER :: nat where "WIDTH_OWNER \<equiv> 32"
abbreviation WIDTH_SELL_TOKEN :: nat where "WIDTH_SELL_TOKEN \<equiv> 32"
abbreviation WIDTH_SELL_MINT :: nat where "WIDTH_SELL_MINT \<equiv> 32"
abbreviation WIDTH_BUY_TOKEN :: nat where "WIDTH_BUY_TOKEN \<equiv> 32"
abbreviation WIDTH_BUY_MINT :: nat where "WIDTH_BUY_MINT \<equiv> 32"
abbreviation WIDTH_SELL_AMOUNT :: nat where "WIDTH_SELL_AMOUNT \<equiv> 8"
abbreviation WIDTH_BUY_AMOUNT :: nat where "WIDTH_BUY_AMOUNT \<equiv> 8"
abbreviation WIDTH_VALID_TO :: nat where "WIDTH_VALID_TO \<equiv> 4"
abbreviation WIDTH_FLAGS :: nat where "WIDTH_FLAGS \<equiv> 1"
abbreviation WIDTH_APP_DATA :: nat where "WIDTH_APP_DATA \<equiv> 32"

definition INTENT_SIZE :: nat where
  "INTENT_SIZE = 213"

record IntentSlots =
  is_owner :: bytes32
  is_sell_token :: bytes32
  is_sell_mint :: bytes32
  is_buy_token :: bytes32
  is_buy_mint :: bytes32
  is_sell_amount :: bytes
  is_buy_amount :: bytes
  is_valid_to :: bytes
  is_flags :: bytes
  is_app_data :: bytes32

definition intent_slots :: "bytes \<Rightarrow> IntentSlots" where
  "intent_slots bs =
    \<lparr>is_owner = new_from_array (slice 0 WIDTH_OWNER bs),
     is_sell_token = new_from_array (slice WIDTH_OWNER WIDTH_SELL_TOKEN bs),
     is_sell_mint = new_from_array (slice (WIDTH_OWNER + WIDTH_SELL_TOKEN) WIDTH_SELL_MINT bs),
     is_buy_token =
       new_from_array (slice (WIDTH_OWNER + WIDTH_SELL_TOKEN + WIDTH_SELL_MINT) WIDTH_BUY_TOKEN bs),
     is_buy_mint =
       new_from_array (slice (WIDTH_OWNER + WIDTH_SELL_TOKEN + WIDTH_SELL_MINT + WIDTH_BUY_TOKEN)
         WIDTH_BUY_MINT bs),
     is_sell_amount =
       slice (WIDTH_OWNER + WIDTH_SELL_TOKEN + WIDTH_SELL_MINT + WIDTH_BUY_TOKEN + WIDTH_BUY_MINT)
         WIDTH_SELL_AMOUNT bs,
     is_buy_amount =
       slice (WIDTH_OWNER + WIDTH_SELL_TOKEN + WIDTH_SELL_MINT + WIDTH_BUY_TOKEN + WIDTH_BUY_MINT
         + WIDTH_SELL_AMOUNT) WIDTH_BUY_AMOUNT bs,
     is_valid_to =
       slice (WIDTH_OWNER + WIDTH_SELL_TOKEN + WIDTH_SELL_MINT + WIDTH_BUY_TOKEN + WIDTH_BUY_MINT
         + WIDTH_SELL_AMOUNT + WIDTH_BUY_AMOUNT) WIDTH_VALID_TO bs,
     is_flags =
       slice (WIDTH_OWNER + WIDTH_SELL_TOKEN + WIDTH_SELL_MINT + WIDTH_BUY_TOKEN + WIDTH_BUY_MINT
         + WIDTH_SELL_AMOUNT + WIDTH_BUY_AMOUNT + WIDTH_VALID_TO) WIDTH_FLAGS bs,
     is_app_data =
       new_from_array (slice (WIDTH_OWNER + WIDTH_SELL_TOKEN + WIDTH_SELL_MINT + WIDTH_BUY_TOKEN
         + WIDTH_BUY_MINT + WIDTH_SELL_AMOUNT + WIDTH_BUY_AMOUNT + WIDTH_VALID_TO + WIDTH_FLAGS)
         WIDTH_APP_DATA bs)\<rparr>"

text \<open>\<open>impl From<&OrderIntent> for EncodedOrderIntent\<close>: the slots in wire order.\<close>

definition intent_encode :: "platform \<Rightarrow> OrderIntent \<Rightarrow> bytes" where
  "intent_encode P i =
     (let (buy_mint_address, buy_account) = asset_encode P (oi_buy i) in
      to_bytes (oi_owner i) @ to_bytes (ta_token_account (oi_sell i)) @
      to_bytes (ta_mint (oi_sell i)) @ to_bytes buy_account @ to_bytes buy_mint_address @
      to_le 8 (oi_sell_amount i) @ to_le 8 (oi_buy_amount i) @ to_le 4 (oi_valid_to i) @
      flags_to_byte (oi_flags i) @ to_bytes (oi_app_data i))"

text \<open>\<open>NonZeroU64::new\<close>.\<close>

definition nonzero_new :: "u64 \<Rightarrow> u64 option" where
  "nonzero_new n = (if n = 0 then None else Some n)"

lemma nonzero_new_Some_iff: "nonzero_new n = Some m \<longleftrightarrow> n \<noteq> 0 \<and> m = n"
  by (auto simp: nonzero_new_def)

text \<open>
  \<open>impl TryFrom<&[u8; SIZE]> for OrderIntent\<close>. The fields are evaluated in the order of the struct
  literal, so the amounts are rejected before the flags.
\<close>

definition intent_try_from :: "platform \<Rightarrow> bytes \<Rightarrow> OrderIntent result" where
  "intent_try_from P bs =
     (let slots = intent_slots bs in
      bindE (ok_or (nonzero_new (from_le (is_sell_amount slots))) (serr ZeroOrderAmount)) (\<lambda>sell_amount.
      bindE (ok_or (nonzero_new (from_le (is_buy_amount slots))) (serr ZeroOrderAmount)) (\<lambda>buy_amount.
      bindE (flags_try_from (is_flags slots)) (\<lambda>flags.
      Inr \<lparr>oi_owner = is_owner slots,
           oi_sell = \<lparr>ta_mint = is_sell_mint slots, ta_token_account = is_sell_token slots\<rparr>,
           oi_buy = asset_decode P (is_buy_mint slots) (is_buy_token slots),
           oi_sell_amount = sell_amount,
           oi_buy_amount = buy_amount,
           oi_valid_to = from_le (is_valid_to slots),
           oi_flags = flags,
           oi_app_data = is_app_data slots\<rparr>))))"

definition check_bytes :: "bytes \<Rightarrow> unit result" where
  "check_bytes bs =
     (let slots = intent_slots bs in
      bindE (flags_try_from (is_flags slots)) (\<lambda>_.
      if (from_le (is_sell_amount slots) :: u64) = 0 \<or> (from_le (is_buy_amount slots) :: u64) = 0
      then Inl (serr ZeroOrderAmount) else Inr ()))"

definition extract_owner :: "bytes \<Rightarrow> bytes32" where
  "extract_owner bs = is_owner (intent_slots bs)"

definition hash_bytes :: "platform \<Rightarrow> bytes \<Rightarrow> hash" where
  "hash_bytes P bs = pf_sha256 P bs"

definition intent_uid :: "platform \<Rightarrow> OrderIntent \<Rightarrow> hash" where
  "intent_uid P i = hash_bytes P (intent_encode P i)"

section \<open>The accessor\<close>

text \<open>
  \<open>OrderIntentAccessor\<close>: the 213 bytes themselves, checked by \<open>attach\<close>; the getters that
  cannot fail after that have their \<open>unreachable!\<close> branch as \<open>Panic\<close>.
\<close>

definition ia_attach :: "bytes \<Rightarrow> bytes result" where
  "ia_attach bs = bindE (check_bytes bs) (\<lambda>_. Inr bs)"

definition ia_owner :: "bytes \<Rightarrow> bytes32" where
  "ia_owner bs = is_owner (intent_slots bs)"

definition ia_sell_token_account :: "bytes \<Rightarrow> bytes32" where
  "ia_sell_token_account bs = is_sell_token (intent_slots bs)"

definition ia_sell_mint :: "bytes \<Rightarrow> bytes32" where
  "ia_sell_mint bs = is_sell_mint (intent_slots bs)"

definition ia_buy_token_account :: "bytes \<Rightarrow> bytes32" where
  "ia_buy_token_account bs = is_buy_token (intent_slots bs)"

definition ia_buy_mint :: "bytes \<Rightarrow> bytes32" where
  "ia_buy_mint bs = is_buy_mint (intent_slots bs)"

definition ia_sell_amount :: "bytes \<Rightarrow> u64 result" where
  "ia_sell_amount bs = ok_or (nonzero_new (from_le (is_sell_amount (intent_slots bs)))) Panic"

definition ia_buy_amount :: "bytes \<Rightarrow> u64 result" where
  "ia_buy_amount bs = ok_or (nonzero_new (from_le (is_buy_amount (intent_slots bs)))) Panic"

definition ia_valid_to :: "bytes \<Rightarrow> u32" where
  "ia_valid_to bs = from_le (is_valid_to (intent_slots bs))"

definition ia_flags :: "bytes \<Rightarrow> Flags result" where
  "ia_flags bs = map_err (\<lambda>_. Panic) (flags_try_from (is_flags (intent_slots bs)))"

definition ia_uid :: "platform \<Rightarrow> bytes \<Rightarrow> hash" where
  "ia_uid P bs = hash_bytes P bs"

section \<open>The encoding is canonical\<close>

lemma length_intent_encode [simp]: "length (intent_encode P i) = INTENT_SIZE"
  by (simp add: intent_encode_def INTENT_SIZE_def split: prod.splits)

lemma intent_slots_encode:
  "intent_slots (intent_encode P i) =
    \<lparr>is_owner = oi_owner i,
     is_sell_token = ta_token_account (oi_sell i),
     is_sell_mint = ta_mint (oi_sell i),
     is_buy_token = snd (asset_encode P (oi_buy i)),
     is_buy_mint = fst (asset_encode P (oi_buy i)),
     is_sell_amount = to_le 8 (oi_sell_amount i),
     is_buy_amount = to_le 8 (oi_buy_amount i),
     is_valid_to = to_le 4 (oi_valid_to i),
     is_flags = flags_to_byte (oi_flags i),
     is_app_data = oi_app_data i\<rparr>"
  by (simp add: intent_slots_def intent_encode_def layout_simps split: prod.splits)

text \<open>The slots partition the 213 bytes.\<close>

lemma intent_slots_concat:
  assumes "length bs = INTENT_SIZE"
  shows "bs = to_bytes (is_owner (intent_slots bs)) @ to_bytes (is_sell_token (intent_slots bs)) @
    to_bytes (is_sell_mint (intent_slots bs)) @ to_bytes (is_buy_token (intent_slots bs)) @
    to_bytes (is_buy_mint (intent_slots bs)) @ is_sell_amount (intent_slots bs) @
    is_buy_amount (intent_slots bs) @ is_valid_to (intent_slots bs) @
    is_flags (intent_slots bs) @ to_bytes (is_app_data (intent_slots bs))"
proof -
  have "bs = drop 0 bs" by simp
  then show ?thesis
    using assms drop_slice [of 0 32 bs] drop_slice [of 32 32 bs] drop_slice [of 64 32 bs]
      drop_slice [of 96 32 bs] drop_slice [of 128 32 bs] drop_slice [of 160 8 bs]
      drop_slice [of 168 8 bs] drop_slice [of 176 4 bs] drop_slice [of 180 1 bs]
      drop_slice [of 181 32 bs]
    by (simp add: intent_slots_def layout_simps INTENT_SIZE_def)
qed

lemma length_intent_slots:
  assumes "length bs = INTENT_SIZE"
  shows "length (is_sell_amount (intent_slots bs)) = 8" "length (is_buy_amount (intent_slots bs)) = 8"
    "length (is_valid_to (intent_slots bs)) = 4" "length (is_flags (intent_slots bs)) = 1"
  using assms by (simp_all add: intent_slots_def layout_simps INTENT_SIZE_def)

lemma intent_try_from_encode:
  assumes "wf_intent P i"
  shows "intent_try_from P (intent_encode P i) = Inr i"
  using assms
  by (simp add: intent_try_from_def intent_slots_encode nonzero_new_def wf_intent_def
      asset_decode_encode)

lemma intent_encode_try_from:
  assumes len: "length bs = INTENT_SIZE" and dec: "intent_try_from P bs = Inr i"
  shows "intent_encode P i = bs" and "wf_intent P i"
proof -
  obtain f where amounts: "(from_le (is_sell_amount (intent_slots bs)) :: u64) \<noteq> 0"
      "(from_le (is_buy_amount (intent_slots bs)) :: u64) \<noteq> 0"
    and f: "flags_try_from (is_flags (intent_slots bs)) = Inr f"
    and i: "i = \<lparr>oi_owner = is_owner (intent_slots bs),
           oi_sell = \<lparr>ta_mint = is_sell_mint (intent_slots bs),
             ta_token_account = is_sell_token (intent_slots bs)\<rparr>,
           oi_buy = asset_decode P (is_buy_mint (intent_slots bs)) (is_buy_token (intent_slots bs)),
           oi_sell_amount = from_le (is_sell_amount (intent_slots bs)),
           oi_buy_amount = from_le (is_buy_amount (intent_slots bs)),
           oi_valid_to = from_le (is_valid_to (intent_slots bs)),
           oi_flags = f, oi_app_data = is_app_data (intent_slots bs)\<rparr>"
    using dec by (auto simp: intent_try_from_def result_simps nonzero_new_Some_iff)
  show "wf_intent P i"
    using amounts by (simp add: i wf_intent_def)
  show "intent_encode P i = bs"
    by (subst intent_slots_concat [OF len])
      (simp add: i intent_encode_def flags_to_byte_try_from [OF f] length_intent_slots [OF len]
        u64_codec.enc_dec u32_codec.enc_dec)
qed

text \<open>
  A checked encoding: not every value has one and not every byte string is one, but the two
  directions are inverse to each other where they are defined. Then distinct byte strings never
  decode to the same value.
\<close>

locale canonical_encoding =
  fixes wf :: "'v \<Rightarrow> bool"
    and size_bytes :: nat
    and enc :: "'v \<Rightarrow> bytes"
    and dec :: "bytes \<Rightarrow> 'v result"
  assumes enc_size: "length (enc v) = size_bytes"
    and dec_enc: "wf v \<Longrightarrow> dec (enc v) = Inr v"
    and enc_dec: "length bs = size_bytes \<Longrightarrow> dec bs = Inr v \<Longrightarrow> enc v = bs"
    and wf_dec: "length bs = size_bytes \<Longrightarrow> dec bs = Inr v \<Longrightarrow> wf v"
begin

lemma enc_inj: "wf a \<Longrightarrow> wf b \<Longrightarrow> enc a = enc b \<longleftrightarrow> a = b"
  by (metis dec_enc Inr_inject)

lemma dec_inj:
  "length a = size_bytes \<Longrightarrow> length b = size_bytes \<Longrightarrow> dec a = Inr v \<Longrightarrow> dec b = Inr v \<Longrightarrow> a = b"
  by (metis enc_dec)

lemma dec_iff: "length bs = size_bytes \<Longrightarrow> dec bs = Inr v \<longleftrightarrow> wf v \<and> bs = enc v"
  by (metis dec_enc enc_dec wf_dec)

end

interpretation intent_codec:
  canonical_encoding "wf_intent P" INTENT_SIZE "intent_encode P" "intent_try_from P" for P
  by unfold_locales (simp_all add: intent_try_from_encode intent_encode_try_from)

section \<open>The cheap check and the accessor\<close>

lemma check_bytes_Inr_iff:
  "check_bytes bs = Inr () \<longleftrightarrow>
    (\<exists>f. flags_try_from (is_flags (intent_slots bs)) = Inr f) \<and>
    (from_le (is_sell_amount (intent_slots bs)) :: u64) \<noteq> 0 \<and>
    (from_le (is_buy_amount (intent_slots bs)) :: u64) \<noteq> 0"
  by (auto simp: check_bytes_def Let_def result_simps)

lemma check_bytes_iff_try_from: "check_bytes bs = Inr () \<longleftrightarrow> (\<exists>i. intent_try_from P bs = Inr i)"
  by (auto simp: check_bytes_Inr_iff intent_try_from_def result_simps nonzero_new_Some_iff)

lemma check_bytes_encode: "wf_intent P i \<Longrightarrow> check_bytes (intent_encode P i) = Inr ()"
  using check_bytes_iff_try_from intent_try_from_encode by blast

lemma ia_attach_Inr_iff [result_simps]: "ia_attach bs = Inr x \<longleftrightarrow> check_bytes bs = Inr () \<and> x = bs"
  by (auto simp: ia_attach_def result_simps)

lemma accessor_agrees:
  assumes "intent_try_from P bs = Inr i"
  shows "ia_owner bs = oi_owner i" and "ia_sell_token_account bs = ta_token_account (oi_sell i)"
    and "ia_sell_mint bs = ta_mint (oi_sell i)"
    and "(ia_buy_mint bs, ia_buy_token_account bs) = asset_encode P (oi_buy i)"
    and "ia_sell_amount bs = Inr (oi_sell_amount i)" and "ia_buy_amount bs = Inr (oi_buy_amount i)"
    and "ia_valid_to bs = oi_valid_to i" and "ia_flags bs = Inr (oi_flags i)"
  using assms
  by (auto simp: intent_try_from_def result_simps nonzero_new_def ia_owner_def
      ia_sell_token_account_def ia_sell_mint_def ia_buy_mint_def ia_buy_token_account_def
      ia_sell_amount_def ia_buy_amount_def ia_valid_to_def ia_flags_def split: if_splits)

lemma accessor_total:
  assumes "check_bytes bs = Inr ()"
  obtains sell buy flags where "ia_sell_amount bs = Inr sell" "ia_buy_amount bs = Inr buy"
    "ia_flags bs = Inr flags" "sell \<noteq> 0" "buy \<noteq> 0"
  using assms
  by (auto simp: check_bytes_Inr_iff ia_sell_amount_def ia_buy_amount_def ia_flags_def nonzero_new_def)

lemma extract_owner_encode [simp]: "extract_owner (intent_encode P i) = oi_owner i"
  by (simp add: extract_owner_def intent_slots_encode)

section \<open>Property\<close>

text \<open>
  C18: the encoding of intents is canonical: a well-formed intent survives encoding and decoding, and
  213 bytes that decode are the only encoding of the intent they decode to. So one intent has one
  hash, and no order can be replayed under other bytes.
\<close>

theorem intent_encoding_canonical:
  "(wf_intent P i \<longrightarrow> intent_try_from P (intent_encode P i) = Inr i) \<and>
   (length bs = INTENT_SIZE \<longrightarrow> intent_try_from P bs = Inr i \<longrightarrow>
     intent_encode P i = bs \<and> wf_intent P i \<and> intent_uid P i = hash_bytes P bs)"
  using intent_try_from_encode intent_encode_try_from by (auto simp: intent_uid_def)

end
