(* ===== verification/Pda.thy ===== *)
theory Pda
  imports Intent
begin

text \<open>
  Program-derived addresses: the seed schemes of \<open>interface/src/pda\<close>, and the addresses the
  program pins at build time (\<open>programs/settlement/src/pda\<close>) with the perfect-hash table of
  known buffers. The lemmas show that the versioned seed prefix has a fixed width and is
  injective in the version, that the table lookup \<open>known_buffer\<close> is the linear search it
  replaces, and that \<open>validate_buffer_pda\<close> accepts exactly the canonical buffer of a mint.
\<close>

section \<open>The versioned seed prefix\<close>

definition ascii :: "string \<Rightarrow> bytes" where
  "ascii s = map of_char s"

definition SETTLEMENT_SEED_PREFIX :: bytes where
  "SETTLEMENT_SEED_PREFIX = ascii ''settlement v''"

definition SETTLEMENT_SEED_VERSION_LEN :: nat where
  "SETTLEMENT_SEED_VERSION_LEN = 7"

definition SETTLEMENT_SEED_LEN :: nat where
  "SETTLEMENT_SEED_LEN = length SETTLEMENT_SEED_PREFIX + SETTLEMENT_SEED_VERSION_LEN"

text \<open>\<open>write_at\<close>: an index past the end panics.\<close>

fun write_at :: "bytes \<Rightarrow> nat \<Rightarrow> bytes \<Rightarrow> bytes result" where
  "write_at dest offset [] = Inr dest"
| "write_at dest offset (b # src) =
     (if offset < length dest then write_at (dest[offset := b]) (Suc offset) src else Inl Panic)"

definition build_padded_settlement_seed :: "bytes \<Rightarrow> bytes result" where
  "build_padded_settlement_seed version =
     bindE (ensure (length version \<le> SETTLEMENT_SEED_VERSION_LEN) Panic) (\<lambda>_.
     bindE (write_at (replicate SETTLEMENT_SEED_LEN (of_char CHR '' '')) 0 SETTLEMENT_SEED_PREFIX) (\<lambda>seed.
     write_at seed (length SETTLEMENT_SEED_PREFIX) version))"

text \<open>\<open>CARGO_PKG_VERSION_MAJOR\<close> and \<open>CARGO_PKG_VERSION_MINOR\<close> of the workspace, version 0.5.3.\<close>

definition SETTLEMENT_SEED :: bytes where
  "SETTLEMENT_SEED = (case build_padded_settlement_seed (ascii ''0.5'') of Inr s \<Rightarrow> s | Inl _ \<Rightarrow> [])"

section \<open>Seeds and derivations\<close>

definition is_pda_with_signer_seeds :: "platform \<Rightarrow> pubkey \<Rightarrow> pubkey \<Rightarrow> bytes list \<Rightarrow> bool" where
  "is_pda_with_signer_seeds P account prog signer_seeds =
     (case pf_create_program_address P signer_seeds prog of
        None \<Rightarrow> False | Some derived \<Rightarrow> account = derived)"

definition STATE_PDA_SEEDS :: "bytes list" where
  "STATE_PDA_SEEDS = [SETTLEMENT_SEED]"

definition find_state_pda :: "platform \<Rightarrow> pubkey \<Rightarrow> pubkey \<times> u8" where
  "find_state_pda P prog = pf_find_program_address P STATE_PDA_SEEDS prog"

definition ORDER_SEED :: bytes where
  "ORDER_SEED = ascii ''order''"

definition order_pda_seeds :: "hash \<Rightarrow> bytes list" where
  "order_pda_seeds uid = [SETTLEMENT_SEED, to_bytes uid, ORDER_SEED]"

definition order_pda_signer_seeds :: "hash \<Rightarrow> bytes \<Rightarrow> bytes list" where
  "order_pda_signer_seeds uid bump = order_pda_seeds uid @ [bump]"

definition find_order_pda :: "platform \<Rightarrow> pubkey \<Rightarrow> hash \<Rightarrow> pubkey \<times> u8" where
  "find_order_pda P prog uid = pf_find_program_address P (order_pda_seeds uid) prog"

definition BUFFER_SEED :: bytes where
  "BUFFER_SEED = ascii ''buffer''"

definition buffer_pda_seeds :: "bytes32 \<Rightarrow> bytes list" where
  "buffer_pda_seeds mint = [SETTLEMENT_SEED, to_bytes mint, BUFFER_SEED]"

definition buffer_pda_signer_seeds :: "bytes32 \<Rightarrow> bytes \<Rightarrow> bytes list" where
  "buffer_pda_signer_seeds mint bump = buffer_pda_seeds mint @ [bump]"

definition find_buffer_pda :: "platform \<Rightarrow> pubkey \<Rightarrow> pubkey \<Rightarrow> pubkey \<times> u8" where
  "find_buffer_pda P prog mint = pf_find_program_address P (buffer_pda_seeds mint) prog"

definition NATIVE_SOL_BUFFER_SEED :: bytes where
  "NATIVE_SOL_BUFFER_SEED = ascii ''buffer native sol''"

definition NATIVE_SOL_BUFFER_PDA_SEEDS :: "bytes list" where
  "NATIVE_SOL_BUFFER_PDA_SEEDS = [SETTLEMENT_SEED, NATIVE_SOL_BUFFER_SEED]"

definition find_native_sol_buffer_pda :: "platform \<Rightarrow> pubkey \<Rightarrow> pubkey \<times> u8" where
  "find_native_sol_buffer_pda P prog = pf_find_program_address P NATIVE_SOL_BUFFER_PDA_SEEDS prog"

section \<open>The state address pinned at build time\<close>

definition STATE_PDA_AND_BUMP :: "platform \<Rightarrow> pubkey \<times> u8" where
  "STATE_PDA_AND_BUMP P = pf_derive_program_address P STATE_PDA_SEEDS (program_ID P)"

definition STATE_PDA :: "platform \<Rightarrow> pubkey" where
  "STATE_PDA P = fst (STATE_PDA_AND_BUMP P)"

definition STATE_PDA_SIGNER_SEEDS :: "platform \<Rightarrow> bytes list" where
  "STATE_PDA_SIGNER_SEEDS P = STATE_PDA_SEEDS @ [[snd (STATE_PDA_AND_BUMP P)]]"

definition validate_is_state_pda :: "platform \<Rightarrow> pubkey \<Rightarrow> unit result" where
  "validate_is_state_pda P prospective_state_address =
     (if prospective_state_address \<noteq> fst (STATE_PDA_AND_BUMP P)
      then Inl (serr StateAccountMismatch) else Inr ())"

lemma validate_is_state_pda_Inr_iff [result_simps]:
  "validate_is_state_pda P a = Inr u \<longleftrightarrow> a = STATE_PDA P"
  by (simp add: validate_is_state_pda_def STATE_PDA_def)

section \<open>Known buffers\<close>

definition KNOWN_MINTS :: "string list" where
  "KNOWN_MINTS =
     [''27G8MtK7VtTcCHkpASjSDdkWWYfoqT6ggEuKidVJidD4'',
      ''2b1kV6DkPAnxd5ixfnxCpjxmKwqjjaYmCZfHsFu24GXo'',
      ''2u1tszSeqZ3qBWF3uNGPFc8TzMk2tdiwknnRMWGWjGWH'',
      ''2zMMhcVQEXDtdE6vsFS7S7D5oUodfJHE8vd1gnBouauv'',
      ''3NZ9JMVBmGAqocybic2c7LQCJScmgsAZ6vQqTDzcqmJh'',
      ''4k3Dyjzvzp8eMZWUXbBCjEvwSkkk59S5iCNLY3QrkX6R'',
      ''4sWNB8zGWHkh6UnmwiEtzNxL4XrN7uK9tosbESbJFfVs'',
      ''5UUH9RTDiSpq6HKS6bp4NdU9PNJpXRXuiw6ShBTBhgH2'',
      ''5Y8NV33Vv7WbnLfq3zBcKSdYPrk7g2KoiQoe7M2tcxp5'',
      ''5YMkXAYccHSGnHn9nob9xEvv6Pvka9DZWH7nTbotTu9E'',
      ''5oVNBeEEQvYi1cX3ir8Dx5n1P7pdxydbGF2X4TxVusJm'',
      ''61V8vBaqAGMpgDQi4JcAwo1dmBGHsyhzodcPqnEVpump'',
      ''63LfDmNb3MQ8mw9MtZ2To9bEA2M71kZUUGq5tiJxcqj9'',
      ''6p6xgHyF7AeE6TZkSmFsko444wqoP15icUSqi2jfGiPN'',
      ''7GCihgDB8fe6KNjn2MYtkzZcRjQy3t9GHdC8uHYmW2hr'',
      ''7JA5eZdCzztSfQbJvS8aVVxMFfd81Rs9VvwnocV1mKHu'',
      ''7dHbWXmci3dT8UFYWYZweBLXgycu7Y3iL6trKn1Y7ARj'',
      ''7vfCXTUXx5WJV5JADk17DUJ4ksgau7utNKj4b963voxs'',
      ''8x5VqbHA8D7NkD52uNuS5nnt3PwA8pLD34ymskeSo2Wn'',
      ''98sMhvDwXj1RQi5c5Mndm3vPe9cBqPrbLaufMXFNMh5g'',
      ''9BB6NFEcjBCtnNLFko2FqVQBq8HHM13kCyYcdQbgpump'',
      ''A7bdiYdS5GjqGFtxf17ppRHtDKPkkRqbKtR27dxvQXaS'',
      ''CARDSccUMFKoPRZxt5vt3ksUbxEFEcnZ3H2pd3dKxYjp'',
      ''CASHx9KJUStyftLFWGvEVf59SGeG9sh5FfcnZMVPCASH'',
      ''Ce2gx9KGXJ6C9Mp5b5x1sn9Mg87JwEbrQby4Zqo3pump'',
      ''CreiuhfwdWCN5mJbMJtA9bBpYQrQF2tCBuZwSPWfpump'',
      ''DezXAZ8z7PnrnRJjz3wXBoRgixCa6xjnB7YaB1pPB263'',
      ''Dz9mQ9NzkBcCsuGPFJ3r1bS4wgqKMHBPiVuniW8Mbonk'',
      ''EKpQGSJtjMFqKZ9KQanSqYXRcF8fBopzLHYxdM65zcjm'',
      ''EPjFWdd5AufqSSqeM2qN1xzybapC8G4wEGGkZwyTDt1v'',
      ''Es9vMFrzaCERmJfrF4H2FYD4KCoNkY11McCe8BenwNYB'',
      ''Grass7B4RdKfBCjTKgSqnXkqjwiGvQyFbuSCUJr3XXjs'',
      ''HZ1JovNiVvGrGNiiYvEozEVgZ58xaU3RKwX8eACQBCt3'',
      ''HzwqbKZw8HxMN6bF2yFZNrht3c2iXXzpKcFu7uBEDKtr'',
      ''J1toso1uCk3RLmjorhTtrVwY9HJ7X8V9yYac6Y7kGCPn'',
      ''J3NKxxXZcnNiMjKw9hYb2K4LUxgwB6t1FtPtQVsv3KFr'',
      ''J6pQQ3FAcJQeWPPGppWRb4nM8jU3wLyYbRrLh7feMfvd'',
      ''JUPyiwrYJFskUPiHa7hkeR8VUtAeFoSYbKedZNsDvCN'',
      ''KMNo3nJsBXfcpJTVhZcXLW7RmTwTt4GVFE7suUBo9sS'',
      ''METAewgxyPbgwsseH8T16a39CQ5VyVxZi9zXiDPY18m'',
      ''METvsvVRapdj9cFLzq4Tr43xK4tAjQfwX76z3n6mWQL'',
      ''So11111111111111111111111111111111111111112'',
      ''USD1ttGY1N17NEEHLmELoaybftRBUSErhqYiQzvEmuB'',
      ''USDSwr9ApdHk5bvJKMjzff41FfuX8bSxdKcR81vTwcA'',
      ''WENWENvqqNya429ubCdR81ZmD69brwQaaBYY6p3LCpk'',
      ''Xs8S1uUs1zvS2p7iwtsG3b6fkhpvmwz4GYU3gWAmWHZ'',
      ''XsDoVfqeBukxuZHWhdvWHBhgEHjGNst4MLodqsJHzoB'',
      ''XsP7xzNPvEHS1m6qfanPUGjNmdnmsLKEoNAnHjdxxyZ'',
      ''Xsc9qvGR1efVDFGLrVsmkzv3qi45LTBjeUKSPmx9qEh'',
      ''XsoCS1TfEyfFhfvj8EtZ528L3CaKBDBRqRapnBbDF2W'',
      ''XsueG8BtpquVJX9LVLLEGuViXUungE6WmK5YZ3p3bd1'',
      ''ZBCNpuD7YMXzTHB2fhGkGi78MNsHGLRXUhRewNRm9RU'',
      ''bSo13r4TkiE4KumL71LsHTPpL2euBYLFx6h9HP3piy1'',
      ''cbbtcf3aa214zXHbiAZQwf4122FBYbraNdFqgw4iMij'',
      ''hntyVP6YFm1Hg25TN9WGLqM12b8TQmcknKrdu1oxWux'',
      ''jtojtomepa8beP8AuQc6eXt5FriJwfFMwQx2v2f9mCL'',
      ''jupSoLaHXQiZZTSfEWMTRRgpnyFm8f6sZdosWBjx93v'',
      ''mSoLzYCxHdYgdzU16g5QSh3i5K3z3KZK7ytfqcJm7So'',
      ''orcaEKTdK7LKz57vaAYr9QeNsVEPfiu6QeMU1kektZE'',
      ''oreoU2P8bN6jkk3jbaiVxYnG1dCXcYxwhwyK9jSybcp'',
      ''pumpCmXqMfrsAkQ5r49WcJnRayYRqmXz6ae8H7H9Dfn'',
      ''rndrizKT3MK1iimdxRdWabcF7Zg7AR5T4nud4EkHBof'',
      ''zBTCug3er3tLyffELcvDNrKkCymbPWysGcWihESYfLg'']"

record KnownBuffer =
  kb_mint :: bytes32
  kb_address :: bytes32

definition NATIVE_SOL_BUFFER_PDA_AND_BUMP :: "platform \<Rightarrow> pubkey \<times> u8" where
  "NATIVE_SOL_BUFFER_PDA_AND_BUMP P =
     pf_derive_program_address P NATIVE_SOL_BUFFER_PDA_SEEDS (program_ID P)"

definition NATIVE_SOL_BUFFER_PDA :: "platform \<Rightarrow> pubkey" where
  "NATIVE_SOL_BUFFER_PDA P = fst (NATIVE_SOL_BUFFER_PDA_AND_BUMP P)"

definition KNOWN_BUFFERS :: "platform \<Rightarrow> KnownBuffer list" where
  "KNOWN_BUFFERS P =
     map (\<lambda>s. let mint = pf_decode_pubkey P s in
            \<lparr>kb_mint = mint,
             kb_address = fst (pf_derive_program_address P (buffer_pda_seeds mint) (program_ID P))\<rparr>)
       KNOWN_MINTS @
     [\<lparr>kb_mint = ENCODED_NATIVE_SOL_TRANSFER P, kb_address = NATIVE_SOL_BUFFER_PDA P\<rparr>]"

definition SLOT_BITS :: nat where
  "SLOT_BITS = 9"

definition slot :: "bytes32 \<Rightarrow> u64 \<Rightarrow> nat" where
  "slot mint multiplier =
     (let key = from_le (slice 0 8 (to_bytes mint)) :: u64
      in unat (drop_bit (64 - SLOT_BITS) (key * multiplier)))"

fun distinct_slots_loop :: "u64 \<Rightarrow> bool list \<Rightarrow> KnownBuffer list \<Rightarrow> bool" where
  "distinct_slots_loop multiplier taken [] = True"
| "distinct_slots_loop multiplier taken (b # buffers) =
     (let s = slot (kb_mint b) multiplier in
      if taken ! s then False else distinct_slots_loop multiplier (taken[s := True]) buffers)"

definition has_distinct_slots :: "KnownBuffer list \<Rightarrow> u64 \<Rightarrow> bool" where
  "has_distinct_slots buffers multiplier =
     distinct_slots_loop multiplier (replicate (2 ^ SLOT_BITS) False) buffers"

definition SLOT_ATTEMPTS :: nat where
  "SLOT_ATTEMPTS = 100000"

definition slot_multiplier_of :: "platform \<Rightarrow> nat \<Rightarrow> u64" where
  "slot_multiplier_of P attempt =
     from_le (slice 0 8 (to_bytes (pf_const_sha256 P (to_le 4 (of_nat attempt :: u32)))))"

function slot_multiplier_from :: "platform \<Rightarrow> KnownBuffer list \<Rightarrow> nat \<Rightarrow> u64 result" where
  "slot_multiplier_from P buffers attempt =
     (if attempt < SLOT_ATTEMPTS then
        (if has_distinct_slots buffers (slot_multiplier_of P attempt)
         then Inr (slot_multiplier_of P attempt)
         else slot_multiplier_from P buffers (Suc attempt))
      else Inl Panic)"
  by pat_completeness auto
termination
  by (relation "measure (\<lambda>(P, buffers, attempt). SLOT_ATTEMPTS - attempt)") auto

declare slot_multiplier_from.simps [simp del]

definition find_slot_multiplier :: "platform \<Rightarrow> KnownBuffer list \<Rightarrow> u64 result" where
  "find_slot_multiplier P buffers = slot_multiplier_from P buffers 0"

definition KNOWN_BUFFER_MULTIPLIER :: "platform \<Rightarrow> u64 result" where
  "KNOWN_BUFFER_MULTIPLIER P = find_slot_multiplier P (KNOWN_BUFFERS P)"

fun fill_slots :: "u64 \<Rightarrow> nat \<Rightarrow> u8 list \<Rightarrow> KnownBuffer list \<Rightarrow> u8 list" where
  "fill_slots multiplier i slots [] = slots"
| "fill_slots multiplier i slots (b # buffers) =
     fill_slots multiplier (Suc i) (slots[slot (kb_mint b) multiplier := of_nat i]) buffers"

text \<open>The slot table; \<open>u8::MAX\<close> marks an empty slot, so there have to be fewer buffers than that.\<close>

definition known_buffer_slots :: "u64 \<Rightarrow> KnownBuffer list \<Rightarrow> u8 list result" where
  "known_buffer_slots multiplier buffers =
     bindE (ensure (length buffers < 255) Panic) (\<lambda>_.
     Inr (fill_slots multiplier 0 (replicate (2 ^ SLOT_BITS) 255) buffers))"

definition lookup_slot :: "u64 \<Rightarrow> u8 list \<Rightarrow> KnownBuffer list \<Rightarrow> bytes32 \<Rightarrow> KnownBuffer option" where
  "lookup_slot multiplier slots buffers mint =
     (let index = unat (slots ! slot mint multiplier) in
      if index < length buffers \<and> kb_mint (buffers ! index) = mint then Some (buffers ! index) else None)"

text \<open>
  \<open>known_buffer\<close>. The table and its multiplier are build-time constants: a \<open>Panic\<close> here is a
  program that does not build.
\<close>

definition known_buffer :: "platform \<Rightarrow> bytes32 \<Rightarrow> KnownBuffer option result" where
  "known_buffer P mint =
     bindE (KNOWN_BUFFER_MULTIPLIER P) (\<lambda>multiplier.
     bindE (known_buffer_slots multiplier (KNOWN_BUFFERS P)) (\<lambda>slots.
     Inr (lookup_slot multiplier slots (KNOWN_BUFFERS P) mint)))"

definition validate_buffer_pda :: "platform \<Rightarrow> pubkey \<Rightarrow> bytes32 \<Rightarrow> u8 \<Rightarrow> unit result" where
  "validate_buffer_pda P buffer mint bump =
     bindE (known_buffer P mint) (\<lambda>k.
     let is_buffer =
       (case k of
          Some known \<Rightarrow> buffer = kb_address known
        | None \<Rightarrow> is_pda_with_signer_seeds P buffer (program_ID P) (buffer_pda_signer_seeds mint [bump]))
     in ensure is_buffer (serr PushSourceNotBuffer))"

section \<open>The seed prefix is injective in the version\<close>

lemma write_at_splice:
  "offset + length src \<le> length dest \<Longrightarrow> write_at dest offset src = Inr (splice offset src dest)"
proof (induction src arbitrary: dest offset)
  case (Cons b src)
  have "splice (Suc offset) src (dest[offset := b]) = splice offset (b # src) dest"
    using Cons.prems by (simp add: splice_def take_Suc_conv_app_nth take_update_cancel)
  with Cons show ?case by simp
qed (simp add: splice_def)

lemma length_SETTLEMENT_SEED_PREFIX [simp]: "length SETTLEMENT_SEED_PREFIX = 12"
  by (simp add: SETTLEMENT_SEED_PREFIX_def ascii_def)

abbreviation space :: u8 where "space \<equiv> of_char CHR '' ''"

lemma build_padded_settlement_seed_eq:
  "length v \<le> 7 \<Longrightarrow>
    build_padded_settlement_seed v = Inr (SETTLEMENT_SEED_PREFIX @ v @ replicate (7 - length v) space)"
  by (simp add: build_padded_settlement_seed_def SETTLEMENT_SEED_VERSION_LEN_def
      SETTLEMENT_SEED_LEN_def write_at_splice splice_def)

lemma padded_seed_inj:
  assumes "build_padded_settlement_seed v = Inr s" "build_padded_settlement_seed w = Inr s"
    and "space \<notin> set v" "space \<notin> set w"
  shows "v = w"
proof -
  have len: "length v \<le> 7" "length w \<le> 7"
    using assms(1,2)
    by (simp_all add: build_padded_settlement_seed_def SETTLEMENT_SEED_VERSION_LEN_def result_simps)
  have takeWhile: "takeWhile (\<lambda>b. b \<noteq> space) (x @ replicate n space) = x"
    if "space \<notin> set x" for x n
    using that by (induction x) (cases n, auto)
  have "v @ replicate (7 - length v) space = w @ replicate (7 - length w) space"
    using assms(1,2) by (auto simp: build_padded_settlement_seed_eq len)
  then show ?thesis
    using takeWhile [OF assms(3)] takeWhile [OF assms(4)] by metis
qed

lemma SETTLEMENT_SEED_eq: "SETTLEMENT_SEED = ascii ''settlement v0.5    ''"
proof -
  have "length (ascii ''0.5'') \<le> 7" by (simp add: ascii_def)
  then show ?thesis
    by (simp add: SETTLEMENT_SEED_def build_padded_settlement_seed_eq SETTLEMENT_SEED_PREFIX_def
        ascii_def numeral_eq_Suc)
qed

section \<open>The table lookup is the linear search\<close>

lemma slot_less: "slot mint multiplier < 2 ^ SLOT_BITS"
proof -
  have "unat (drop_bit 55 (w :: u64)) < 2 ^ 9" for w
  proof -
    have "unat w < 2 ^ 55 * 2 ^ 9"
      using unsigned_less [of w, where ?'a = nat] by simp
    then have "unat w div 2 ^ 55 < 2 ^ 9"
      by (simp add: less_mult_imp_div_less mult.commute)
    then show ?thesis
      by (simp add: drop_bit_eq_div unat_div)
  qed
  then show ?thesis by (simp add: slot_def SLOT_BITS_def)
qed

lemma distinct_slots_loop_iff:
  "length taken = 2 ^ SLOT_BITS \<Longrightarrow>
    distinct_slots_loop m taken buffers \<longleftrightarrow>
      distinct (map (\<lambda>b. slot (kb_mint b) m) buffers) \<and>
      (\<forall>b \<in> set buffers. \<not> taken ! slot (kb_mint b) m)"
proof (induction buffers arbitrary: taken)
  case (Cons b buffers)
  let ?s = "slot (kb_mint b) m"
  have "(taken[?s := True]) ! slot (kb_mint c) m = (slot (kb_mint c) m = ?s \<or> taken ! slot (kb_mint c) m)"
    for c using Cons.prems slot_less [of "kb_mint b" m] by (simp add: nth_list_update)
  then show ?case using Cons.IH [of "taken[?s := True]"] Cons.prems by (auto simp: Let_def image_iff)
qed simp

lemma has_distinct_slots_iff:
  "has_distinct_slots buffers m \<longleftrightarrow> distinct (map (\<lambda>b. slot (kb_mint b) m) buffers)"
  by (simp add: has_distinct_slots_def distinct_slots_loop_iff slot_less)

lemma slot_multiplier_from_distinct:
  "slot_multiplier_from P buffers n = Inr m \<Longrightarrow> has_distinct_slots buffers m"
proof (induction P buffers n rule: slot_multiplier_from.induct)
  case (1 P buffers attempt)
  then show ?case
    by (cases "attempt < SLOT_ATTEMPTS"; cases "has_distinct_slots buffers (slot_multiplier_of P attempt)")
      (simp_all add: slot_multiplier_from.simps [of P buffers attempt])
qed

lemma fill_slots_outside:
  "s \<notin> (\<lambda>b. slot (kb_mint b) m) ` set buffers \<Longrightarrow> fill_slots m i slots buffers ! s = slots ! s"
  by (induction buffers arbitrary: i slots) auto

lemma fill_slots_inside:
  "distinct (map (\<lambda>b. slot (kb_mint b) m) buffers) \<Longrightarrow> length slots = 2 ^ SLOT_BITS \<Longrightarrow>
    k < length buffers \<Longrightarrow>
    fill_slots m i slots buffers ! slot (kb_mint (buffers ! k)) m = of_nat (i + k)"
proof (induction buffers arbitrary: i slots k)
  case (Cons b buffers)
  show ?case
  proof (cases k)
    case 0
    with Cons.prems show ?thesis
      by (simp add: fill_slots_outside slot_less)
  next
    case (Suc k')
    with Cons show ?thesis by simp
  qed
qed simp

lemma lookup_slot_eq_find:
  assumes distinct: "distinct (map (\<lambda>b. slot (kb_mint b) m) buffers)"
    and small: "length buffers < 255"
    and slots: "known_buffer_slots m buffers = Inr slots"
  shows "lookup_slot m slots buffers mint = find (\<lambda>k. kb_mint k = mint) buffers"
proof (cases "find (\<lambda>k. kb_mint k = mint) buffers")
  case None
  then have "kb_mint (buffers ! i) \<noteq> mint" if "i < length buffers" for i
    using that by (auto simp: find_None_iff)
  with None show ?thesis by (auto simp: lookup_slot_def Let_def)
next
  case (Some b)
  then obtain k where k: "k < length buffers" "buffers ! k = b" "kb_mint b = mint"
    by (auto simp: find_Some_iff)
  have "slots ! slot mint m = of_nat k"
    using fill_slots_inside [OF distinct _ k(1), of "replicate (2 ^ SLOT_BITS) 255" 0] k slots small
    by (simp add: known_buffer_slots_def)
  moreover have "unat (of_nat k :: u8) = k"
    using k(1) small by (simp add: unsigned_of_nat take_bit_nat_eq_self)
  ultimately show ?thesis
    using Some k by (simp add: lookup_slot_def)
qed

lemma length_KNOWN_BUFFERS: "length (KNOWN_BUFFERS P) = 64"
  by (simp add: KNOWN_BUFFERS_def KNOWN_MINTS_def)

lemma known_buffer_eq_find:
  assumes "KNOWN_BUFFER_MULTIPLIER P = Inr m"
  shows "known_buffer P mint = Inr (find (\<lambda>k. kb_mint k = mint) (KNOWN_BUFFERS P))"
proof -
  have "has_distinct_slots (KNOWN_BUFFERS P) m"
    using assms slot_multiplier_from_distinct
    by (auto simp: KNOWN_BUFFER_MULTIPLIER_def find_slot_multiplier_def)
  moreover have slots: "known_buffer_slots m (KNOWN_BUFFERS P) =
      Inr (fill_slots m 0 (replicate (2 ^ SLOT_BITS) 255) (KNOWN_BUFFERS P))"
    by (simp add: known_buffer_slots_def length_KNOWN_BUFFERS)
  ultimately show ?thesis
    using assms lookup_slot_eq_find [OF _ _ slots]
    by (simp add: known_buffer_def has_distinct_slots_iff length_KNOWN_BUFFERS)
qed

lemma validate_buffer_pda_Inr_iff:
  assumes "KNOWN_BUFFER_MULTIPLIER P = Inr m"
  shows "validate_buffer_pda P buffer mint bump = Inr () \<longleftrightarrow>
    (case find (\<lambda>k. kb_mint k = mint) (KNOWN_BUFFERS P) of
       Some known \<Rightarrow> buffer = kb_address known
     | None \<Rightarrow> pf_create_program_address P (buffer_pda_seeds mint @ [[bump]]) (program_ID P) = Some buffer)"
  by (auto simp: validate_buffer_pda_def known_buffer_eq_find [OF assms] result_simps
      is_pda_with_signer_seeds_def buffer_pda_signer_seeds_def split: option.splits)

text \<open>The canonical buffer of a wire mint: the native SOL buffer for the native marker.\<close>

definition canonical_buffer :: "platform \<Rightarrow> bytes32 \<Rightarrow> pubkey" where
  "canonical_buffer P mint =
     (if mint = ENCODED_NATIVE_SOL_TRANSFER P then NATIVE_SOL_BUFFER_PDA P
      else fst (find_buffer_pda P (program_ID P) mint))"

lemma known_buffers_canonical:
  assumes "derive_agrees P" and "KNOWN_BUFFER_MULTIPLIER P = Inr m"
    and "find (\<lambda>k. kb_mint k = mint) (KNOWN_BUFFERS P) = Some known"
  shows "kb_address known = canonical_buffer P mint"
proof -
  have distinct: "distinct (map kb_mint (KNOWN_BUFFERS P))"
  proof -
    have "has_distinct_slots (KNOWN_BUFFERS P) m"
      using assms(2) slot_multiplier_from_distinct
      by (auto simp: KNOWN_BUFFER_MULTIPLIER_def find_slot_multiplier_def)
    then have "distinct (map (\<lambda>x. slot x m) (map kb_mint (KNOWN_BUFFERS P)))"
      by (simp add: has_distinct_slots_iff comp_def)
    then show ?thesis by (simp only: distinct_map)
  qed
  have known: "known \<in> set (KNOWN_BUFFERS P)" "kb_mint known = mint"
    using assms(3) by (auto simp: find_Some_iff)
  show ?thesis
  proof (cases "mint = ENCODED_NATIVE_SOL_TRANSFER P")
    case True
    let ?native = "\<lparr>kb_mint = ENCODED_NATIVE_SOL_TRANSFER P, kb_address = NATIVE_SOL_BUFFER_PDA P\<rparr>"
    have "?native \<in> set (KNOWN_BUFFERS P)" by (simp add: KNOWN_BUFFERS_def)
    with known True distinct have "known = ?native"
      by (auto simp: distinct_map inj_on_def)
    with True show ?thesis by (simp add: canonical_buffer_def)
  next
    case False
    with known assms(1) show ?thesis
      by (auto simp: KNOWN_BUFFERS_def canonical_buffer_def find_buffer_pda_def derive_agrees_def Let_def)
  qed
qed

lemma native_marker_known:
  "find (\<lambda>k. kb_mint k = ENCODED_NATIVE_SOL_TRANSFER P) (KNOWN_BUFFERS P) \<noteq> None"
  by (auto simp: find_None_iff KNOWN_BUFFERS_def)

lemma validate_buffer_pda_canonical:
  assumes "derive_agrees P" and "find_agrees P" and "KNOWN_BUFFER_MULTIPLIER P = Inr m"
    and "bump = snd (find_buffer_pda P (program_ID P) mint)"
  shows "validate_buffer_pda P buffer mint bump = Inr () \<longleftrightarrow> buffer = canonical_buffer P mint"
proof (cases "find (\<lambda>k. kb_mint k = mint) (KNOWN_BUFFERS P)")
  case None
  then have "mint \<noteq> ENCODED_NATIVE_SOL_TRANSFER P"
    using native_marker_known [of P] by auto
  with None assms show ?thesis
    by (auto simp: validate_buffer_pda_Inr_iff canonical_buffer_def find_buffer_pda_def find_agrees_def)
next
  case (Some known)
  with assms known_buffers_canonical show ?thesis
    by (simp add: validate_buffer_pda_Inr_iff)
qed

section \<open>Property\<close>

text \<open>
  C19: the perfect-hash table of the known buffers answers like a linear search of the list, and the
  check of a push's source accepts, with the canonical bump, exactly the canonical buffer of the
  mint: the native SOL buffer for the native marker, the derived buffer for every other mint.
\<close>

theorem known_buffer_table_exact:
  assumes "derive_agrees P" and "find_agrees P" and "KNOWN_BUFFER_MULTIPLIER P = Inr m"
  shows "known_buffer P mint = Inr (find (\<lambda>k. kb_mint k = mint) (KNOWN_BUFFERS P)) \<and>
    (validate_buffer_pda P buffer mint (snd (find_buffer_pda P (program_ID P) mint)) = Inr () \<longleftrightarrow>
     buffer = canonical_buffer P mint)"
  using known_buffer_eq_find [OF assms(3)] validate_buffer_pda_canonical [OF assms refl] by blast

end
