(* ===== verification/OrderData.thy ===== *)
theory OrderData
  imports Pda
begin

text \<open>
  The order account (\<open>interface/src/data/order.rs\<close>): its 264-byte layout, the accessor
  \<open>OrderAccount\<close> over it, and the two helpers of
  \<open>programs/settlement/src/processor/utils/intent.rs\<close> that read an intent out of an order. An
  attached \<open>OrderAccount\<close> is its bytes: \<open>order_attach\<close> checks the length that \<open>body()\<close> relies on.
  The lemmas give every slot after each write. The end of the theory states the fill
  invariant \<open>order_inv\<close> of an order body and the bound on what is ever withdrawn that follows
  from it.
\<close>

section \<open>Layout\<close>

definition ORDER_DISCRIMINATOR :: u8 where
  "ORDER_DISCRIMINATOR = account_discriminator OrderAccount"

definition ORDER_SIZE :: nat where
  "ORDER_SIZE = 264"

abbreviation WIDTH_DISCRIMINATOR :: nat where "WIDTH_DISCRIMINATOR \<equiv> 1"
abbreviation WIDTH_BUMP :: nat where "WIDTH_BUMP \<equiv> 1"
abbreviation WIDTH_CANCELLED :: nat where "WIDTH_CANCELLED \<equiv> 1"
abbreviation WIDTH_AMOUNT_WITHDRAWN :: nat where "WIDTH_AMOUNT_WITHDRAWN \<equiv> 8"
abbreviation WIDTH_AMOUNT_RECEIVED :: nat where "WIDTH_AMOUNT_RECEIVED \<equiv> 8"
abbreviation WIDTH_CREATED_BY :: nat where "WIDTH_CREATED_BY \<equiv> 32"
abbreviation WIDTH_INTENT :: nat where "WIDTH_INTENT \<equiv> 213"

abbreviation AT_BUMP :: nat where "AT_BUMP \<equiv> WIDTH_DISCRIMINATOR"
abbreviation AT_CANCELLED :: nat where "AT_CANCELLED \<equiv> WIDTH_DISCRIMINATOR + WIDTH_BUMP"
abbreviation AT_WITHDRAWN :: nat where "AT_WITHDRAWN \<equiv> WIDTH_DISCRIMINATOR + WIDTH_BUMP + WIDTH_CANCELLED"
abbreviation AT_RECEIVED :: nat where
  "AT_RECEIVED \<equiv> WIDTH_DISCRIMINATOR + WIDTH_BUMP + WIDTH_CANCELLED + WIDTH_AMOUNT_WITHDRAWN"
abbreviation AT_CREATED_BY :: nat where
  "AT_CREATED_BY \<equiv> WIDTH_DISCRIMINATOR + WIDTH_BUMP + WIDTH_CANCELLED + WIDTH_AMOUNT_WITHDRAWN
     + WIDTH_AMOUNT_RECEIVED"
abbreviation AT_INTENT :: nat where
  "AT_INTENT \<equiv> WIDTH_DISCRIMINATOR + WIDTH_BUMP + WIDTH_CANCELLED + WIDTH_AMOUNT_WITHDRAWN
     + WIDTH_AMOUNT_RECEIVED + WIDTH_CREATED_BY"

record OrderSlots =
  os_discriminator :: bytes
  os_bump :: bytes
  os_cancelled :: bytes
  os_amount_withdrawn :: bytes
  os_amount_received :: bytes
  os_created_by :: bytes32
  os_intent :: bytes

definition order_slots :: "bytes \<Rightarrow> OrderSlots" where
  "order_slots body =
    \<lparr>os_discriminator = slice 0 WIDTH_DISCRIMINATOR body,
     os_bump = slice AT_BUMP WIDTH_BUMP body,
     os_cancelled = slice AT_CANCELLED WIDTH_CANCELLED body,
     os_amount_withdrawn = slice AT_WITHDRAWN WIDTH_AMOUNT_WITHDRAWN body,
     os_amount_received = slice AT_RECEIVED WIDTH_AMOUNT_RECEIVED body,
     os_created_by = new_from_array (slice AT_CREATED_BY WIDTH_CREATED_BY body),
     os_intent = slice AT_INTENT WIDTH_INTENT body\<rparr>"

record FillAmounts =
  fa_withdrawn :: u64
  fa_received :: u64

section \<open>Reading\<close>

definition order_attach :: "bytes \<Rightarrow> bytes result" where
  "order_attach bs =
     bindE (ensure (length bs = ORDER_SIZE) InvalidAccountData) (\<lambda>_.
     if os_discriminator (order_slots bs) \<noteq> [ORDER_DISCRIMINATOR] then Inl InvalidAccountData
     else Inr bs)"

definition order_bump_slice :: "bytes \<Rightarrow> bytes" where
  "order_bump_slice order = os_bump (order_slots order)"

definition order_bump :: "bytes \<Rightarrow> u8" where
  "order_bump order = os_bump (order_slots order) ! 0"

definition order_cancelled :: "bytes \<Rightarrow> bool result" where
  "order_cancelled order =
     (let c = os_cancelled (order_slots order) in
      if c = [0] then Inr False else if c = [1] then Inr True else Inl InvalidAccountData)"

definition order_filled_amounts :: "bytes \<Rightarrow> FillAmounts" where
  "order_filled_amounts order =
    \<lparr>fa_withdrawn = from_le (os_amount_withdrawn (order_slots order)),
     fa_received = from_le (os_amount_received (order_slots order))\<rparr>"

definition order_created_by :: "bytes \<Rightarrow> pubkey" where
  "order_created_by order = os_created_by (order_slots order)"

definition order_intent_bytes :: "bytes \<Rightarrow> bytes" where
  "order_intent_bytes order = os_intent (order_slots order)"

definition order_intent_uid :: "platform \<Rightarrow> bytes \<Rightarrow> hash" where
  "order_intent_uid P order = hash_bytes P (order_intent_bytes order)"

definition order_check_pda :: "platform \<Rightarrow> bytes \<Rightarrow> pubkey \<Rightarrow> pubkey \<Rightarrow> unit result" where
  "order_check_pda P order address prog =
     (if \<not> is_pda_with_signer_seeds P address prog
           (order_pda_signer_seeds (order_intent_uid P order) (order_bump_slice order))
      then Inl (serr AccountNotDerivable) else Inr ())"

text \<open>
  \<open>load_from_pda\<close> and \<open>load_from_pda_mut\<close>: attach to the account's bytes and check that it lives at
  the address its own data derives.
\<close>

definition order_load_from_pda :: "platform \<Rightarrow> accounts \<Rightarrow> account_view \<Rightarrow> pubkey \<Rightarrow> bytes result" where
  "order_load_from_pda P accs order_pda prog =
     bindE (order_attach (acc_data (view_account accs order_pda))) (\<lambda>order.
     bindE (order_check_pda P order (av_address order_pda) prog) (\<lambda>_.
     Inr order))"

section \<open>Writing\<close>

definition order_initialize ::
  "bytes \<Rightarrow> u8 \<Rightarrow> bool \<Rightarrow> u64 \<Rightarrow> u64 \<Rightarrow> pubkey \<Rightarrow> bytes \<Rightarrow> bytes result" where
  "order_initialize bs bump cancelled amount_withdrawn amount_received created_by encoded_intent =
     bindE (ensure (length bs = ORDER_SIZE) AccountDataTooSmall) (\<lambda>_.
     Inr ([ORDER_DISCRIMINATOR] @ [bump] @ [if cancelled then 1 else 0] @
          to_le 8 amount_withdrawn @ to_le 8 amount_received @ to_bytes created_by @ encoded_intent))"

definition order_set_amounts :: "FillAmounts \<Rightarrow> bytes \<Rightarrow> bytes" where
  "order_set_amounts amounts order =
     splice AT_RECEIVED (to_le 8 (fa_received amounts))
       (splice AT_WITHDRAWN (to_le 8 (fa_withdrawn amounts)) order)"

definition order_set_cancelled :: "bytes \<Rightarrow> bytes" where
  "order_set_cancelled order = splice AT_CANCELLED [1] order"

section \<open>Intents of orders\<close>

definition ia_from_order :: "bytes \<Rightarrow> bytes result" where
  "ia_from_order order = map_err (\<lambda>_. InvalidAccountData) (ia_attach (order_intent_bytes order))"

definition fill_progress :: "bytes \<Rightarrow> FillAmounts \<Rightarrow> (u64 \<times> u64) result" where
  "fill_progress intent fill =
     bindE (ia_flags intent) (\<lambda>flags.
     case fl_kind flags of
       Sell \<Rightarrow> bindE (ia_sell_amount intent) (\<lambda>a. Inr (fa_withdrawn fill, a))
     | Buy \<Rightarrow> bindE (ia_buy_amount intent) (\<lambda>a. Inr (fa_received fill, a)))"

section \<open>Slots after each write\<close>

lemmas order_readers =
  order_bump_slice_def order_bump_def order_cancelled_def order_filled_amounts_def
  order_created_by_def order_intent_bytes_def

lemma order_attach_Inr_iff [result_simps]:
  "order_attach bs = Inr x \<longleftrightarrow>
    length bs = ORDER_SIZE \<and> slice 0 1 bs = [ORDER_DISCRIMINATOR] \<and> x = bs"
  by (auto simp: order_attach_def order_slots_def result_simps)

lemma ia_from_order_Inr_iff [result_simps]:
  "ia_from_order order = Inr x \<longleftrightarrow>
    check_bytes (order_intent_bytes order) = Inr () \<and> x = order_intent_bytes order"
  by (simp add: ia_from_order_def result_simps)

lemma order_check_pda_Inr_iff [result_simps]:
  "order_check_pda P order a prog = Inr u \<longleftrightarrow>
    pf_create_program_address P
      (order_pda_seeds (order_intent_uid P order) @ [order_bump_slice order]) prog = Some a"
  by (auto simp: order_check_pda_def is_pda_with_signer_seeds_def order_pda_signer_seeds_def
      split: option.splits)

lemma order_load_from_pda_Inr_iff [result_simps]:
  "order_load_from_pda P accs v prog = Inr order \<longleftrightarrow>
    order = acc_data (view_account accs v) \<and> order_attach order = Inr order \<and>
    order_check_pda P order (av_address v) prog = Inr ()"
  by (auto simp: order_load_from_pda_def result_simps)

lemma order_slots_set_amounts:
  assumes "length order = ORDER_SIZE"
  shows "order_slots (order_set_amounts f order) =
    (order_slots order)\<lparr>os_amount_withdrawn := to_le 8 (fa_withdrawn f),
       os_amount_received := to_le 8 (fa_received f)\<rparr>"
  using assms by (simp add: order_slots_def order_set_amounts_def ORDER_SIZE_def layout_simps)

lemma order_slots_set_cancelled:
  assumes "length order = ORDER_SIZE"
  shows "order_slots (order_set_cancelled order) = (order_slots order)\<lparr>os_cancelled := [1]\<rparr>"
  using assms by (simp add: order_slots_def order_set_cancelled_def ORDER_SIZE_def layout_simps)

lemma length_order_set_amounts [simp]:
  "length order = ORDER_SIZE \<Longrightarrow> length (order_set_amounts f order) = ORDER_SIZE"
  by (simp add: order_set_amounts_def ORDER_SIZE_def layout_simps)

lemma length_order_set_cancelled [simp]:
  "length order = ORDER_SIZE \<Longrightarrow> length (order_set_cancelled order) = ORDER_SIZE"
  by (simp add: order_set_cancelled_def ORDER_SIZE_def layout_simps)

lemma order_set_amounts_reads:
  assumes "length order = ORDER_SIZE"
  shows "order_filled_amounts (order_set_amounts f order) = f"
    and "order_cancelled (order_set_amounts f order) = order_cancelled order"
    and "order_created_by (order_set_amounts f order) = order_created_by order"
    and "order_intent_bytes (order_set_amounts f order) = order_intent_bytes order"
    and "order_bump (order_set_amounts f order) = order_bump order"
    and "order_bump_slice (order_set_amounts f order) = order_bump_slice order"
    and "slice 0 1 (order_set_amounts f order) = slice 0 1 order"
proof -
  note slots = order_slots_set_amounts [OF assms]
  show "order_filled_amounts (order_set_amounts f order) = f"
    by (cases f) (simp add: order_filled_amounts_def slots)
  show "slice 0 1 (order_set_amounts f order) = slice 0 1 order"
    using arg_cong [OF slots [of f], of os_discriminator] by (simp add: order_slots_def)
qed (simp_all add: order_readers order_slots_set_amounts [OF assms])

lemma order_set_cancelled_reads:
  assumes "length order = ORDER_SIZE"
  shows "order_filled_amounts (order_set_cancelled order) = order_filled_amounts order"
    and "order_cancelled (order_set_cancelled order) = Inr True"
    and "order_created_by (order_set_cancelled order) = order_created_by order"
    and "order_intent_bytes (order_set_cancelled order) = order_intent_bytes order"
    and "order_bump (order_set_cancelled order) = order_bump order"
    and "order_bump_slice (order_set_cancelled order) = order_bump_slice order"
    and "slice 0 1 (order_set_cancelled order) = slice 0 1 order"
proof -
  show "slice 0 1 (order_set_cancelled order) = slice 0 1 order"
    using arg_cong [OF order_slots_set_cancelled [OF assms], of os_discriminator]
    by (simp add: order_slots_def)
qed (simp_all add: order_readers order_slots_set_cancelled [OF assms])

lemma order_initialize_reads:
  assumes init: "order_initialize bs bump c w r by_key intent = Inr order"
    and len: "length intent = INTENT_SIZE"
  shows "length order = ORDER_SIZE" and "order_attach order = Inr order"
    and "order_bump order = bump" and "order_bump_slice order = [bump]"
    and "order_cancelled order = Inr c"
    and "order_filled_amounts order = \<lparr>fa_withdrawn = w, fa_received = r\<rparr>"
    and "order_created_by order = by_key" and "order_intent_bytes order = intent"
proof -
  have order: "order = [ORDER_DISCRIMINATOR] @ [bump] @ [if c then 1 else 0] @
      to_le 8 w @ to_le 8 r @ to_bytes by_key @ intent"
    using init by (auto simp: order_initialize_def result_simps)
  have slots: "order_slots order =
     \<lparr>os_discriminator = [ORDER_DISCRIMINATOR], os_bump = [bump],
      os_cancelled = [if c then 1 else 0], os_amount_withdrawn = to_le 8 w,
      os_amount_received = to_le 8 r, os_created_by = by_key, os_intent = intent\<rparr>"
    unfolding order order_slots_def using len
    by (simp only: layout_simps length_append length_to_le length_to_bytes list.size INTENT_SIZE_def)
      (simp add: layout_simps slice_def)
  show size: "length order = ORDER_SIZE"
    using len by (simp add: order ORDER_SIZE_def INTENT_SIZE_def)
  show "order_attach order = Inr order"
    using size by (simp add: order_attach_def slots)
  show "order_bump order = bump" "order_bump_slice order = [bump]" "order_cancelled order = Inr c"
    "order_filled_amounts order = \<lparr>fa_withdrawn = w, fa_received = r\<rparr>"
    "order_created_by order = by_key" "order_intent_bytes order = intent"
    by (simp_all add: order_readers slots)
qed

lemma length_order_intent_bytes [simp]:
  "length order = ORDER_SIZE \<Longrightarrow> length (order_intent_bytes order) = INTENT_SIZE"
  by (simp add: order_intent_bytes_def order_slots_def layout_simps ORDER_SIZE_def INTENT_SIZE_def)

section \<open>The fill invariant\<close>

text \<open>
  What the two counters of an order promise: the average price so far is at least the limit
  price, and the side the order's kind fixes has not been exceeded.
\<close>

definition fill_ok :: "bytes \<Rightarrow> FillAmounts \<Rightarrow> bool" where
  "fill_ok intent fill =
     (case (ia_sell_amount intent, ia_buy_amount intent, ia_flags intent) of
        (Inr sell, Inr buy, Inr flags) \<Rightarrow>
          unat (fa_withdrawn fill) * unat buy \<le> unat (fa_received fill) * unat sell \<and>
          (case fl_kind flags of Sell \<Rightarrow> fa_withdrawn fill \<le> sell | Buy \<Rightarrow> fa_received fill \<le> buy)
      | _ \<Rightarrow> False)"

definition order_inv :: "bytes \<Rightarrow> bool" where
  "order_inv d \<longleftrightarrow>
     (order_attach d = Inr d \<longrightarrow>
        fill_ok (order_intent_bytes d) (order_filled_amounts d) \<and>
        order_cancelled d \<in> {Inr False, Inr True})"

lemma fill_ok_iff:
  "ia_sell_amount intent = Inr sell \<Longrightarrow> ia_buy_amount intent = Inr buy \<Longrightarrow> ia_flags intent = Inr flags \<Longrightarrow>
    fill_ok intent fill \<longleftrightarrow>
      unat (fa_withdrawn fill) * unat buy \<le> unat (fa_received fill) * unat sell \<and>
      (case fl_kind flags of Sell \<Rightarrow> fa_withdrawn fill \<le> sell | Buy \<Rightarrow> fa_received fill \<le> buy)"
  by (simp add: fill_ok_def)

lemma fill_ok_checked: "fill_ok intent fill \<Longrightarrow> check_bytes intent = Inr ()"
  by (auto simp: fill_ok_def check_bytes_Inr_iff ia_sell_amount_def ia_buy_amount_def ia_flags_def
      nonzero_new_def map_err_def split: sum.splits if_splits)

lemma fill_ok_zero:
  "check_bytes intent = Inr () \<Longrightarrow> fill_ok intent \<lparr>fa_withdrawn = 0, fa_received = 0\<rparr>"
  by (erule accessor_total) (simp add: fill_ok_iff split: OrderKind.splits)

text \<open>Whatever the kind, no more than the sell amount is ever withdrawn.\<close>

lemma fill_ok_withdrawn_le:
  assumes ok: "fill_ok intent fill" and sell: "ia_sell_amount intent = Inr sell"
  shows "fa_withdrawn fill \<le> sell"
proof -
  obtain buy flags where
    acc: "ia_buy_amount intent = Inr buy" "ia_flags intent = Inr flags" "buy \<noteq> 0"
    using fill_ok_checked [OF ok] by (rule accessor_total)
  note iff = fill_ok_iff [OF sell acc(1,2)]
  show ?thesis
  proof (cases "fl_kind flags")
    case Sell
    then show ?thesis using ok iff by simp
  next
    case Buy
    with ok iff have price: "unat (fa_withdrawn fill) * unat buy \<le> unat (fa_received fill) * unat sell"
      and le: "unat (fa_received fill) \<le> unat buy"
      by (simp_all add: word_le_nat_alt)
    note price
    also have "unat (fa_received fill) * unat sell \<le> unat buy * unat sell"
      using le by (rule mult_le_mono1)
    finally have "unat (fa_withdrawn fill) * unat buy \<le> unat sell * unat buy"
      by (simp only: mult.commute)
    moreover have "0 < unat buy"
      using acc(3) by (simp add: unat_gt_0)
    ultimately show ?thesis by (simp add: word_le_nat_alt)
  qed
qed

lemma order_inv_zeroed: "zeroed d \<Longrightarrow> order_inv d"
proof -
  assume z: "zeroed d"
  have "order_attach d \<noteq> Inr d"
  proof
    assume "order_attach d = Inr d"
    then have "slice 0 1 d = [ORDER_DISCRIMINATOR]" by (simp add: result_simps)
    then have "ORDER_DISCRIMINATOR \<in> set d"
      by (metis drop_0 list.set_intros(1) set_take_subset slice_def subsetD)
    with z show False by (auto simp: zeroed_def ORDER_DISCRIMINATOR_def)
  qed
  then show ?thesis by (simp add: order_inv_def)
qed

lemma order_inv_initialize:
  assumes "order_initialize bs bump False 0 0 by_key intent = Inr order"
    and "length intent = INTENT_SIZE" and "check_bytes intent = Inr ()"
  shows "order_inv order"
  using order_initialize_reads [OF assms(1,2)] fill_ok_zero [OF assms(3)]
  by (simp add: order_inv_def)

lemma order_inv_set_cancelled:
  assumes "order_attach d = Inr d" and "order_inv d"
  shows "order_inv (order_set_cancelled d)"
  using assms order_set_cancelled_reads [of d] by (auto simp: order_inv_def result_simps)

end
