(* ===== verification/StateData.thy ===== *)
theory StateData
  imports OrderData
begin

text \<open>
  The settlement state account (\<open>interface/src/data/state.rs\<close>): a 129-byte header with the
  holder of each role, then the solver list, packed and sorted by address. As for orders, an
  attached \<open>StateAccount\<close> is its bytes. \<open>binary_search\<close> is the loop of the standard library's
  \<open>slice::binary_search\<close>. The lemmas show that on a sorted list it finds exactly the members
  and the insertion point, that the in-place byte moves of \<open>insert_solver\<close> and \<open>remove_solver\<close>
  refine insertion into and removal from a finite set, and that nothing else changes. The
  contract is the locale \<open>solver_set\<close>, interpreted at the end on the account bytes.
\<close>

section \<open>Binary search of the standard library\<close>

fun binary_search_loop :: "'a::linorder list \<Rightarrow> 'a \<Rightarrow> nat \<Rightarrow> nat \<Rightarrow> nat" where
  "binary_search_loop xs x sz base =
     (if 1 < sz then
        let half = sz div 2; mid = base + half
        in binary_search_loop xs x (sz - half) (if x < xs ! mid then base else mid)
      else base)"

declare binary_search_loop.simps [simp del]

text \<open>\<open>Ok(index)\<close> is \<open>Inr\<close>, \<open>Err(index)\<close> the insertion point.\<close>

definition binary_search :: "'a::linorder list \<Rightarrow> 'a \<Rightarrow> nat + nat" where
  "binary_search xs x =
     (if length xs = 0 then Inl 0
      else let base = binary_search_loop xs x (length xs) 0
           in if xs ! base = x then Inr base
              else Inl (base + (if xs ! base < x then 1 else 0)))"

section \<open>Layout\<close>

definition STATE_DISCRIMINATOR :: u8 where
  "STATE_DISCRIMINATOR = account_discriminator SettlementState"

abbreviation WIDTH_PUBKEY :: nat where "WIDTH_PUBKEY \<equiv> 32"

definition WIDTH_HEADER :: nat where
  "WIDTH_HEADER = WIDTH_DISCRIMINATOR + 4 * WIDTH_PUBKEY"

record HeaderSlots =
  hs_discriminator :: bytes
  hs_manager :: bytes
  hs_solver_authority :: bytes
  hs_reclaim_authority :: bytes
  hs_settlement_owned_order_authority :: bytes

definition header_slots :: "bytes \<Rightarrow> HeaderSlots" where
  "header_slots header =
    \<lparr>hs_discriminator = slice 0 WIDTH_DISCRIMINATOR header,
     hs_manager = slice WIDTH_DISCRIMINATOR WIDTH_PUBKEY header,
     hs_solver_authority = slice (WIDTH_DISCRIMINATOR + WIDTH_PUBKEY) WIDTH_PUBKEY header,
     hs_reclaim_authority = slice (WIDTH_DISCRIMINATOR + 2 * WIDTH_PUBKEY) WIDTH_PUBKEY header,
     hs_settlement_owned_order_authority =
       slice (WIDTH_DISCRIMINATOR + 3 * WIDTH_PUBKEY) WIDTH_PUBKEY header\<rparr>"

record StateInitArgs =
  sia_manager :: pubkey
  sia_solver_authority :: pubkey
  sia_reclaim_authority :: pubkey
  sia_settlement_owned_order_authority :: pubkey

section \<open>Reading\<close>

definition state_attach :: "bytes \<Rightarrow> bytes result" where
  "state_attach bs =
     bindE (ensure (WIDTH_HEADER \<le> length bs) InvalidAccountData) (\<lambda>_.
     if hs_discriminator (header_slots (take WIDTH_HEADER bs)) \<noteq> [STATE_DISCRIMINATOR]
     then Inl InvalidAccountData else Inr bs)"

definition state_authority :: "bytes \<Rightarrow> Role \<Rightarrow> pubkey" where
  "state_authority d role =
     (let slots = header_slots (take WIDTH_HEADER d) in
      new_from_array
        (case role of
           Manager \<Rightarrow> hs_manager slots
         | SolverAuthority \<Rightarrow> hs_solver_authority slots
         | ReclaimAuthority \<Rightarrow> hs_reclaim_authority slots
         | SettlementOwnedOrderAuthority \<Rightarrow> hs_settlement_owned_order_authority slots))"

definition solver_region :: "bytes \<Rightarrow> bytes32 list" where
  "solver_region d = map new_from_array (fst (as_chunks WIDTH_PUBKEY (drop WIDTH_HEADER d)))"

definition solver_search :: "bytes \<Rightarrow> pubkey \<Rightarrow> nat + nat" where
  "solver_search d solver = binary_search (solver_region d) solver"

definition is_solver :: "bytes \<Rightarrow> pubkey \<Rightarrow> bool" where
  "is_solver d solver = (case solver_search d solver of Inr _ \<Rightarrow> True | Inl _ \<Rightarrow> False)"

definition state_solvers :: "bytes \<Rightarrow> pubkey list" where
  "state_solvers d = solver_region d"

definition grown_len :: "bytes \<Rightarrow> nat result" where
  "grown_len d = ok_or (usize_checked_add (length d) WIDTH_PUBKEY) ArithmeticOverflow"

definition state_from_account :: "account \<Rightarrow> bytes result" where
  "state_from_account a = state_attach (acc_data a)"

section \<open>Writing\<close>

definition state_initialize :: "bytes \<Rightarrow> StateInitArgs \<Rightarrow> bytes result" where
  "state_initialize bs args =
     bindE (ensure (WIDTH_HEADER \<le> length bs) AccountDataTooSmall) (\<lambda>_.
     Inr (splice 0
       ([STATE_DISCRIMINATOR] @ to_bytes (sia_manager args) @ to_bytes (sia_solver_authority args) @
        to_bytes (sia_reclaim_authority args) @
        to_bytes (sia_settlement_owned_order_authority args)) bs))"

fun role_slot :: "Role \<Rightarrow> nat" where
  "role_slot Manager = WIDTH_DISCRIMINATOR"
| "role_slot SolverAuthority = WIDTH_DISCRIMINATOR + WIDTH_PUBKEY"
| "role_slot ReclaimAuthority = WIDTH_DISCRIMINATOR + 2 * WIDTH_PUBKEY"
| "role_slot SettlementOwnedOrderAuthority = WIDTH_DISCRIMINATOR + 3 * WIDTH_PUBKEY"

definition state_set_authority :: "Role \<Rightarrow> pubkey \<Rightarrow> bytes \<Rightarrow> bytes" where
  "state_set_authority role new d = splice (role_slot role) (to_bytes new) d"

definition insert_solver :: "pubkey \<Rightarrow> bytes \<Rightarrow> bytes result" where
  "insert_solver solver d =
     bindE (ensure (solver_region d \<noteq> []) Panic) (\<lambda>_.
     let occupied = butlast (solver_region d) in
     case binary_search occupied solver of
       Inr _ \<Rightarrow> Inl (serr SolverAlreadyExists)
     | Inl index \<Rightarrow>
         bindE (ok_or (usize_checked_sub (length d) WIDTH_PUBKEY) Panic) (\<lambda>occupied_end.
         bindE (ok_or (usize_checked_mul index WIDTH_PUBKEY) Panic) (\<lambda>entries.
         bindE (ok_or (usize_checked_add WIDTH_HEADER entries) Panic) (\<lambda>gap.
         bindE (ok_or (usize_checked_add gap WIDTH_PUBKEY) Panic) (\<lambda>gap_end.
         bindE (ok_or (copy_within gap occupied_end gap_end d) Panic) (\<lambda>data.
         bindE (ensure (gap_end \<le> length data) Panic) (\<lambda>_.
         Inr (splice gap (to_bytes solver) data))))))))"

text \<open>The shifted bytes, and the length the account is to be cut to.\<close>

definition remove_solver :: "pubkey \<Rightarrow> bytes \<Rightarrow> (bytes \<times> nat) result" where
  "remove_solver solver d =
     (case binary_search (solver_region d) solver of
        Inl _ \<Rightarrow> Inl (serr SolverNotFound)
      | Inr index \<Rightarrow>
          bindE (ok_or (usize_checked_mul index WIDTH_PUBKEY) Panic) (\<lambda>entries.
          bindE (ok_or (usize_checked_add WIDTH_HEADER entries) Panic) (\<lambda>offset.
          bindE (ok_or (usize_checked_add offset WIDTH_PUBKEY) Panic) (\<lambda>slot_end.
          bindE (ok_or (copy_within slot_end (length d) offset d) Panic) (\<lambda>data.
          bindE (ok_or (usize_checked_sub (length d) WIDTH_PUBKEY) Panic) (\<lambda>updated_length.
          Inr (data, updated_length)))))))"

section \<open>Binary search is correct\<close>

lemma binary_search_loop_bounds:
  assumes "sorted xs" and "0 < sz" and "base + sz \<le> length xs"
    and "base = 0 \<or> xs ! base \<le> x" and "\<forall>i. base + sz \<le> i \<longrightarrow> i < length xs \<longrightarrow> x < xs ! i"
  shows "binary_search_loop xs x sz base < length xs \<and>
    (binary_search_loop xs x sz base = 0 \<or> xs ! binary_search_loop xs x sz base \<le> x) \<and>
    (\<forall>i. binary_search_loop xs x sz base < i \<longrightarrow> i < length xs \<longrightarrow> x < xs ! i)"
  using assms
proof (induction xs x sz base rule: binary_search_loop.induct)
  case (1 xs x sz base)
  let ?half = "sz div 2" and ?mid = "base + sz div 2"
  let ?base = "if x < xs ! ?mid then base else ?mid"
  show ?case
  proof (cases "1 < sz")
    case False
    with "1.prems" have one: "sz = 1" by simp
    have eq: "binary_search_loop xs x sz base = base"
      using False by (subst binary_search_loop.simps) simp
    have "\<forall>i. base < i \<longrightarrow> i < length xs \<longrightarrow> x < xs ! i"
      using "1.prems"(5) one by (simp add: Suc_le_eq)
    with "1.prems"(3,4) one show ?thesis unfolding eq by simp
  next
    case True
    then have half: "0 < ?half" "?half < sz" by auto
    have above: "\<forall>i. ?base + (sz - ?half) \<le> i \<longrightarrow> i < length xs \<longrightarrow> x < xs ! i"
    proof (intro allI impI)
      fix i assume i: "?base + (sz - ?half) \<le> i" "i < length xs"
      show "x < xs ! i"
      proof (cases "x < xs ! ?mid")
        case True
        have "?mid \<le> i" using i True by simp
        then have "xs ! ?mid \<le> xs ! i" using "1.prems"(1) i(2) by (simp add: sorted_nth_mono)
        with True show ?thesis by simp
      next
        case False
        with i half have "base + sz \<le> i" by simp
        with i "1.prems"(5) show ?thesis by blast
      qed
    qed
    have eq: "binary_search_loop xs x sz base = binary_search_loop xs x (sz - ?half) ?base"
      using True by (subst binary_search_loop.simps) (simp only: Let_def if_True)
    show ?thesis
      unfolding eq
    proof (rule "1.IH" [OF True refl refl "1.prems"(1)])
      show "0 < sz - ?half" using half by simp
      show "?base + (sz - ?half) \<le> length xs" using "1.prems"(3) half by auto
      show "?base = 0 \<or> xs ! ?base \<le> x" using "1.prems"(4) by auto
    qed (rule above)
  qed
qed

lemma binary_search_Inr:
  assumes "sorted xs" and "binary_search xs x = Inr i"
  shows "i < length xs \<and> xs ! i = x"
proof -
  define b where "b = binary_search_loop xs x (length xs) 0"
  have i: "xs \<noteq> []" "i = b" "xs ! i = x"
    using assms(2) unfolding binary_search_def b_def [symmetric] Let_def by (auto split: if_splits)
  have "b < length xs"
    unfolding b_def using i(1) assms(1)
    by (intro binary_search_loop_bounds [THEN conjunct1]) simp_all
  with i show ?thesis by blast
qed

lemma binary_search_Inl_nth:
  assumes sorted: "sorted xs" and search: "binary_search xs x = Inl i"
  shows "i \<le> length xs \<and> (\<forall>j < i. xs ! j < x) \<and> (\<forall>j. i \<le> j \<longrightarrow> j < length xs \<longrightarrow> x < xs ! j)"
proof (cases "xs = []")
  case True
  with search show ?thesis by (simp add: binary_search_def)
next
  case False
  define b where "b = binary_search_loop xs x (length xs) 0"
  have "b < length xs \<and> (b = 0 \<or> xs ! b \<le> x) \<and> (\<forall>j. b < j \<longrightarrow> j < length xs \<longrightarrow> x < xs ! j)"
    unfolding b_def using sorted False by (intro binary_search_loop_bounds) simp_all
  then have b: "b < length xs" "b = 0 \<or> xs ! b \<le> x" "\<And>j. b < j \<Longrightarrow> j < length xs \<Longrightarrow> x < xs ! j"
    by blast+
  have i: "xs ! b \<noteq> x" "i = b + (if xs ! b < x then 1 else 0)"
    using search False unfolding binary_search_def b_def [symmetric] Let_def by (auto split: if_splits)
  show ?thesis
  proof (cases "xs ! b < x")
    case True
    have "xs ! j < x" if "j < i" for j
    proof -
      have "j \<le> b" using that True i by simp
      then have "xs ! j \<le> xs ! b" using b(1) sorted by (simp add: sorted_nth_mono)
      with True show ?thesis by simp
    qed
    moreover have "i = Suc b" using i True by simp
    ultimately show ?thesis using b(1,3) by (simp add: Suc_le_eq)
  next
    case False
    with i(1) have gt: "x < xs ! b" by (simp only: not_less le_less) blast
    with b(2) have b0: "b = 0" by (metis not_less)
    have "x < xs ! j" if "j < length xs" for j
      using b(3) [OF _ that] gt b0 by (cases "j = 0") simp_all
    moreover have "i = 0" using i(2) False b0 by simp
    ultimately show ?thesis by simp
  qed
qed

lemma binary_search_Inl:
  assumes "sorted xs" and "binary_search xs x = Inl i"
  shows "i \<le> length xs" and "\<forall>y \<in> set (take i xs). y < x" and "\<forall>y \<in> set (drop i xs). x < y"
  using binary_search_Inl_nth [OF assms] by (auto simp: set_conv_nth)

lemma binary_search_mem_iff:
  assumes sorted: "sorted xs"
  shows "(\<exists>i. binary_search xs x = Inr i) \<longleftrightarrow> x \<in> set xs"
proof (cases "binary_search xs x")
  case (Inl i)
  have "set xs = set (take i xs) \<union> set (drop i xs)"
    by (metis append_take_drop_id set_append)
  then have "x \<notin> set xs"
    using binary_search_Inl(2,3) [OF sorted Inl] by auto
  with Inl show ?thesis by simp
next
  case (Inr i)
  with sorted binary_search_Inr [of xs x i] show ?thesis by auto
qed

section \<open>The solver list\<close>

text \<open>
  A well-formed state account: an attached header followed by whole entries, strictly sorted.
\<close>

definition state_wf :: "bytes \<Rightarrow> bool" where
  "state_wf d \<longleftrightarrow> state_attach d = Inr d \<and> (length d - WIDTH_HEADER) mod WIDTH_PUBKEY = 0 \<and>
     sorted_wrt (<) (solver_region d)"

lemma state_attach_Inr_iff [result_simps]:
  "state_attach d = Inr x \<longleftrightarrow> WIDTH_HEADER \<le> length d \<and> slice 0 1 d = [STATE_DISCRIMINATOR] \<and> x = d"
  by (auto simp: state_attach_def result_simps header_slots_def slice_def WIDTH_HEADER_def min_def)

lemma solver_region_append [simp]:
  "length h = WIDTH_HEADER \<Longrightarrow> solver_region (h @ concat (map to_bytes xs)) = xs"
  using pubkey_codec.chunks_enc [of xs] by (simp add: solver_region_def comp_def)

lemma solver_region_append_spare:
  "length h = WIDTH_HEADER \<Longrightarrow> length spare = 32 \<Longrightarrow>
    solver_region (h @ concat (map to_bytes xs) @ spare) = xs @ [new_from_array spare]"
  using solver_region_append [of h "xs @ [new_from_array spare]"] by simp

lemma state_decompose:
  assumes "WIDTH_HEADER \<le> length d" and "(length d - WIDTH_HEADER) mod WIDTH_PUBKEY = 0"
  shows "d = take WIDTH_HEADER d @ concat (map to_bytes (solver_region d))"
proof -
  obtain cs r where c: "as_chunks 32 (drop WIDTH_HEADER d) = (cs, r)" by fastforce
  then have parts: "drop WIDTH_HEADER d = concat cs @ r" "\<forall>c \<in> set cs. length c = 32" "length r < 32"
    using as_chunks_inverse [OF _ c] by simp_all
  have "length d - WIDTH_HEADER = 32 * length cs + length r"
    using arg_cong [OF parts(1), of length] length_concat_chunks [OF parts(2)] by simp
  with assms(2) parts(3) have "r = []" by simp
  moreover have "map to_bytes (map new_from_array cs) = cs"
    using parts(2) by (induction cs) auto
  ultimately show ?thesis
    using parts(1) c append_take_drop_id [of WIDTH_HEADER d] by (simp add: solver_region_def)
qed

text \<open>The bytes a well-formed account is made of.\<close>

lemma state_wfE:
  assumes "state_wf d"
  obtains h where "d = h @ concat (map to_bytes (solver_region d))" "length h = WIDTH_HEADER"
    "slice 0 1 h = [STATE_DISCRIMINATOR]" "sorted_wrt (<) (solver_region d)" "h = take WIDTH_HEADER d"
proof
  show "d = take WIDTH_HEADER d @ concat (map to_bytes (solver_region d))"
    using assms state_decompose by (simp add: state_wf_def result_simps)
  show "slice 0 1 (take WIDTH_HEADER d) = [STATE_DISCRIMINATOR]"
    using assms by (simp add: state_wf_def result_simps slice_def WIDTH_HEADER_def min_def)
qed (use assms in \<open>simp_all add: state_wf_def result_simps\<close>)

lemma state_wfI:
  assumes "length h = WIDTH_HEADER" and "slice 0 1 h = [STATE_DISCRIMINATOR]" and "sorted_wrt (<) xs"
  shows "state_wf (h @ concat (map to_bytes xs))"
proof -
  have "length (concat (map to_bytes xs)) = 32 * length xs" by (rule pubkey_codec.length_concat_enc)
  with assms show ?thesis
    by (simp add: state_wf_def result_simps slice_def WIDTH_HEADER_def)
qed

lemma is_solver_iff: "state_wf d \<Longrightarrow> is_solver d s \<longleftrightarrow> s \<in> set (state_solvers d)"
  using binary_search_mem_iff [of "solver_region d" s] strict_sorted_imp_sorted
  by (auto simp: is_solver_def solver_search_def state_solvers_def state_wf_def split: sum.splits)

section \<open>Insertion and removal\<close>

lemma sorted_wrt_insert_at:
  assumes "sorted_wrt (<) xs" and "binary_search xs x = Inl (i :: nat)"
  shows "sorted_wrt (<) (take i xs @ x # drop i xs)"
    and "set (take i xs @ x # drop i xs) = insert x (set xs)"
    and "x \<notin> set xs"
proof -
  have sorted: "sorted xs" using assms(1) by (rule strict_sorted_imp_sorted)
  note below = binary_search_Inl(2) [OF sorted assms(2)] and above = binary_search_Inl(3) [OF sorted assms(2)]
  have split: "sorted_wrt (<) (take i xs @ drop i xs)" using assms(1) by simp
  then show "sorted_wrt (<) (take i xs @ x # drop i xs)"
    using below above by (simp only: sorted_wrt_append sorted_wrt.simps) fastforce
  have "set (take i xs) \<union> set (drop i xs) = set xs"
    by (metis append_take_drop_id set_append)
  then show "set (take i xs @ x # drop i xs) = insert x (set xs)" by auto
  show "x \<notin> set xs"
    using binary_search_mem_iff [OF sorted, of x] assms(2) by auto
qed

lemma sorted_wrt_remove_at:
  fixes xs :: "'a::linorder list"
  assumes "sorted_wrt (<) xs" and "i < length xs"
  shows "sorted_wrt (<) (take i xs @ drop (Suc i) xs)"
    and "set (take i xs @ drop (Suc i) xs) = set xs - {xs ! i}"
proof -
  have xs: "xs = take i xs @ xs ! i # drop (Suc i) xs"
    using assms(2) by (rule id_take_nth_drop)
  then have "sorted_wrt (<) (take i xs @ xs ! i # drop (Suc i) xs)" using assms(1) by simp
  then have parts: "sorted_wrt (<) (take i xs)" "sorted_wrt (<) (drop (Suc i) xs)"
    "\<forall>a \<in> set (take i xs). a < xs ! i" "\<forall>b \<in> set (drop (Suc i) xs). xs ! i < b"
    by (simp_all only: sorted_wrt_append sorted_wrt.simps) auto
  then show "sorted_wrt (<) (take i xs @ drop (Suc i) xs)"
    by (simp only: sorted_wrt_append) fastforce
  have "set xs = set (take i xs) \<union> {xs ! i} \<union> set (drop (Suc i) xs)"
    by (subst xs) auto
  with parts(3,4) show "set (take i xs @ drop (Suc i) xs) = set xs - {xs ! i}"
    by auto
qed

lemma copy_up_write:
  assumes "gap + length ws \<le> length d"
  shows "copy_within gap (length d - length ws) (gap + length ws) d =
      Some (splice (gap + length ws) (slice gap (length d - length ws - gap) d) d)"
    and "splice gap ws (splice (gap + length ws) (slice gap (length d - length ws - gap) d) d) =
      take gap d @ ws @ take (length d - length ws - gap) (drop gap d)"
  using assms by (simp_all add: copy_within_def splice_def slice_def)

lemma copy_down_cut:
  assumes "offset + n \<le> length d"
  shows "copy_within (offset + n) (length d) offset d =
      Some (splice offset (drop (offset + n) d) d)"
    and "take (length d - n) (splice offset (drop (offset + n) d) d) =
      take offset d @ drop (offset + n) d"
  using assms by (simp_all add: copy_within_def splice_def slice_def)

text \<open>
  What the handlers make of the two: \<open>AddSolver\<close> grows the account by one zeroed slot before
  inserting, \<open>RemoveSolver\<close> cuts it to the returned length.
\<close>

definition grow_and_insert :: "pubkey \<Rightarrow> bytes \<Rightarrow> bytes result" where
  "grow_and_insert solver d =
     bindE (grown_len d) (\<lambda>n. insert_solver solver (d @ replicate (n - length d) 0))"

definition remove_and_cut :: "pubkey \<Rightarrow> bytes \<Rightarrow> bytes result" where
  "remove_and_cut solver d = bindE (remove_solver solver d) (\<lambda>(data, n). Inr (take n data))"

text \<open>The byte moves, for an account of any shape with room for the entry.\<close>

lemma insert_solver_moves:
  assumes region: "solver_region d = occupied @ [spare]" and search: "binary_search occupied s = Inl i"
    and fits: "WIDTH_HEADER + 32 * i + 32 \<le> length d" and bound: "length d < 2 ^ 64"
  shows "insert_solver s d =
    Inr (take (WIDTH_HEADER + 32 * i) d @ to_bytes s @
      take (length d - 32 - (WIDTH_HEADER + 32 * i)) (drop (WIDTH_HEADER + 32 * i) d))"
proof -
  let ?gap = "WIDTH_HEADER + 32 * i"
  let ?moved = "splice (?gap + 32) (slice ?gap (length d - 32 - ?gap) d) d"
  have moves: "copy_within ?gap (length d - 32) (?gap + 32) d = Some ?moved"
    "splice ?gap (to_bytes s) ?moved =
      take ?gap d @ to_bytes s @ take (length d - 32 - ?gap) (drop ?gap d)"
    using copy_up_write [of ?gap "to_bytes s" d] fits by simp_all
  have len: "length ?moved = length d"
    using fits by (simp add: splice_def slice_def)
  have checks: "usize_checked_sub (length d) 32 = Some (length d - 32)"
    "usize_checked_mul i 32 = Some (32 * i)"
    "usize_checked_add WIDTH_HEADER (32 * i) = Some ?gap" "usize_checked_add ?gap 32 = Some (?gap + 32)"
    using fits bound by (simp_all add: usize_checked_add_def usize_checked_sub_def usize_checked_mul_def)
  show ?thesis
    unfolding insert_solver_def
    by (simp only: region search checks moves len fits butlast_snoc Let_def sum.case bindE_simps
        ensure_simps ok_or_simps append_is_Nil_conv list.distinct simp_thms)
qed

lemma remove_solver_moves:
  assumes search: "binary_search (solver_region d) s = Inr i"
    and fits: "WIDTH_HEADER + 32 * i + 32 \<le> length d" and bound: "length d < 2 ^ 64"
  shows "remove_and_cut s d =
    Inr (take (WIDTH_HEADER + 32 * i) d @ drop (WIDTH_HEADER + 32 * i + 32) d)"
proof -
  let ?off = "WIDTH_HEADER + 32 * i"
  have checks: "usize_checked_sub (length d) 32 = Some (length d - 32)"
    "usize_checked_mul i 32 = Some (32 * i)"
    "usize_checked_add WIDTH_HEADER (32 * i) = Some ?off" "usize_checked_add ?off 32 = Some (?off + 32)"
    using fits bound by (simp_all add: usize_checked_add_def usize_checked_sub_def usize_checked_mul_def)
  show ?thesis
    unfolding remove_solver_def remove_and_cut_def
    by (simp only: search checks copy_down_cut [OF fits] sum.case bindE_simps ok_or_simps prod.case)
qed

text \<open>On a list of entries they are insertion and deletion at an index.\<close>

lemma take_entries:
  assumes "length h = WIDTH_HEADER" and "i \<le> length xs"
  shows "take (WIDTH_HEADER + 32 * i) (h @ concat (map to_bytes xs) @ r) =
    h @ concat (map to_bytes (take i xs))"
proof -
  have "take (32 * i) (concat (map to_bytes xs)) = concat (map to_bytes (take i xs))"
    by (simp add: take_concat_chunks take_map)
  then show ?thesis using assms by (simp add: pubkey_codec.length_concat_enc)
qed

lemma drop_entries:
  assumes "length h = WIDTH_HEADER" and "i \<le> length xs"
  shows "drop (WIDTH_HEADER + 32 * i) (h @ concat (map to_bytes xs) @ r) =
    concat (map to_bytes (drop i xs)) @ r"
proof -
  have "drop (32 * i) (concat (map to_bytes xs)) = concat (map to_bytes (drop i xs))"
    by (simp add: drop_concat_chunks drop_map)
  then show ?thesis using assms by (simp add: pubkey_codec.length_concat_enc)
qed

lemma grow_and_insert_entries:
  assumes h: "length h = WIDTH_HEADER" and strict: "sorted_wrt (<) xs"
    and d: "d = h @ concat (map to_bytes xs)" and bound: "length d + 32 < 2 ^ 64"
  shows "grow_and_insert s d =
    (case binary_search xs s of
       Inr _ \<Rightarrow> Inl (serr SolverAlreadyExists)
     | Inl i \<Rightarrow> Inr (h @ concat (map to_bytes (take i xs @ s # drop i xs))))"
proof -
  let ?g = "h @ concat (map to_bytes xs) @ replicate 32 0"
  have region: "solver_region ?g = xs @ [new_from_array (replicate 32 0)]"
    using h by (intro solver_region_append_spare) simp_all
  have len: "length d = WIDTH_HEADER + 32 * length xs"
    using h by (simp add: d pubkey_codec.length_concat_enc)
  have grown: "grow_and_insert s d = insert_solver s ?g"
    using bound by (simp add: grow_and_insert_def grown_len_def usize_checked_add_def d)
  show ?thesis
  proof (cases "binary_search xs s")
    case (Inr i)
    then show ?thesis by (simp add: grown insert_solver_def region)
  next
    case (Inl i)
    have le: "i \<le> length xs"
      using binary_search_Inl(1) [OF strict_sorted_imp_sorted [OF strict] Inl] .
    have glen: "length ?g = WIDTH_HEADER + 32 * length xs + 32" using len by (simp add: d)
    have "take (length ?g - 32 - (WIDTH_HEADER + 32 * i)) (concat (map to_bytes (drop i xs)) @ replicate 32 0)
        = concat (map to_bytes (drop i xs))"
      using le h by (simp add: pubkey_codec.length_concat_enc right_diff_distrib')
    then show ?thesis
      using insert_solver_moves [OF region Inl] take_entries [OF h le] drop_entries [OF h le]
        le bound len glen Inl
      by (simp add: grown)
  qed
qed

lemma remove_and_cut_entries:
  assumes h: "length h = WIDTH_HEADER" and strict: "sorted_wrt (<) xs"
    and d: "d = h @ concat (map to_bytes xs)" and bound: "length d < 2 ^ 64"
  shows "remove_and_cut s d =
    (case binary_search xs s of
       Inl _ \<Rightarrow> Inl (serr SolverNotFound)
     | Inr i \<Rightarrow> Inr (h @ concat (map to_bytes (take i xs @ drop (Suc i) xs))))"
proof (cases "binary_search xs s")
  case (Inl i)
  then show ?thesis
    using h by (simp add: remove_and_cut_def remove_solver_def d)
next
  case (Inr i)
  have i: "i < length xs"
    using binary_search_Inr [OF strict_sorted_imp_sorted [OF strict] Inr] by simp
  have len: "length d = WIDTH_HEADER + 32 * length xs"
    using h by (simp add: d pubkey_codec.length_concat_enc)
  have next_entry: "WIDTH_HEADER + 32 * i + 32 = WIDTH_HEADER + 32 * Suc i" by simp
  have "drop (WIDTH_HEADER + 32 * i + 32) d = concat (map to_bytes (drop (Suc i) xs))"
    using drop_entries [OF h, of "Suc i" xs "[]"] i
    unfolding next_entry d by (simp only: append_Nil2 Suc_le_eq)
  moreover have "take (WIDTH_HEADER + 32 * i) d = h @ concat (map to_bytes (take i xs))"
    using take_entries [OF h, of i xs "[]"] i by (simp add: d)
  ultimately show ?thesis
    using remove_solver_moves [of d s i] Inr i len bound h by (simp add: d)
qed

section \<open>The contract of the solver list\<close>

text \<open>
  What the handlers rely on: the list is a set with a membership test, and adding and removing
  either change exactly one member and nothing of the rest \<open>frame\<close>, or fail with the error that
  says why.
\<close>

locale solver_set =
  fixes inv :: "'s \<Rightarrow> bool"
    and room :: "'s \<Rightarrow> bool"
    and elems :: "'s \<Rightarrow> pubkey set"
    and member :: "'s \<Rightarrow> pubkey \<Rightarrow> bool"
    and add :: "pubkey \<Rightarrow> 's \<Rightarrow> 's result"
    and rem :: "pubkey \<Rightarrow> 's \<Rightarrow> 's result"
    and frame :: "'s \<Rightarrow> 'f"
  assumes member_iff: "inv s \<Longrightarrow> member s k \<longleftrightarrow> k \<in> elems s"
    and add_new: "inv s \<Longrightarrow> room s \<Longrightarrow> k \<notin> elems s \<Longrightarrow>
      \<exists>s'. add k s = Inr s' \<and> inv s' \<and> elems s' = insert k (elems s) \<and> frame s' = frame s"
    and add_old: "inv s \<Longrightarrow> room s \<Longrightarrow> k \<in> elems s \<Longrightarrow> add k s = Inl (serr SolverAlreadyExists)"
    and rem_old: "inv s \<Longrightarrow> room s \<Longrightarrow> k \<in> elems s \<Longrightarrow>
      \<exists>s'. rem k s = Inr s' \<and> inv s' \<and> elems s' = elems s - {k} \<and> frame s' = frame s"
    and rem_new: "inv s \<Longrightarrow> room s \<Longrightarrow> k \<notin> elems s \<Longrightarrow> rem k s = Inl (serr SolverNotFound)"
begin

lemma add_Inr:
  assumes "inv s" "room s" "add k s = Inr s'"
  shows "inv s'" "elems s' = insert k (elems s)" "frame s' = frame s" "k \<notin> elems s"
  using assms add_new [of s k] add_old [of s k] by (cases "k \<in> elems s"; auto)+

lemma rem_Inr:
  assumes "inv s" "room s" "rem k s = Inr s'"
  shows "inv s'" "elems s' = elems s - {k}" "frame s' = frame s" "k \<in> elems s"
  using assms rem_old [of s k] rem_new [of s k] by (cases "k \<in> elems s"; auto)+

lemma member_add: "inv s \<Longrightarrow> room s \<Longrightarrow> add k s = Inr s' \<Longrightarrow> member s' j \<longleftrightarrow> j = k \<or> member s j"
  by (simp add: member_iff add_Inr)

lemma member_rem: "inv s \<Longrightarrow> room s \<Longrightarrow> rem k s = Inr s' \<Longrightarrow> member s' j \<longleftrightarrow> j \<noteq> k \<and> member s j"
  by (auto simp: member_iff rem_Inr)

end

text \<open>Room for one more entry; the runtime caps account data at 10 MiB, far below.\<close>

definition state_room :: "bytes \<Rightarrow> bool" where
  "state_room d \<longleftrightarrow> length d + WIDTH_PUBKEY < 2 ^ 64"

lemma take_header [simp]: "length h = WIDTH_HEADER \<Longrightarrow> take WIDTH_HEADER (h @ xs) = h"
  by simp

interpretation state_solver_set: solver_set state_wf state_room "\<lambda>d. set (state_solvers d)" is_solver
  grow_and_insert remove_and_cut "take WIDTH_HEADER"
proof unfold_locales
  fix d :: bytes and k :: pubkey
  assume wf: "state_wf d" and room: "state_room d"
  then obtain h where h: "d = h @ concat (map to_bytes (solver_region d))" "length h = WIDTH_HEADER"
    "slice 0 1 h = [STATE_DISCRIMINATOR]" and strict: "sorted_wrt (<) (solver_region d)"
    by (auto elim: state_wfE)
  have bound: "length d + 32 < 2 ^ 64" "length d < 2 ^ 64" using room by (simp_all add: state_room_def)
  have sorted: "sorted (solver_region d)" using strict by (rule strict_sorted_imp_sorted)
  have entries: "\<exists>d'. r = Inr d' \<and> state_wf d' \<and> set (solver_region d') = S \<and>
      take WIDTH_HEADER d' = take WIDTH_HEADER d"
    if "r = Inr (h @ concat (map to_bytes ys))" "sorted_wrt (<) ys" "set ys = S" for r :: "bytes result" and ys S
  proof (intro exI conjI)
    have "take WIDTH_HEADER d = h" by (subst h(1)) (simp add: h(2))
    then show "take WIDTH_HEADER (h @ concat (map to_bytes ys)) = take WIDTH_HEADER d"
      by (simp add: h(2))
  qed (use that h state_wfI in simp_all)
  note mem = binary_search_mem_iff [OF sorted, of k]
  note ins = grow_and_insert_entries [OF h(2) strict h(1) bound(1), of k]
  note del = remove_and_cut_entries [OF h(2) strict h(1) bound(2), of k]
  { assume k: "k \<notin> set (state_solvers d)"
    then obtain i where i: "binary_search (solver_region d) k = Inl i"
      using mem by (cases "binary_search (solver_region d) k") (auto simp: state_solvers_def)
    show "\<exists>d'. grow_and_insert k d = Inr d' \<and> state_wf d' \<and>
        set (state_solvers d') = insert k (set (state_solvers d)) \<and> take WIDTH_HEADER d' = take WIDTH_HEADER d"
      using entries [OF _ sorted_wrt_insert_at(1,2) [OF strict i]] by (simp only: ins i sum.case state_solvers_def)
    show "remove_and_cut k d = Inl (serr SolverNotFound)" by (simp add: del i) }
  { assume k: "k \<in> set (state_solvers d)"
    then obtain i where i: "binary_search (solver_region d) k = Inr i"
      using mem by (auto simp: state_solvers_def)
    then have at: "i < length (solver_region d)" "solver_region d ! i = k"
      using binary_search_Inr [OF sorted] by auto
    show "grow_and_insert k d = Inl (serr SolverAlreadyExists)" by (simp add: ins i)
    show "\<exists>d'. remove_and_cut k d = Inr d' \<and> state_wf d' \<and>
        set (state_solvers d') = set (state_solvers d) - {k} \<and> take WIDTH_HEADER d' = take WIDTH_HEADER d"
      using entries [OF _ sorted_wrt_remove_at [OF strict at(1)]] by (simp only: del i sum.case state_solvers_def at(2)) }
qed (rule is_solver_iff)

section \<open>Roles\<close>

lemma state_authority_slice:
  "WIDTH_HEADER \<le> length d \<Longrightarrow> state_authority d r = new_from_array (slice (role_slot r) 32 d)"
  by (cases r) (simp_all add: state_authority_def header_slots_def slice_def WIDTH_HEADER_def drop_take)

lemma state_set_authority_length [simp]:
  "WIDTH_HEADER \<le> length d \<Longrightarrow> length (state_set_authority r new d) = length d"
  by (cases r) (simp_all add: state_set_authority_def length_splice WIDTH_HEADER_def)

lemma role_slot_bounds: "1 \<le> role_slot r" "role_slot r + 32 \<le> WIDTH_HEADER"
  by (cases r; simp add: WIDTH_HEADER_def)+

lemma role_slots_apart: "a \<noteq> b \<Longrightarrow> role_slot a + 32 \<le> role_slot b \<or> role_slot b + 32 \<le> role_slot a"
  by (cases a; cases b) simp_all

text \<open>Setting a role changes the holder of that role and nothing else.\<close>

lemma state_set_authority_reads:
  assumes "WIDTH_HEADER \<le> length d"
  shows "state_authority (state_set_authority r new d) q = (if q = r then new else state_authority d q)"
    and "slice 0 1 (state_set_authority r new d) = slice 0 1 d"
    and "drop WIDTH_HEADER (state_set_authority r new d) = drop WIDTH_HEADER d"
proof -
  have fits: "role_slot r + length (to_bytes new) \<le> length d"
    using assms role_slot_bounds(2) [of r] by simp
  show "state_authority (state_set_authority r new d) q = (if q = r then new else state_authority d q)"
  proof (cases "q = r")
    case True
    with fits assms show ?thesis
      by (simp add: state_authority_slice) (simp add: state_set_authority_def slice_splice_eq)
  next
    case False
    then have "slice (role_slot q) 32 (splice (role_slot r) (to_bytes new) d) = slice (role_slot q) 32 d"
      using role_slots_apart [OF False] fits
      by (auto intro: slice_splice_before slice_splice_after)
    with False assms show ?thesis
      by (simp add: state_authority_slice) (simp add: state_set_authority_def)
  qed
  show "slice 0 1 (state_set_authority r new d) = slice 0 1 d"
    unfolding state_set_authority_def
    by (rule slice_splice_before) (use role_slot_bounds(1) [of r] fits in simp_all)
  show "drop WIDTH_HEADER (state_set_authority r new d) = drop WIDTH_HEADER d"
    using role_slot_bounds(2) [of r] fits assms
    by (simp add: state_set_authority_def splice_def)
qed

lemma state_set_authority_solvers:
  "WIDTH_HEADER \<le> length d \<Longrightarrow> state_solvers (state_set_authority r new d) = state_solvers d"
  by (simp add: state_solvers_def solver_region_def state_set_authority_reads(3))

lemma state_set_authority_wf: "state_wf d \<Longrightarrow> state_wf (state_set_authority r new d)"
  using state_set_authority_reads(2,3) [of d r new]
  by (simp add: state_wf_def result_simps solver_region_def)

fun init_holder :: "StateInitArgs \<Rightarrow> Role \<Rightarrow> pubkey" where
  "init_holder args Manager = sia_manager args"
| "init_holder args SolverAuthority = sia_solver_authority args"
| "init_holder args ReclaimAuthority = sia_reclaim_authority args"
| "init_holder args SettlementOwnedOrderAuthority = sia_settlement_owned_order_authority args"

text \<open>A fresh header over a data area of exactly its size: the given holders and no solver.\<close>

lemma state_initialize_reads:
  assumes "length bs = WIDTH_HEADER"
  shows "\<exists>d. state_initialize bs args = Inr d \<and> length d = WIDTH_HEADER \<and> state_wf d \<and>
    state_solvers d = [] \<and> (\<forall>r. state_authority d r = init_holder args r)"
proof (intro exI conjI allI)
  let ?d = "[STATE_DISCRIMINATOR] @ to_bytes (sia_manager args) @ to_bytes (sia_solver_authority args) @
        to_bytes (sia_reclaim_authority args) @ to_bytes (sia_settlement_owned_order_authority args)"
  show "state_initialize bs args = Inr ?d"
    using assms by (simp add: state_initialize_def splice_def WIDTH_HEADER_def)
  show len: "length ?d = WIDTH_HEADER" by (simp add: WIDTH_HEADER_def)
  show "state_wf ?d"
    using state_wfI [OF len, of "[]"] by (simp add: slice_def)
  show "state_solvers ?d = []"
    using solver_region_append [OF len, of "[]"] by (simp add: state_solvers_def)
  show "state_authority ?d r = init_holder args r" for r
    using len by (cases r) (simp_all only: state_authority_slice order_refl, simp_all add: slice_def drop_Cons')
qed

lemma is_solver_header_only:
  "WIDTH_HEADER \<le> length d \<Longrightarrow> is_solver (state_set_authority r new d) s = is_solver d s"
  by (simp add: is_solver_def solver_search_def solver_region_def state_set_authority_reads(3))

end
