(* ===== verification/Instructions.thy ===== *)
theory Instructions
  imports StateData
begin

text \<open>
  The wire formats of the eleven instructions other than settlement
  (\<open>interface/src/instruction\<close>): for each, the off-chain builder (a record and the function that
  turns it into an instruction) and the parser \<open>parse_body\<close> the program and the clients share.
  As in the source, parsing is positional and generic in the account type. The contract
  \<open>instruction_codec\<close> says that a built instruction parses back to what was put in; it is
  interpreted for every instruction, and gives that no instruction is ever mistaken for another.
\<close>

section \<open>Discriminators\<close>

definition recover_discriminator :: "bytes \<Rightarrow> (SettlementInstruction \<times> bytes) result" where
  "recover_discriminator instruction_data =
     (case instruction_data of
        [] \<Rightarrow> Inl InvalidInstructionData
      | b # rest \<Rightarrow> bindE (settlement_instruction_try_from b) (\<lambda>discriminator. Inr (discriminator, rest)))"

text \<open>\<open>InstructionInputParsing::parse\<close>, for an implementation's \<open>DISCRIMINATOR\<close> and \<open>parse_body\<close>.\<close>

definition instruction_parse ::
  "SettlementInstruction \<Rightarrow> (bytes \<Rightarrow> 'a list \<Rightarrow> 'i result) \<Rightarrow> bytes \<Rightarrow> 'a list \<Rightarrow> 'i result" where
  "instruction_parse own parse_body instruction_data accounts =
     bindE (recover_discriminator instruction_data) (\<lambda>(discriminator, remaining_data).
     if discriminator = own then parse_body remaining_data accounts else Inl InvalidInstructionData)"

lemma recover_discriminator_Cons [simp]:
  "recover_discriminator (ix_discriminator i # rest) = Inr (i, rest)"
  by (simp add: recover_discriminator_def)

lemma recover_discriminator_Inr_iff [result_simps]:
  "recover_discriminator data = Inr (i, rest) \<longleftrightarrow> data = ix_discriminator i # rest"
  by (auto simp: recover_discriminator_def result_simps split: list.splits)

lemma instruction_parse_Inr_iff [result_simps]:
  "instruction_parse own pb data accs = Inr x \<longleftrightarrow>
    (\<exists>rest. data = ix_discriminator own # rest \<and> pb rest accs = Inr x)"
  by (auto simp: instruction_parse_def result_simps split: if_splits)

section \<open>CreateOrder\<close>

record CreateOrder =
  co_program_id :: pubkey
  co_owner :: pubkey
  co_created_by :: pubkey
  co_order_pda :: pubkey
  co_intent_bytes :: bytes

definition create_order_instruction :: "platform \<Rightarrow> CreateOrder \<Rightarrow> instruction" where
  "create_order_instruction P b =
    \<lparr>ix_program_id = co_program_id b,
     ix_accounts =
       [meta_new_readonly (co_owner b) True,
        meta_new (co_created_by b) True,
        meta_new (co_order_pda b) False,
        meta_new_readonly (pf_system_program_id P) False],
     ix_data = ix_discriminator CreateOrder # co_intent_bytes b\<rparr>"

record 'a CreateOrderInput =
  coi_intent_bytes :: bytes
  coi_owner :: 'a
  coi_created_by :: 'a
  coi_order_pda :: 'a

definition create_order_parse_body :: "bytes \<Rightarrow> 'a list \<Rightarrow> 'a CreateOrderInput result" where
  "create_order_parse_body data accounts =
     bindE (ensure (length data = INTENT_SIZE) InvalidInstructionData) (\<lambda>_.
     case accounts of
       owner # created_by # order_pda # _ # _ \<Rightarrow>
         Inr \<lparr>coi_intent_bytes = data, coi_owner = owner, coi_created_by = created_by,
              coi_order_pda = order_pda\<rparr>
     | _ \<Rightarrow> Inl NotEnoughAccountKeys)"

section \<open>CancelOrder\<close>

record CancelOrder =
  cab_program_id :: pubkey
  cab_owner :: pubkey
  cab_created_by :: pubkey
  cab_order_pda :: pubkey
  cab_intent_bytes :: "bytes option"
  cab_state_pda :: "pubkey option"

definition cancel_order_instruction :: "platform \<Rightarrow> CancelOrder \<Rightarrow> instruction" where
  "cancel_order_instruction P b =
    \<lparr>ix_program_id = cab_program_id b,
     ix_accounts =
       [meta_new_readonly (cab_owner b) True,
        (case cab_intent_bytes b of
           Some _ \<Rightarrow> meta_new (cab_created_by b) True
         | None \<Rightarrow> meta_new_readonly (cab_created_by b) False),
        meta_new (cab_order_pda b) False,
        meta_new_readonly (pf_system_program_id P) False] @
       (case cab_state_pda b of Some state_pda \<Rightarrow> [meta_new_readonly state_pda False] | None \<Rightarrow> []),
     ix_data = ix_discriminator CancelOrder #
       (case cab_intent_bytes b of Some intent_bytes \<Rightarrow> intent_bytes | None \<Rightarrow> [])\<rparr>"

record 'a CancelOrderInput =
  cai_intent_bytes :: "bytes option"
  cai_owner :: 'a
  cai_created_by :: 'a
  cai_order_pda :: 'a
  cai_state_pda :: "'a option"

text \<open>\<open>slice::first\<close>.\<close>

definition first :: "'a list \<Rightarrow> 'a option" where
  "first xs = (case xs of [] \<Rightarrow> None | x # _ \<Rightarrow> Some x)"

definition cancel_order_parse_body :: "bytes \<Rightarrow> 'a list \<Rightarrow> 'a CancelOrderInput result" where
  "cancel_order_parse_body data accounts =
     bindE (if data = [] then Inr None
            else if length data = INTENT_SIZE then Inr (Some data) else Inl InvalidInstructionData)
       (\<lambda>intent_bytes.
     case accounts of
       owner # created_by # order_pda # _ # remaining \<Rightarrow>
         Inr \<lparr>cai_intent_bytes = intent_bytes, cai_owner = owner, cai_created_by = created_by,
              cai_order_pda = order_pda, cai_state_pda = first remaining\<rparr>
     | _ \<Rightarrow> Inl NotEnoughAccountKeys)"

section \<open>AddSolver and RemoveSolver\<close>

record AddSolver =
  as_program_id :: pubkey
  as_authority :: pubkey
  as_payer :: pubkey
  as_state_pda :: pubkey
  as_solver :: pubkey

definition add_solver_instruction :: "platform \<Rightarrow> AddSolver \<Rightarrow> instruction" where
  "add_solver_instruction P b =
    \<lparr>ix_program_id = as_program_id b,
     ix_accounts =
       [meta_new_readonly (as_authority b) True,
        meta_new (as_payer b) True,
        meta_new (as_state_pda b) False,
        meta_new_readonly (pf_system_program_id P) False],
     ix_data = ix_discriminator AddSolver # to_bytes (as_solver b)\<rparr>"

record 'a AddSolverInput =
  asi_authority :: 'a
  asi_payer :: 'a
  asi_state_pda :: 'a
  asi_solver :: pubkey

definition add_solver_parse_body :: "bytes \<Rightarrow> 'a list \<Rightarrow> 'a AddSolverInput result" where
  "add_solver_parse_body data accounts =
     bindE (ensure (length data = 32) InvalidInstructionData) (\<lambda>_.
     case accounts of
       authority # payer # state_pda # _ # _ \<Rightarrow>
         Inr \<lparr>asi_authority = authority, asi_payer = payer, asi_state_pda = state_pda,
              asi_solver = new_from_array data\<rparr>
     | _ \<Rightarrow> Inl NotEnoughAccountKeys)"

record RemoveSolver =
  rs_program_id :: pubkey
  rs_authority :: pubkey
  rs_rent_recipient :: pubkey
  rs_state_pda :: pubkey
  rs_solver :: pubkey

definition remove_solver_instruction :: "RemoveSolver \<Rightarrow> instruction" where
  "remove_solver_instruction b =
    \<lparr>ix_program_id = rs_program_id b,
     ix_accounts =
       [meta_new_readonly (rs_authority b) True,
        meta_new (rs_rent_recipient b) False,
        meta_new (rs_state_pda b) False],
     ix_data = ix_discriminator RemoveSolver # to_bytes (rs_solver b)\<rparr>"

record 'a RemoveSolverInput =
  rsi_authority :: 'a
  rsi_rent_recipient :: 'a
  rsi_state_pda :: 'a
  rsi_solver :: pubkey

definition remove_solver_parse_body :: "bytes \<Rightarrow> 'a list \<Rightarrow> 'a RemoveSolverInput result" where
  "remove_solver_parse_body data accounts =
     bindE (ensure (length data = 32) InvalidInstructionData) (\<lambda>_.
     case accounts of
       authority # rent_recipient # state_pda # _ \<Rightarrow>
         Inr \<lparr>rsi_authority = authority, rsi_rent_recipient = rent_recipient, rsi_state_pda = state_pda,
              rsi_solver = new_from_array data\<rparr>
     | _ \<Rightarrow> Inl NotEnoughAccountKeys)"

section \<open>TransferAuthority\<close>

record TransferAuthority =
  tab_program_id :: pubkey
  tab_signer :: pubkey
  tab_state_pda :: pubkey
  tab_role :: Role
  tab_new_authority :: pubkey

definition transfer_authority_instruction :: "TransferAuthority \<Rightarrow> instruction" where
  "transfer_authority_instruction b =
    \<lparr>ix_program_id = tab_program_id b,
     ix_accounts = [meta_new_readonly (tab_signer b) True, meta_new (tab_state_pda b) False],
     ix_data = ix_discriminator TransferAuthority # role_discriminator (tab_role b) #
       to_bytes (tab_new_authority b)\<rparr>"

record 'a TransferAuthorityInput =
  tai_signer :: 'a
  tai_state_pda :: 'a
  tai_role :: Role
  tai_new_authority :: pubkey

definition transfer_authority_parse_body :: "bytes \<Rightarrow> 'a list \<Rightarrow> 'a TransferAuthorityInput result" where
  "transfer_authority_parse_body data accounts =
     bindE (ensure (length data = 1 + 32) InvalidInstructionData) (\<lambda>_.
     bindE (role_try_from (data ! 0)) (\<lambda>role.
     case accounts of
       signer # state_pda # _ \<Rightarrow>
         Inr \<lparr>tai_signer = signer, tai_state_pda = state_pda, tai_role = role,
              tai_new_authority = new_from_array (slice 1 32 data)\<rparr>
     | _ \<Rightarrow> Inl NotEnoughAccountKeys))"

section \<open>Initialize\<close>

record Initialize =
  inb_program_id :: pubkey
  inb_payer :: pubkey
  inb_state_pda :: pubkey
  inb_native_sol_buffer :: pubkey
  inb_manager :: pubkey
  inb_solver_authority :: pubkey
  inb_reclaim_authority :: pubkey
  inb_settlement_owned_order_authority :: pubkey

definition initialize_instruction :: "platform \<Rightarrow> Initialize \<Rightarrow> instruction" where
  "initialize_instruction P b =
    \<lparr>ix_program_id = inb_program_id b,
     ix_accounts =
       [meta_new (inb_payer b) True,
        meta_new (inb_state_pda b) False,
        meta_new (inb_native_sol_buffer b) False,
        meta_new_readonly (pf_system_program_id P) False],
     ix_data = ix_discriminator Initialize # to_bytes (inb_manager b) @
       to_bytes (inb_solver_authority b) @ to_bytes (inb_reclaim_authority b) @
       to_bytes (inb_settlement_owned_order_authority b)\<rparr>"

record 'a InitializeInput =
  ini_payer :: 'a
  ini_state_pda :: 'a
  ini_native_sol_buffer :: 'a
  ini_manager :: pubkey
  ini_solver_authority :: pubkey
  ini_reclaim_authority :: pubkey
  ini_settlement_owned_order_authority :: pubkey

definition initialize_parse_body :: "bytes \<Rightarrow> 'a list \<Rightarrow> 'a InitializeInput result" where
  "initialize_parse_body data accounts =
     bindE (ensure (length data = 4 * 32) InvalidInstructionData) (\<lambda>_.
     case accounts of
       payer # state_pda # native_sol_buffer # _ # _ \<Rightarrow>
         Inr \<lparr>ini_payer = payer, ini_state_pda = state_pda, ini_native_sol_buffer = native_sol_buffer,
              ini_manager = new_from_array (slice 0 32 data),
              ini_solver_authority = new_from_array (slice 32 32 data),
              ini_reclaim_authority = new_from_array (slice 64 32 data),
              ini_settlement_owned_order_authority = new_from_array (slice 96 32 data)\<rparr>
     | _ \<Rightarrow> Inl NotEnoughAccountKeys)"

section \<open>CreateBuffer\<close>

record CreateBuffers =
  cbb_program_id :: pubkey
  cbb_payer :: pubkey
  cbb_token_program :: pubkey
  cbb_buffers :: "(pubkey \<times> pubkey) list"

definition create_buffers_instruction :: "platform \<Rightarrow> CreateBuffers \<Rightarrow> instruction" where
  "create_buffers_instruction P b =
    \<lparr>ix_program_id = cbb_program_id b,
     ix_accounts =
       [meta_new (cbb_payer b) True,
        meta_new_readonly (pf_system_program_id P) False,
        meta_new_readonly (cbb_token_program b) False] @
       concat (map (\<lambda>(buffer_pda, mint). [meta_new buffer_pda False, meta_new_readonly mint False])
         (cbb_buffers b)),
     ix_data = [ix_discriminator CreateBuffer]\<rparr>"

record 'a BufferAccounts =
  ba_buffer_pda :: 'a
  ba_mint :: 'a

record 'a CreateBufferInput =
  cbi_payer :: 'a
  cbi_buffer_pairs :: "'a list list"

text \<open>Every chunk is the array \<open>[buffer_pda, mint]\<close>.\<close>

definition create_buffer_buffers :: "'a CreateBufferInput \<Rightarrow> 'a BufferAccounts list" where
  "create_buffer_buffers input =
     map (\<lambda>pair. \<lparr>ba_buffer_pda = pair ! 0, ba_mint = pair ! 1\<rparr>) (cbi_buffer_pairs input)"

definition create_buffer_parse_body :: "bytes \<Rightarrow> 'a list \<Rightarrow> 'a CreateBufferInput result" where
  "create_buffer_parse_body data accounts =
     bindE (ensure (data = []) InvalidInstructionData) (\<lambda>_.
     case accounts of
       payer # _ # _ # rest \<Rightarrow>
         (let (buffers, remainder) = as_chunks 2 rest in
          if remainder \<noteq> [] \<or> buffers = [] then Inl NotEnoughAccountKeys
          else Inr \<lparr>cbi_payer = payer, cbi_buffer_pairs = buffers\<rparr>)
     | _ \<Rightarrow> Inl NotEnoughAccountKeys)"

section \<open>CreateSettlementOwnedOrder\<close>

record CreateSettlementOwnedOrder =
  csb_program_id :: pubkey
  csb_authority :: pubkey
  csb_created_by :: pubkey
  csb_state_pda :: pubkey
  csb_order_pda :: pubkey
  csb_intent_bytes :: bytes

definition create_settlement_owned_order_instruction ::
  "platform \<Rightarrow> CreateSettlementOwnedOrder \<Rightarrow> instruction" where
  "create_settlement_owned_order_instruction P b =
    \<lparr>ix_program_id = csb_program_id b,
     ix_accounts =
       [meta_new_readonly (csb_authority b) True,
        meta_new (csb_created_by b) True,
        meta_new_readonly (csb_state_pda b) False,
        meta_new (csb_order_pda b) False,
        meta_new_readonly (pf_system_program_id P) False],
     ix_data = ix_discriminator CreateSettlementOwnedOrder # csb_intent_bytes b\<rparr>"

record 'a CreateSettlementOwnedOrderInput =
  csi_intent_bytes :: bytes
  csi_authority :: 'a
  csi_created_by :: 'a
  csi_state_pda :: 'a
  csi_order_pda :: 'a

definition create_settlement_owned_order_parse_body ::
  "bytes \<Rightarrow> 'a list \<Rightarrow> 'a CreateSettlementOwnedOrderInput result" where
  "create_settlement_owned_order_parse_body data accounts =
     bindE (ensure (length data = INTENT_SIZE) InvalidInstructionData) (\<lambda>_.
     case accounts of
       authority # created_by # state_pda # order_pda # _ # _ \<Rightarrow>
         Inr \<lparr>csi_intent_bytes = data, csi_authority = authority, csi_created_by = created_by,
              csi_state_pda = state_pda, csi_order_pda = order_pda\<rparr>
     | _ \<Rightarrow> Inl NotEnoughAccountKeys)"

section \<open>ReclaimOrder\<close>

record ReclaimOrder =
  rob_program_id :: pubkey
  rob_order_pda :: pubkey
  rob_reclaim_recipient :: pubkey
  rob_owner :: "pubkey option"

definition reclaim_order_instruction :: "ReclaimOrder \<Rightarrow> instruction" where
  "reclaim_order_instruction b =
    \<lparr>ix_program_id = rob_program_id b,
     ix_accounts =
       [meta_new (rob_order_pda b) False,
        meta_new (rob_reclaim_recipient b) False] @
       (case rob_owner b of Some owner \<Rightarrow> [meta_new_readonly owner True] | None \<Rightarrow> []),
     ix_data = [ix_discriminator ReclaimOrder]\<rparr>"

record 'a ReclaimOrderInput =
  roi_order_pda :: 'a
  roi_reclaim_recipient :: 'a
  roi_owner :: "'a option"

definition reclaim_order_parse_body :: "bytes \<Rightarrow> 'a list \<Rightarrow> 'a ReclaimOrderInput result" where
  "reclaim_order_parse_body data accounts =
     bindE (ensure (data = []) InvalidInstructionData) (\<lambda>_.
     case accounts of
       order_pda # reclaim_recipient # remaining \<Rightarrow>
         Inr \<lparr>roi_order_pda = order_pda, roi_reclaim_recipient = reclaim_recipient,
              roi_owner = first remaining\<rparr>
     | _ \<Rightarrow> Inl NotEnoughAccountKeys)"

section \<open>ReclaimBuffer\<close>

definition ACCOUNTS_PER_BUFFER :: nat where
  "ACCOUNTS_PER_BUFFER = 2"

record ReclaimBuffer =
  rbb_program_id :: pubkey
  rbb_state_pda :: pubkey
  rbb_reclaim_authority :: pubkey
  rbb_reclaim_recipient :: pubkey
  rbb_token_program :: pubkey
  rbb_buffers :: "(pubkey \<times> pubkey \<times> u64) list"

definition reclaim_buffer_instruction :: "ReclaimBuffer \<Rightarrow> instruction" where
  "reclaim_buffer_instruction b =
    \<lparr>ix_program_id = rbb_program_id b,
     ix_accounts =
       [meta_new_readonly (rbb_state_pda b) False,
        meta_new_readonly (rbb_reclaim_authority b) True,
        meta_new (rbb_reclaim_recipient b) False,
        meta_new_readonly (rbb_token_program b) False] @
       concat (map (\<lambda>(buffer_pda, mint, _). [meta_new buffer_pda False, meta_new mint False])
         (rbb_buffers b)),
     ix_data = ix_discriminator ReclaimBuffer #
       concat (map (\<lambda>(_, _, burn_limit). to_le 8 burn_limit) (rbb_buffers b))\<rparr>"

record 'a Buffer =
  bu_buffer_pda :: 'a
  bu_mint :: 'a
  bu_burn_limit :: u64

record 'a Buffers =
  bs_accounts :: "'a list list"
  bs_burn_limits :: "bytes list"

definition buffers_iter :: "'a Buffers \<Rightarrow> 'a Buffer list" where
  "buffers_iter buffers =
     map (\<lambda>(pair, burn_limit).
            \<lparr>bu_buffer_pda = pair ! 0, bu_mint = pair ! 1, bu_burn_limit = from_le burn_limit\<rparr>)
       (zip (bs_accounts buffers) (bs_burn_limits buffers))"

record 'a ReclaimBufferInput =
  rbi_state_pda :: 'a
  rbi_reclaim_authority :: 'a
  rbi_reclaim_recipient :: 'a
  rbi_buffers :: "'a Buffers"

definition reclaim_buffer_parse_body :: "bytes \<Rightarrow> 'a list \<Rightarrow> 'a ReclaimBufferInput result" where
  "reclaim_buffer_parse_body data accounts =
     (case accounts of
        state_pda # reclaim_authority # reclaim_recipient # _ # rest \<Rightarrow>
          (let (buffer_pairs, remainder) = as_chunks ACCOUNTS_PER_BUFFER rest in
           if remainder \<noteq> [] \<or> buffer_pairs = [] then Inl NotEnoughAccountKeys
           else let (burn_limits, remainder) = as_chunks 8 data in
             if remainder \<noteq> [] \<or> length burn_limits \<noteq> length buffer_pairs then Inl InvalidInstructionData
             else Inr \<lparr>rbi_state_pda = state_pda, rbi_reclaim_authority = reclaim_authority,
                       rbi_reclaim_recipient = reclaim_recipient,
                       rbi_buffers = \<lparr>bs_accounts = buffer_pairs, bs_burn_limits = burn_limits\<rparr>\<rparr>)
      | _ \<Rightarrow> Inl NotEnoughAccountKeys)"

section \<open>WithdrawNativeSol\<close>

record WithdrawNativeSol =
  wnb_program_id :: pubkey
  wnb_state_pda :: pubkey
  wnb_authority :: pubkey
  wnb_native_sol_buffer :: pubkey
  wnb_recipient :: pubkey
  wnb_amount :: u64

definition withdraw_native_sol_instruction :: "WithdrawNativeSol \<Rightarrow> instruction" where
  "withdraw_native_sol_instruction b =
    \<lparr>ix_program_id = wnb_program_id b,
     ix_accounts =
       [meta_new_readonly (wnb_state_pda b) False,
        meta_new_readonly (wnb_authority b) True,
        meta_new (wnb_native_sol_buffer b) False,
        meta_new (wnb_recipient b) False],
     ix_data = ix_discriminator WithdrawNativeSol # to_le 8 (wnb_amount b)\<rparr>"

record 'a WithdrawNativeSolInput =
  wni_state_pda :: 'a
  wni_authority :: 'a
  wni_native_sol_buffer :: 'a
  wni_recipient :: 'a
  wni_amount :: u64

definition withdraw_native_sol_parse_body :: "bytes \<Rightarrow> 'a list \<Rightarrow> 'a WithdrawNativeSolInput result" where
  "withdraw_native_sol_parse_body data accounts =
     bindE (ensure (length data = 8) InvalidInstructionData) (\<lambda>_.
     case accounts of
       state_pda # authority # native_sol_buffer # recipient # _ \<Rightarrow>
         Inr \<lparr>wni_state_pda = state_pda, wni_authority = authority,
              wni_native_sol_buffer = native_sol_buffer, wni_recipient = recipient,
              wni_amount = from_le data\<rparr>
     | _ \<Rightarrow> Inl NotEnoughAccountKeys)"

section \<open>Built instructions parse back\<close>

abbreviation instruction_addresses :: "instruction \<Rightarrow> pubkey list" where
  "instruction_addresses ix \<equiv> map am_pubkey (ix_accounts ix)"

lemma meta_pubkey [simp]: "am_pubkey (meta_new k s) = k" "am_pubkey (meta_new_readonly k s) = k"
  by (simp_all add: meta_new_def meta_new_readonly_def)

text \<open>
  The contract of a wire format: the data of a built instruction starts with the instruction's
  own discriminator, and its body and accounts parse to the input the builder describes. The
  client lemmas are the round trip through \<open>parse\<close>, that any other instruction's parser refuses
  the data, and that what a transaction carries determines the parsed input.
\<close>

locale instruction_codec =
  fixes own :: SettlementInstruction
    and wf :: "'b \<Rightarrow> bool"
    and build :: "'b \<Rightarrow> instruction"
    and parse_body :: "bytes \<Rightarrow> pubkey list \<Rightarrow> 'i result"
    and input_of :: "'b \<Rightarrow> 'i"
  assumes starts: "hd (ix_data (build b)) = ix_discriminator own" "ix_data (build b) \<noteq> []"
    and body: "wf b \<Longrightarrow> parse_body (tl (ix_data (build b))) (instruction_addresses (build b)) = Inr (input_of b)"
begin

lemma data_Cons: "ix_data (build b) = ix_discriminator own # tl (ix_data (build b))"
  using starts [of b] by (cases "ix_data (build b)") simp_all

lemma parse_build:
  "wf b \<Longrightarrow> instruction_parse own parse_body (ix_data (build b)) (instruction_addresses (build b)) = Inr (input_of b)"
  by (subst data_Cons) (simp add: instruction_parse_def body)

lemma parse_other:
  "other \<noteq> own \<Longrightarrow> instruction_parse other pb (ix_data (build b)) accs = Inl InvalidInstructionData"
  by (subst data_Cons) (simp add: instruction_parse_def)

lemma discriminator_build: "recover_discriminator (ix_data (build b)) = Inr (own, tl (ix_data (build b)))"
  by (subst data_Cons) simp

end

text \<open>The inputs the builders describe.\<close>

definition create_order_input :: "CreateOrder \<Rightarrow> pubkey CreateOrderInput" where
  "create_order_input b = \<lparr>coi_intent_bytes = co_intent_bytes b, coi_owner = co_owner b,
     coi_created_by = co_created_by b, coi_order_pda = co_order_pda b\<rparr>"

definition cancel_order_input :: "CancelOrder \<Rightarrow> pubkey CancelOrderInput" where
  "cancel_order_input b = \<lparr>cai_intent_bytes = cab_intent_bytes b, cai_owner = cab_owner b,
     cai_created_by = cab_created_by b, cai_order_pda = cab_order_pda b, cai_state_pda = cab_state_pda b\<rparr>"

definition add_solver_input :: "AddSolver \<Rightarrow> pubkey AddSolverInput" where
  "add_solver_input b = \<lparr>asi_authority = as_authority b, asi_payer = as_payer b,
     asi_state_pda = as_state_pda b, asi_solver = as_solver b\<rparr>"

definition remove_solver_input :: "RemoveSolver \<Rightarrow> pubkey RemoveSolverInput" where
  "remove_solver_input b = \<lparr>rsi_authority = rs_authority b, rsi_rent_recipient = rs_rent_recipient b,
     rsi_state_pda = rs_state_pda b, rsi_solver = rs_solver b\<rparr>"

definition transfer_authority_input :: "TransferAuthority \<Rightarrow> pubkey TransferAuthorityInput" where
  "transfer_authority_input b = \<lparr>tai_signer = tab_signer b, tai_state_pda = tab_state_pda b,
     tai_role = tab_role b, tai_new_authority = tab_new_authority b\<rparr>"

definition initialize_input :: "Initialize \<Rightarrow> pubkey InitializeInput" where
  "initialize_input b = \<lparr>ini_payer = inb_payer b, ini_state_pda = inb_state_pda b,
     ini_native_sol_buffer = inb_native_sol_buffer b, ini_manager = inb_manager b,
     ini_solver_authority = inb_solver_authority b, ini_reclaim_authority = inb_reclaim_authority b,
     ini_settlement_owned_order_authority = inb_settlement_owned_order_authority b\<rparr>"

definition create_buffers_input :: "CreateBuffers \<Rightarrow> pubkey CreateBufferInput" where
  "create_buffers_input b = \<lparr>cbi_payer = cbb_payer b,
     cbi_buffer_pairs = map (\<lambda>(buffer_pda, mint). [buffer_pda, mint]) (cbb_buffers b)\<rparr>"

definition create_settlement_owned_order_input ::
  "CreateSettlementOwnedOrder \<Rightarrow> pubkey CreateSettlementOwnedOrderInput" where
  "create_settlement_owned_order_input b = \<lparr>csi_intent_bytes = csb_intent_bytes b,
     csi_authority = csb_authority b, csi_created_by = csb_created_by b,
     csi_state_pda = csb_state_pda b, csi_order_pda = csb_order_pda b\<rparr>"

definition reclaim_order_input :: "ReclaimOrder \<Rightarrow> pubkey ReclaimOrderInput" where
  "reclaim_order_input b = \<lparr>roi_order_pda = rob_order_pda b,
     roi_reclaim_recipient = rob_reclaim_recipient b, roi_owner = rob_owner b\<rparr>"

definition reclaim_buffer_input :: "ReclaimBuffer \<Rightarrow> pubkey ReclaimBufferInput" where
  "reclaim_buffer_input b = \<lparr>rbi_state_pda = rbb_state_pda b,
     rbi_reclaim_authority = rbb_reclaim_authority b, rbi_reclaim_recipient = rbb_reclaim_recipient b,
     rbi_buffers = \<lparr>bs_accounts = map (\<lambda>(buffer_pda, mint, _). [buffer_pda, mint]) (rbb_buffers b),
       bs_burn_limits = map (\<lambda>(_, _, burn_limit). to_le 8 burn_limit) (rbb_buffers b)\<rparr>\<rparr>"

definition withdraw_native_sol_input :: "WithdrawNativeSol \<Rightarrow> pubkey WithdrawNativeSolInput" where
  "withdraw_native_sol_input b = \<lparr>wni_state_pda = wnb_state_pda b, wni_authority = wnb_authority b,
     wni_native_sol_buffer = wnb_native_sol_buffer b, wni_recipient = wnb_recipient b,
     wni_amount = wnb_amount b\<rparr>"

lemma first_simps [simp]: "first [] = None" "first (x # xs) = Some x"
  by (simp_all add: first_def)

interpretation create_order_codec: instruction_codec CreateOrder
  "\<lambda>b. length (co_intent_bytes b) = INTENT_SIZE" "create_order_instruction P"
  create_order_parse_body create_order_input for P
  by unfold_locales
    (simp_all add: create_order_instruction_def create_order_parse_body_def create_order_input_def)

interpretation cancel_order_codec: instruction_codec CancelOrder
  "\<lambda>b. pred_option (\<lambda>bs. length bs = INTENT_SIZE) (cab_intent_bytes b)" "cancel_order_instruction P"
  cancel_order_parse_body cancel_order_input for P
  by unfold_locales
    (auto simp: cancel_order_instruction_def cancel_order_parse_body_def cancel_order_input_def
      INTENT_SIZE_def split: option.splits)

interpretation add_solver_codec: instruction_codec AddSolver "\<lambda>b. True" "add_solver_instruction P"
  add_solver_parse_body add_solver_input for P
  by unfold_locales (simp_all add: add_solver_instruction_def add_solver_parse_body_def add_solver_input_def)

interpretation remove_solver_codec: instruction_codec RemoveSolver "\<lambda>b. True" remove_solver_instruction
  remove_solver_parse_body remove_solver_input
  by unfold_locales
    (simp_all add: remove_solver_instruction_def remove_solver_parse_body_def remove_solver_input_def)

interpretation transfer_authority_codec: instruction_codec TransferAuthority "\<lambda>b. True"
  transfer_authority_instruction transfer_authority_parse_body transfer_authority_input
  by unfold_locales
    (simp_all add: transfer_authority_instruction_def transfer_authority_parse_body_def
      transfer_authority_input_def slice_def)

interpretation initialize_codec: instruction_codec Initialize "\<lambda>b. True" "initialize_instruction P"
  initialize_parse_body initialize_input for P
  by unfold_locales
    (simp_all add: initialize_instruction_def initialize_parse_body_def initialize_input_def layout_simps)

text \<open>Account groups of a fixed size.\<close>

lemma map_pair_accounts:
  "map am_pubkey (concat (map (\<lambda>(p, m). [meta_new p False, meta_new_readonly m False]) pairs)) =
    concat (map (\<lambda>(p, m). [p, m]) pairs)"
  "map am_pubkey (concat (map (\<lambda>(p, m, l :: u64). [meta_new p False, meta_new m False]) triples)) =
    concat (map (\<lambda>(p, m, l). [p, m]) triples)"
  by (induction pairs; auto) (induction triples; auto)

lemma as_chunks_map:
  "0 < n \<Longrightarrow> (\<And>x. length (f x) = n) \<Longrightarrow> as_chunks n (concat (map f xs)) = (map f xs, [])"
  using as_chunks_concat [of n "map f xs" "[]"] by simp

interpretation create_buffer_codec: instruction_codec CreateBuffer "\<lambda>b. cbb_buffers b \<noteq> []"
  "create_buffers_instruction P" create_buffer_parse_body create_buffers_input for P
  by unfold_locales
    (simp_all add: create_buffers_instruction_def create_buffer_parse_body_def create_buffers_input_def
      case_prod_beta map_pair_accounts as_chunks_map)

interpretation create_settlement_owned_order_codec: instruction_codec CreateSettlementOwnedOrder
  "\<lambda>b. length (csb_intent_bytes b) = INTENT_SIZE" "create_settlement_owned_order_instruction P"
  create_settlement_owned_order_parse_body create_settlement_owned_order_input for P
  by unfold_locales
    (simp_all add: create_settlement_owned_order_instruction_def
      create_settlement_owned_order_parse_body_def create_settlement_owned_order_input_def)

interpretation reclaim_order_codec: instruction_codec ReclaimOrder "\<lambda>b. True" reclaim_order_instruction
  reclaim_order_parse_body reclaim_order_input
  by unfold_locales
    (auto simp: reclaim_order_instruction_def reclaim_order_parse_body_def reclaim_order_input_def
      split: option.splits)

interpretation reclaim_buffer_codec: instruction_codec ReclaimBuffer "\<lambda>b. rbb_buffers b \<noteq> []"
  reclaim_buffer_instruction reclaim_buffer_parse_body reclaim_buffer_input
  by unfold_locales
    (simp_all add: reclaim_buffer_instruction_def reclaim_buffer_parse_body_def reclaim_buffer_input_def
      ACCOUNTS_PER_BUFFER_def case_prod_beta map_pair_accounts as_chunks_map)

interpretation withdraw_native_sol_codec: instruction_codec WithdrawNativeSol "\<lambda>b. True"
  withdraw_native_sol_instruction withdraw_native_sol_parse_body withdraw_native_sol_input
  by unfold_locales
    (simp_all add: withdraw_native_sol_instruction_def withdraw_native_sol_parse_body_def
      withdraw_native_sol_input_def)

end
