(* ===== verification/SettleInstructions.thy ===== *)
theory SettleInstructions
  imports Instructions "HOL-Library.Multiset"
begin

text \<open>
  The wire formats of \<open>BeginSettle\<close> and \<open>FinalizeSettle\<close>
  (\<open>interface/src/instruction/settle\<close>). The lemmas show that a built instruction parses back
  (both are \<open>instruction_codec\<close>s), that the iterator over the settled orders of a parsed
  \<open>BeginSettle\<close> never panics, never stops early and hands out every account and amount exactly
  once, that the builder emits the orders sorted, and that the push data \<open>BeginSettle\<close> reads out
  of its counterpart is what \<open>FinalizeSettle\<close> will read.
\<close>

section \<open>Shared pieces\<close>

definition MINT_PLACEHOLDER :: "platform \<Rightarrow> pubkey" where
  "MINT_PLACEHOLDER P = pf_instructions_sysvar_id P"

text \<open>
  \<open>MaybeMint::get\<close> on a slot, for the account representation's \<open>Keyed::key\<close>.
\<close>

definition maybe_mint_get :: "platform \<Rightarrow> ('a \<Rightarrow> pubkey) \<Rightarrow> 'a \<Rightarrow> 'a option" where
  "maybe_mint_get P key mint_slot = (if key mint_slot = MINT_PLACEHOLDER P then None else Some mint_slot)"

definition recover_counterpart :: "bytes \<Rightarrow> (u16 \<times> bytes) result" where
  "recover_counterpart instruction_data =
     (case instruction_data of
        b1 # b2 # rest \<Rightarrow> Inr (from_le [b1, b2], rest)
      | _ \<Rightarrow> Inl InvalidInstructionData)"

text \<open>One account per supported token program; a program that is not needed is replaced.\<close>

definition token_program_metas :: "platform \<Rightarrow> TokenProgram option \<Rightarrow> account_meta list" where
  "token_program_metas P only_token_program =
     map (\<lambda>program. meta_new_readonly
            (if (case only_token_program of None \<Rightarrow> True | Some only \<Rightarrow> only = program)
             then token_program_address P program else pf_instructions_sysvar_id P) False)
       token_program_all"

section \<open>BeginSettle\<close>

record Pull =
  pl_destination :: pubkey
  pl_amount :: u64

record BeginSettle =
  bsb_program_id :: pubkey
  bsb_state_pda :: pubkey
  bsb_solver :: pubkey
  bsb_finalize_ix_index :: u16
  bsb_auction_id :: "64 word"  \<comment> \<open>an \<open>i64\<close>, as its bits\<close>
  bsb_only_token_program :: "TokenProgram option"
  bsb_order_pdas :: "pubkey list"
  bsb_sell_token_accounts :: "pubkey list"
  bsb_sell_mints :: "pubkey option list"
  bsb_pulls :: "Pull list list"

definition begin_settle_order :: "BeginSettle \<Rightarrow> nat list" where
  "begin_settle_order b = sort_key (\<lambda>i. bsb_order_pdas b ! i) [0..<length (bsb_order_pdas b)]"

definition begin_settle_layout :: "platform \<Rightarrow> BeginSettle \<Rightarrow> instruction" where
  "begin_settle_layout P b =
     (let order = begin_settle_order b;
          counts = map (\<lambda>i. of_nat (length (bsb_pulls b ! i)) :: u8) order;
          amounts = concat (map (\<lambda>pull. to_le 8 (pl_amount pull))
            (concat (map (\<lambda>i. bsb_pulls b ! i) order)))
      in \<lparr>ix_program_id = bsb_program_id b,
          ix_accounts =
            [meta_new_readonly (bsb_solver b) True,
             meta_new_readonly (pf_instructions_sysvar_id P) False,
             meta_new_readonly (bsb_state_pda b) False] @
            token_program_metas P (bsb_only_token_program b) @
            concat (map (\<lambda>i.
              [meta_new (bsb_order_pdas b ! i) False,
               meta_new (bsb_sell_token_accounts b ! i) False,
               meta_new_readonly
                 (case bsb_sell_mints b ! i of None \<Rightarrow> MINT_PLACEHOLDER P | Some mint \<Rightarrow> mint) False] @
              map (\<lambda>pull. meta_new (pl_destination pull) False) (bsb_pulls b ! i)) order),
          ix_data = ix_discriminator BeginSettle # to_le 2 (bsb_finalize_ix_index b) @
            to_le 8 (bsb_auction_id b) @ [of_nat (length (bsb_order_pdas b))] @ counts @ amounts\<rparr>)"

text \<open>Indexing a parallel list that is too short panics.\<close>

definition begin_settle_instruction :: "platform \<Rightarrow> BeginSettle \<Rightarrow> instruction result" where
  "begin_settle_instruction P b =
     bindE (ensure (length (bsb_order_pdas b) \<le> length (bsb_sell_token_accounts b) \<and>
                    length (bsb_order_pdas b) \<le> length (bsb_sell_mints b) \<and>
                    length (bsb_order_pdas b) \<le> length (bsb_pulls b)) Panic)
       (\<lambda>_. Inr (begin_settle_layout P b))"

record 'a SettledOrder =
  so_order_pda :: 'a
  so_sell_token_account :: 'a
  so_sell_mint :: 'a  \<comment> \<open>a \<open>MaybeMint\<close> slot\<close>
  so_destinations :: "'a list"
  so_amounts :: "bytes list"

record 'a SettledOrders =
  sos_order_accounts :: "'a list"
  sos_counts :: "u8 list"
  sos_amounts :: "bytes list"

text \<open>
  The items of \<open>SettledOrders::iter\<close>, in order. Running out of accounts ends the iteration; a
  slice out of range panics, which is the item \<open>Inl Panic\<close>.
\<close>

fun settled_orders_from :: "'a list \<Rightarrow> u8 list \<Rightarrow> bytes list \<Rightarrow> 'a SettledOrder result list" where
  "settled_orders_from rest [] amounts = []"
| "settled_orders_from rest (c # counts) amounts =
     (case rest of
        order_pda # sell_token_account # sell_mint # tail \<Rightarrow>
          if unat c \<le> length tail \<and> unat c \<le> length amounts then
            Inr \<lparr>so_order_pda = order_pda, so_sell_token_account = sell_token_account,
                 so_sell_mint = sell_mint, so_destinations = take (unat c) tail,
                 so_amounts = take (unat c) amounts\<rparr>
            # settled_orders_from (drop (unat c) tail) counts (drop (unat c) amounts)
          else [Inl Panic]
      | _ \<Rightarrow> [])"

definition settled_orders_iter :: "'a SettledOrders \<Rightarrow> 'a SettledOrder result list" where
  "settled_orders_iter orders =
     settled_orders_from (sos_order_accounts orders) (sos_counts orders) (sos_amounts orders)"

record 'a BeginSettleInput =
  bsi_finalize_ix_index :: u16
  bsi_auction_id :: "64 word"
  bsi_solver_account :: 'a
  bsi_instructions_sysvar_account :: 'a
  bsi_state_pda_account :: 'a
  bsi_orders :: "'a SettledOrders"

definition begin_settle_parse_body :: "bytes \<Rightarrow> 'a list \<Rightarrow> 'a BeginSettleInput result" where
  "begin_settle_parse_body data accounts =
     bindE (recover_counterpart data) (\<lambda>(finalize_ix_index, body).
     case accounts of
       solver # instructions_sysvar # state_pda # _ # _ # order_accounts \<Rightarrow>
         bindE (ensure (8 \<le> length body) InvalidInstructionData) (\<lambda>_.
         case drop 8 body of
           [] \<Rightarrow> Inl InvalidInstructionData
         | order_count # body' \<Rightarrow>
             bindE (ensure (unat order_count \<le> length body') InvalidInstructionData) (\<lambda>_.
             let counts = take (unat order_count) body';
                 (amounts, remainder) = as_chunks 8 (drop (unat order_count) body') in
             bindE (ensure (remainder = []) InvalidInstructionData) (\<lambda>_.
             bindE (ok_or (usize_checked_mul (unat order_count) 3) InvalidInstructionData) (\<lambda>three_n.
             bindE (ok_or (usize_checked_add three_n (length amounts)) InvalidInstructionData) (\<lambda>expected.
             if length order_accounts \<noteq> expected then Inl (serr AccountCountNotMatchingOrderCount)
             else if sum_list (map unat counts) \<noteq> length amounts then Inl (serr TransferCountMismatch)
             else Inr \<lparr>bsi_finalize_ix_index = finalize_ix_index, bsi_auction_id = from_le (take 8 body),
                       bsi_solver_account = solver, bsi_instructions_sysvar_account = instructions_sysvar,
                       bsi_state_pda_account = state_pda,
                       bsi_orders = \<lparr>sos_order_accounts = order_accounts, sos_counts = counts,
                         sos_amounts = amounts\<rparr>\<rparr>)))))
     | _ \<Rightarrow> Inl NotEnoughAccountKeys)"

section \<open>FinalizeSettle\<close>

definition FINALIZE_FIXED_ACCOUNTS :: nat where
  "FINALIZE_FIXED_ACCOUNTS = 4"

definition FINALIZE_PUSH_ACCOUNTS :: nat where
  "FINALIZE_PUSH_ACCOUNTS = 3"

definition split_push_bytes :: "bytes \<Rightarrow> (bytes \<times> bytes list) result" where
  "split_push_bytes body =
     bindE (ensure (length body mod 9 = 0) InvalidInstructionData) (\<lambda>_.
     let push_count = length body div 9;
         bumps = take push_count body;
         (amounts, remainder) = as_chunks 8 (drop push_count body) in
     bindE (ensure (remainder = []) InvalidInstructionData) (\<lambda>_. Inr (bumps, amounts)))"

definition finalize_push_data :: "bytes \<Rightarrow> (bytes \<times> bytes list) result" where
  "finalize_push_data instruction_data =
     bindE (recover_discriminator instruction_data) (\<lambda>(_, rest).
     bindE (recover_counterpart rest) (\<lambda>(_, body).
     split_push_bytes body))"

record FinalizeSettle =
  fsb_program_id :: pubkey
  fsb_state_pda :: pubkey
  fsb_begin_ix_index :: u16
  fsb_only_token_program :: "TokenProgram option"
  fsb_source_buffers :: "pubkey list"
  fsb_destinations :: "pubkey list"
  fsb_mints :: "pubkey option list"
  fsb_bumps :: "u8 list"
  fsb_amounts :: "u64 list"

definition finalize_settle_instruction :: "platform \<Rightarrow> FinalizeSettle \<Rightarrow> instruction" where
  "finalize_settle_instruction P b =
    \<lparr>ix_program_id = fsb_program_id b,
     ix_accounts =
       [meta_new_readonly (pf_instructions_sysvar_id P) False,
        meta_new_readonly (fsb_state_pda b) False] @
       token_program_metas P (fsb_only_token_program b) @
       concat (map (\<lambda>((source, destination), mint).
           [meta_new source False, meta_new destination False,
            meta_new_readonly (case mint of None \<Rightarrow> MINT_PLACEHOLDER P | Some m \<Rightarrow> m) False])
         (zip (zip (fsb_source_buffers b) (fsb_destinations b)) (fsb_mints b))),
     ix_data = ix_discriminator FinalizeSettle # to_le 2 (fsb_begin_ix_index b) @ fsb_bumps b @
       concat (map (to_le 8) (fsb_amounts b))\<rparr>"

record 'a Push =
  pu_source_buffer :: 'a
  pu_destination :: 'a
  pu_mint :: 'a  \<comment> \<open>a \<open>MaybeMint\<close> slot\<close>
  pu_bump :: u8
  pu_amount :: u64

record 'a Pushes =
  ps_push_accounts :: "'a list list"
  ps_bumps :: bytes
  ps_amounts :: "bytes list"

definition pushes_iter :: "'a Pushes \<Rightarrow> 'a Push list" where
  "pushes_iter pushes =
     map (\<lambda>((triple, bump), amount).
            \<lparr>pu_source_buffer = triple ! 0, pu_destination = triple ! 1, pu_mint = triple ! 2,
             pu_bump = bump, pu_amount = from_le amount\<rparr>)
       (zip (zip (ps_push_accounts pushes) (ps_bumps pushes)) (ps_amounts pushes))"

record 'a FinalizeSettleInput =
  fsi_begin_ix_index :: u16
  fsi_instructions_sysvar_account :: 'a
  fsi_state_pda_account :: 'a
  fsi_pushes :: "'a Pushes"

definition finalize_settle_parse_body :: "bytes \<Rightarrow> 'a list \<Rightarrow> 'a FinalizeSettleInput result" where
  "finalize_settle_parse_body data accounts =
     bindE (recover_counterpart data) (\<lambda>(begin_ix_index, body).
     case accounts of
       instructions_sysvar # state_pda # _ # _ # push_accounts \<Rightarrow>
         bindE (split_push_bytes body) (\<lambda>(bumps, amounts).
         let (push_triples, remainder) = as_chunks FINALIZE_PUSH_ACCOUNTS push_accounts in
         if remainder \<noteq> [] then Inl (serr AccountCountNotMatchingPushCount)
         else if length push_triples \<noteq> length bumps then Inl (serr AccountCountNotMatchingPushCount)
         else Inr \<lparr>fsi_begin_ix_index = begin_ix_index,
                   fsi_instructions_sysvar_account = instructions_sysvar,
                   fsi_state_pda_account = state_pda,
                   fsi_pushes = \<lparr>ps_push_accounts = push_triples, ps_bumps = bumps,
                     ps_amounts = amounts\<rparr>\<rparr>)
     | _ \<Rightarrow> Inl NotEnoughAccountKeys)"

section \<open>Iterating over a parsed BeginSettle\<close>

lemma recover_counterpart_to_le [simp]: "recover_counterpart (to_le 2 i @ rest) = Inr (i, rest)"
proof -
  obtain a b where ab: "to_le 2 i = [a, b]"
    using length_to_le [of 2 i] by (rule length_2E)
  then have "from_le [a, b] = i" by (simp flip: ab)
  with ab show ?thesis by (simp add: recover_counterpart_def)
qed

lemma recover_counterpart_Inr_iff [result_simps]:
  "recover_counterpart data = Inr (i, rest) \<longleftrightarrow> data = to_le 2 i @ rest"
proof
  assume "recover_counterpart data = Inr (i, rest)"
  then obtain a b where "data = a # b # rest" "i = from_le [a, b]"
    by (auto simp: recover_counterpart_def split: list.splits)
  then show "data = to_le 2 i @ rest" using u16_codec.enc_dec [of "[a, b]"] by simp
qed simp

text \<open>
  When the accounts and amounts add up, every step succeeds: the items are all there, and they
  are the given accounts and amounts, regrouped.
\<close>

lemma settled_orders_from_total:
  assumes "length rest = 3 * length counts + length amounts" and "sum_list (map unat counts) = length amounts"
  shows "\<exists>orders. settled_orders_from rest counts amounts = map Inr orders \<and>
    length orders = length counts \<and>
    (\<forall>o' \<in> set orders. length (so_destinations o') = length (so_amounts o')) \<and>
    concat (map (\<lambda>o'. [so_order_pda o', so_sell_token_account o', so_sell_mint o'] @ so_destinations o') orders) = rest \<and>
    concat (map so_amounts orders) = amounts"
  using assms
proof (induction counts arbitrary: rest amounts)
  case Nil
  then show ?case by simp
next
  case (Cons c counts)
  let ?n = "unat c"
  obtain a b m tail where rest: "rest = a # b # m # tail"
    using Cons.prems by (auto simp: numeral_3_eq_3 length_Suc_conv Suc_length_conv)
  have n: "?n \<le> length tail" "?n \<le> length amounts" using Cons.prems rest by auto
  have "length (drop ?n tail) = 3 * length counts + length (drop ?n amounts)"
    "sum_list (map unat counts) = length (drop ?n amounts)"
    using Cons.prems rest by auto
  from Cons.IH [OF this] obtain os where os:
    "settled_orders_from (drop ?n tail) counts (drop ?n amounts) = map Inr os"
    "length os = length counts" "\<forall>o' \<in> set os. length (so_destinations o') = length (so_amounts o')"
    "concat (map (\<lambda>o'. [so_order_pda o', so_sell_token_account o', so_sell_mint o'] @ so_destinations o') os) = drop ?n tail"
    "concat (map so_amounts os) = drop ?n amounts"
    by blast
  let ?o = "\<lparr>so_order_pda = a, so_sell_token_account = b, so_sell_mint = m,
    so_destinations = take ?n tail, so_amounts = take ?n amounts\<rparr>"
  show ?case
    using os n by (intro exI [of _ "?o # os"]) (simp add: rest)
qed

lemma begin_settle_parse_body_orders:
  assumes "begin_settle_parse_body data accounts = Inr input"
  shows "length (sos_order_accounts (bsi_orders input)) =
      3 * length (sos_counts (bsi_orders input)) + length (sos_amounts (bsi_orders input))"
    and "sum_list (map unat (sos_counts (bsi_orders input))) = length (sos_amounts (bsi_orders input))"
    and "\<forall>a \<in> set (sos_amounts (bsi_orders input)). length a = 8"
  using assms
  by (auto simp: begin_settle_parse_body_def result_simps usize_checked_add_def usize_checked_mul_def
      dest: as_chunks_inverse(2) [rotated] split: if_splits)

section \<open>Built settlements parse back\<close>

lemma unat_of_nat_u8 [simp]: "n < 256 \<Longrightarrow> unat (of_nat n :: u8) = n"
  by (simp add: unsigned_of_nat take_bit_nat_eq_self)

lemma length_token_program_metas [simp]: "length (token_program_metas P only) = 2"
  by (simp add: token_program_metas_def token_program_all_def)

lemma begin_settle_order [simp]:
  "length (begin_settle_order b) = length (bsb_order_pdas b)"
  "set (begin_settle_order b) = {..<length (bsb_order_pdas b)}"
  by (auto simp: begin_settle_order_def)

text \<open>The order PDAs are emitted in increasing order, strictly so when they are distinct.\<close>

lemma begin_settle_order_sorted: "sorted (map (\<lambda>i. bsb_order_pdas b ! i) (begin_settle_order b))"
  by (simp add: begin_settle_order_def)

lemma begin_settle_order_perm:
  "mset (map (\<lambda>i. bsb_order_pdas b ! i) (begin_settle_order b)) = mset (bsb_order_pdas b)"
proof -
  have "mset (map (\<lambda>i. bsb_order_pdas b ! i) (begin_settle_order b)) =
      image_mset (\<lambda>i. bsb_order_pdas b ! i) (mset [0..<length (bsb_order_pdas b)])"
    by (simp add: begin_settle_order_def)
  also have "\<dots> = mset (map (\<lambda>i. bsb_order_pdas b ! i) [0..<length (bsb_order_pdas b)])"
    by (simp only: mset_map)
  finally show ?thesis by (simp only: map_nth)
qed

definition begin_settle_wf :: "BeginSettle \<Rightarrow> bool" where
  "begin_settle_wf b \<longleftrightarrow>
     length (bsb_sell_token_accounts b) = length (bsb_order_pdas b) \<and>
     length (bsb_sell_mints b) = length (bsb_order_pdas b) \<and>
     length (bsb_pulls b) = length (bsb_order_pdas b) \<and>
     length (bsb_order_pdas b) < 256 \<and> (\<forall>pulls \<in> set (bsb_pulls b). length pulls < 256)"

text \<open>What the program is to find: the orders in sorted order, each with its own pulls.\<close>

definition begin_settle_orders :: "platform \<Rightarrow> BeginSettle \<Rightarrow> pubkey SettledOrder list" where
  "begin_settle_orders P b =
     map (\<lambda>i. \<lparr>so_order_pda = bsb_order_pdas b ! i,
               so_sell_token_account = bsb_sell_token_accounts b ! i,
               so_sell_mint = (case bsb_sell_mints b ! i of None \<Rightarrow> MINT_PLACEHOLDER P | Some mint \<Rightarrow> mint),
               so_destinations = map pl_destination (bsb_pulls b ! i),
               so_amounts = map (\<lambda>pull. to_le 8 (pl_amount pull)) (bsb_pulls b ! i)\<rparr>)
       (begin_settle_order b)"

definition order_account_list :: "'a SettledOrder \<Rightarrow> 'a list" where
  "order_account_list o' =
     [so_order_pda o', so_sell_token_account o', so_sell_mint o'] @ so_destinations o'"

definition begin_settle_input :: "platform \<Rightarrow> BeginSettle \<Rightarrow> pubkey BeginSettleInput" where
  "begin_settle_input P b =
    \<lparr>bsi_finalize_ix_index = bsb_finalize_ix_index b, bsi_auction_id = bsb_auction_id b,
     bsi_solver_account = bsb_solver b, bsi_instructions_sysvar_account = pf_instructions_sysvar_id P,
     bsi_state_pda_account = bsb_state_pda b,
     bsi_orders =
      \<lparr>sos_order_accounts = concat (map order_account_list (begin_settle_orders P b)),
       sos_counts = map (\<lambda>o'. of_nat (length (so_amounts o'))) (begin_settle_orders P b),
       sos_amounts = concat (map so_amounts (begin_settle_orders P b))\<rparr>\<rparr>"

lemma length_order_accounts:
  assumes "\<forall>o' \<in> set orders. length (so_destinations o') = length (so_amounts o')"
  shows "length (concat (map order_account_list orders)) =
    3 * length orders + length (concat (map so_amounts orders))"
  using assms by (induction orders) (simp_all add: order_account_list_def)

lemma sum_order_counts:
  assumes "\<forall>o' \<in> set orders. length (so_amounts o') < 256"
  shows "sum_list (map (\<lambda>o'. unat (of_nat (length (so_amounts o')) :: u8)) orders) =
    length (concat (map so_amounts orders))"
  using assms by (induction orders) simp_all

text \<open>The iterator undoes the layout.\<close>

lemma settled_orders_from_layout:
  assumes "\<forall>o' \<in> set orders. length (so_destinations o') = length (so_amounts o') \<and> length (so_amounts o') < 256"
  shows "settled_orders_from (concat (map order_account_list orders))
      (map (\<lambda>o'. of_nat (length (so_amounts o'))) orders) (concat (map so_amounts orders)) = map Inr orders"
  using assms by (induction orders) (simp_all add: order_account_list_def)

lemma begin_settle_orders_lengths:
  assumes "begin_settle_wf b"
  shows "\<forall>o' \<in> set (begin_settle_orders P b).
    length (so_destinations o') = length (so_amounts o') \<and> length (so_amounts o') < 256"
    "\<forall>o' \<in> set (begin_settle_orders P b). \<forall>a \<in> set (so_amounts o'). length a = 8"
  using assms by (auto simp: begin_settle_orders_def begin_settle_wf_def)

lemma begin_settle_layout_parts:
  "instruction_addresses (begin_settle_layout P b) =
    [bsb_solver b, pf_instructions_sysvar_id P, bsb_state_pda b] @
    map am_pubkey (token_program_metas P (bsb_only_token_program b)) @
    concat (map order_account_list (begin_settle_orders P b))"
  "ix_data (begin_settle_layout P b) = ix_discriminator BeginSettle # to_le 2 (bsb_finalize_ix_index b) @
     to_le 8 (bsb_auction_id b) @ [of_nat (length (bsb_order_pdas b))] @
     map (\<lambda>o'. of_nat (length (so_amounts o'))) (begin_settle_orders P b) @
     concat (concat (map so_amounts (begin_settle_orders P b)))"
proof -
  have "concat (map (\<lambda>pull. to_le 8 (pl_amount pull)) (concat (map (\<lambda>i. bsb_pulls b ! i) is))) =
      concat (concat (map (\<lambda>i. map (\<lambda>pull. to_le 8 (pl_amount pull)) (bsb_pulls b ! i)) is))" for "is"
    by (induction "is") simp_all
  then show "ix_data (begin_settle_layout P b) = ix_discriminator BeginSettle # to_le 2 (bsb_finalize_ix_index b) @
     to_le 8 (bsb_auction_id b) @ [of_nat (length (bsb_order_pdas b))] @
     map (\<lambda>o'. of_nat (length (so_amounts o'))) (begin_settle_orders P b) @
     concat (concat (map so_amounts (begin_settle_orders P b)))"
    by (simp add: begin_settle_layout_def begin_settle_orders_def Let_def comp_def)
qed (simp add: begin_settle_layout_def begin_settle_orders_def order_account_list_def Let_def comp_def map_concat)

lemma length_concat_le: "\<forall>c \<in> set cs. length c \<le> k \<Longrightarrow> length (concat cs) \<le> k * length cs"
  by (induction cs) auto

lemma begin_settle_parse_body_layout:
  assumes wf: "begin_settle_wf b"
  shows "begin_settle_parse_body (tl (ix_data (begin_settle_layout P b)))
    (instruction_addresses (begin_settle_layout P b)) = Inr (begin_settle_input P b)"
proof -
  let ?os = "begin_settle_orders P b" and ?n = "length (bsb_order_pdas b)"
  let ?counts = "map (\<lambda>o'. of_nat (length (so_amounts o')) :: u8) ?os"
  let ?amounts = "concat (map so_amounts ?os)"
  obtain t1 t2 where metas: "map am_pubkey (token_program_metas P (bsb_only_token_program b)) = [t1, t2]"
    using length_token_program_metas [of P] by (metis length_2E length_map)
  have n: "?n < 256" "length ?os = ?n" using wf by (simp_all add: begin_settle_wf_def begin_settle_orders_def)
  have chunks: "as_chunks 8 (concat ?amounts) = (?amounts, [])"
    using as_chunks_concat [of 8 ?amounts "[]"] begin_settle_orders_lengths(2) [OF wf, of P] by auto
  have len: "length (concat (map order_account_list ?os)) = 3 * ?n + length ?amounts"
    using length_order_accounts [of ?os] begin_settle_orders_lengths(1) [OF wf, of P] n by auto
  have small: "3 * ?n + length ?amounts < 2 ^ 64"
  proof -
    have "length ?amounts \<le> 256 * length ?os"
      using begin_settle_orders_lengths(1) [OF wf, of P] length_concat_le [of "map so_amounts ?os" 256]
      by (simp add: less_imp_le)
    with n show ?thesis by simp
  qed
  have sum: "sum_list (map unat ?counts) = length ?amounts"
    using sum_order_counts [of ?os] begin_settle_orders_lengths(1) [OF wf, of P] by (simp add: comp_def)
  show ?thesis
    unfolding begin_settle_layout_parts metas
    using n chunks len small sum
    by (simp add: begin_settle_parse_body_def begin_settle_input_def usize_checked_mul_def
        usize_checked_add_def)
qed

interpretation begin_settle_codec: instruction_codec BeginSettle begin_settle_wf "begin_settle_layout P"
  begin_settle_parse_body "begin_settle_input P" for P
  by unfold_locales (simp_all add: begin_settle_parse_body_layout, simp_all add: begin_settle_layout_parts)

definition finalize_settle_wf :: "FinalizeSettle \<Rightarrow> bool" where
  "finalize_settle_wf b \<longleftrightarrow>
     length (fsb_destinations b) = length (fsb_source_buffers b) \<and>
     length (fsb_mints b) = length (fsb_source_buffers b) \<and>
     length (fsb_bumps b) = length (fsb_source_buffers b) \<and>
     length (fsb_amounts b) = length (fsb_source_buffers b)"

definition finalize_settle_input :: "platform \<Rightarrow> FinalizeSettle \<Rightarrow> pubkey FinalizeSettleInput" where
  "finalize_settle_input P b =
    \<lparr>fsi_begin_ix_index = fsb_begin_ix_index b,
     fsi_instructions_sysvar_account = pf_instructions_sysvar_id P,
     fsi_state_pda_account = fsb_state_pda b,
     fsi_pushes =
      \<lparr>ps_push_accounts =
         map (\<lambda>((source, destination), mint).
           [source, destination, case mint of None \<Rightarrow> MINT_PLACEHOLDER P | Some m \<Rightarrow> m])
         (zip (zip (fsb_source_buffers b) (fsb_destinations b)) (fsb_mints b)),
       ps_bumps = fsb_bumps b,
       ps_amounts = map (to_le 8) (fsb_amounts b)\<rparr>\<rparr>"

lemma split_push_bytes_layout:
  assumes "length bumps = length amounts"
  shows "split_push_bytes (bumps @ concat (map (to_le 8) amounts)) = Inr (bumps, map (to_le 8) (amounts :: u64 list))"
proof -
  let ?body = "bumps @ concat (map (to_le 8) amounts)"
  have "length ?body = 9 * length bumps"
    using assms u64_codec.length_concat_enc [of amounts] by simp
  then have "length ?body mod 9 = 0" "length ?body div 9 = length bumps" by simp_all
  then show ?thesis
    by (simp only: split_push_bytes_def ensure_simps bindE_simps Let_def simp_thms append_eq_conv_conj
        take_append drop_append) (simp add: u64_codec.chunks_enc)
qed

lemma map_push_accounts:
  "map am_pubkey (concat (map (\<lambda>((s, d), m). [meta_new s False, meta_new d False, meta_new_readonly (f m) False]) xs)) =
    concat (map (\<lambda>((s, d), m). [s, d, f m]) xs)"
  by (induction xs) auto

lemma finalize_settle_addresses:
  "\<exists>t1 t2. instruction_addresses (finalize_settle_instruction P b) =
    pf_instructions_sysvar_id P # fsb_state_pda b # t1 # t2 #
    concat (map (\<lambda>((source, destination), mint).
        [source, destination, case mint of None \<Rightarrow> MINT_PLACEHOLDER P | Some m \<Rightarrow> m])
      (zip (zip (fsb_source_buffers b) (fsb_destinations b)) (fsb_mints b)))"
proof -
  obtain t1 t2 where "map am_pubkey (token_program_metas P (fsb_only_token_program b)) = [t1, t2]"
    using length_token_program_metas [of P] by (metis length_2E length_map)
  then show ?thesis
    by (simp add: finalize_settle_instruction_def
        map_push_accounts [where f = "case_option (MINT_PLACEHOLDER P) (\<lambda>m. m)"])
qed

interpretation finalize_settle_codec: instruction_codec FinalizeSettle finalize_settle_wf
  "finalize_settle_instruction P" finalize_settle_parse_body "finalize_settle_input P" for P
proof unfold_locales
  fix b assume wf: "finalize_settle_wf b"
  obtain t1 t2 where addresses: "instruction_addresses (finalize_settle_instruction P b) =
    pf_instructions_sysvar_id P # fsb_state_pda b # t1 # t2 #
    concat (map (\<lambda>((source, destination), mint).
        [source, destination, case mint of None \<Rightarrow> MINT_PLACEHOLDER P | Some m \<Rightarrow> m])
      (zip (zip (fsb_source_buffers b) (fsb_destinations b)) (fsb_mints b)))"
    using finalize_settle_addresses [of P b] by (elim exE)
  show "finalize_settle_parse_body (tl (ix_data (finalize_settle_instruction P b)))
      (instruction_addresses (finalize_settle_instruction P b)) = Inr (finalize_settle_input P b)"
    unfolding addresses using wf
    by (simp add: finalize_settle_parse_body_def finalize_settle_instruction_def finalize_settle_wf_def
        finalize_settle_input_def split_push_bytes_layout as_chunks_map case_prod_beta
        FINALIZE_PUSH_ACCOUNTS_def)
qed (simp_all add: finalize_settle_instruction_def)

section \<open>What introspection of FinalizeSettle sees\<close>

lemma split_push_bytes_Inr:
  assumes "split_push_bytes body = Inr (bumps, amounts)"
  shows "body = bumps @ concat amounts" and "length amounts = length bumps"
    and "\<forall>a \<in> set amounts. length a = 8"
proof -
  let ?n = "length body div 9"
  have parts: "length body mod 9 = 0" "bumps = take ?n body" "as_chunks 8 (drop ?n body) = (amounts, [])"
    using assms by (auto simp: split_push_bytes_def result_simps)
  have chunks: "drop ?n body = concat amounts" "\<forall>a \<in> set amounts. length a = 8"
    using as_chunks_inverse [OF _ parts(3)] by simp_all
  show "\<forall>a \<in> set amounts. length a = 8" by (rule chunks(2))
  show "body = bumps @ concat amounts"
    using parts(2) chunks(1) append_take_drop_id [of ?n body] by simp
  have "length body - ?n = 8 * length amounts"
    using arg_cong [OF chunks(1), of length] length_concat_chunks [OF chunks(2)] by simp
  moreover have "length body = 9 * ?n" using parts(1) by auto
  ultimately show "length amounts = length bumps" using parts(2) by simp
qed

text \<open>
  The bumps and amounts that \<open>BeginSettle\<close> recovers from its counterpart are those the
  counterpart parses from its own data.
\<close>

lemma finalize_push_data_agrees:
  assumes "instruction_parse FinalizeSettle finalize_settle_parse_body data accounts = Inr input"
  shows "finalize_push_data data = Inr (ps_bumps (fsi_pushes input), ps_amounts (fsi_pushes input))"
    and "length (ps_amounts (fsi_pushes input)) = length (ps_bumps (fsi_pushes input))"
    and "length (ps_push_accounts (fsi_pushes input)) = length (ps_bumps (fsi_pushes input))"
  using assms
  by (auto simp: finalize_settle_parse_body_def finalize_push_data_def result_simps
      simp del: ix_discriminator.simps dest: split_push_bytes_Inr(2) split: if_splits)

section \<open>Property\<close>

text \<open>
  A built \<open>BeginSettle\<close> parses back: the program finds every order of the builder once, sorted by
  address, each with its own sell account, mint, destinations and amounts, and the iterator over
  the orders never runs past the accounts or amounts.
\<close>

theorem begin_settle_roundtrip:
  assumes "begin_settle_wf b" and "begin_settle_instruction P b = Inr ix"
  shows "\<exists>input. instruction_parse BeginSettle begin_settle_parse_body (ix_data ix) (instruction_addresses ix) = Inr input \<and>
    bsi_finalize_ix_index input = bsb_finalize_ix_index b \<and> bsi_solver_account input = bsb_solver b \<and>
    settled_orders_iter (bsi_orders input) = map Inr (begin_settle_orders P b) \<and>
    sorted (map so_order_pda (begin_settle_orders P b)) \<and>
    mset (map so_order_pda (begin_settle_orders P b)) = mset (bsb_order_pdas b)"
proof -
  have "ix = begin_settle_layout P b"
    using assms(2) by (auto simp: begin_settle_instruction_def result_simps)
  moreover have pdas: "map so_order_pda (begin_settle_orders P b) = map (\<lambda>i. bsb_order_pdas b ! i) (begin_settle_order b)"
    by (simp add: begin_settle_orders_def comp_def)
  have "settled_orders_iter (bsi_orders (begin_settle_input P b)) = map Inr (begin_settle_orders P b)"
    using settled_orders_from_layout [OF begin_settle_orders_lengths(1) [OF assms(1), of P]]
    by (simp add: settled_orders_iter_def begin_settle_input_def)
  ultimately show ?thesis
    using begin_settle_codec.parse_build [OF assms(1), of P] begin_settle_order_sorted [of b] begin_settle_order_perm [of b]
    unfolding pdas by (intro exI [of _ "begin_settle_input P b"]) (simp add: begin_settle_input_def)
qed

end
