(* ===== verification/Runtime.thy ===== *)
theory Runtime
  imports SettleInstructions
begin

text \<open>
  What the instruction handlers share (\<open>programs/settlement/src/processor/utils\<close>): detection of
  cross-program calls, direct lamport moves, canonical account creation, solver authentication,
  validation of the settlement counterpart, and the token-program calls. State is passed
  explicitly: an operation that changes accounts returns them. The lemmas show that a lamport
  move conserves the total and creates nothing, that account creation keeps the frame of the
  program's accounts, and which accounts pass solver authentication.
\<close>

section \<open>Cross-program calls and borrows\<close>

definition TRANSACTION_LEVEL_STACK_HEIGHT :: nat where
  "TRANSACTION_LEVEL_STACK_HEIGHT = 1"

definition is_cpi_call :: "platform \<Rightarrow> bool" where
  "is_cpi_call P = (pf_stack_height P > TRANSACTION_LEVEL_STACK_HEIGHT)"

text \<open>
  \<open>AccountView::try_borrow\<close>: refused while the handler holds a mutable borrow of the same
  account's data.
\<close>

definition try_borrow :: "pubkey list \<Rightarrow> accounts \<Rightarrow> account_view \<Rightarrow> bytes result" where
  "try_borrow borrowed accs v =
     (if av_address v \<in> set borrowed then Inl AccountBorrowFailed else Inr (acc_data (view_account accs v)))"

section \<open>Lamports\<close>

definition move_lamports :: "account_view \<Rightarrow> account_view \<Rightarrow> u64 \<Rightarrow> accounts \<Rightarrow> accounts result" where
  "move_lamports from to amount accs =
     (if av_address from = av_address to then Inr accs
      else bindE (ok_or (checked_sub (acc_lamports (view_account accs from)) amount) ArithmeticOverflow) (\<lambda>debited.
           bindE (ok_or (checked_add (acc_lamports (view_account accs to)) amount) ArithmeticOverflow) (\<lambda>credited.
           Inr (set_lamports (av_address to) credited (set_lamports (av_address from) debited accs)))))"

section \<open>Canonical accounts\<close>

record CanonicalPda =
  cp_program_id :: pubkey
  cp_payer :: account_view
  cp_pda :: account_view
  cp_size :: u64
  cp_owner :: pubkey
  cp_seeds :: "bytes list"

definition create_idempotent :: "platform \<Rightarrow> CanonicalPda \<Rightarrow> accounts \<Rightarrow> (bool \<times> u8 \<times> accounts) result" where
  "create_idempotent P c accs =
     (let (canonical, bump) = pf_find_program_address P (cp_seeds c) (cp_program_id c) in
      if av_address (cp_pda c) = canonical \<and> acc_owner (view_account accs (cp_pda c)) = cp_owner c
      then Inr (False, bump, accs)
      else
        bindE (pf_rent_minimum P (unat (cp_size c))) (\<lambda>_.
        bindE (pf_invoke P [] (CreateAccountAllowPrefund (cp_payer c) (cp_pda c) (cp_size c) (cp_owner c)
          [cp_seeds c @ [[bump]]]) accs) (\<lambda>accs'.
        Inr (True, bump, accs'))))"

definition create_new :: "platform \<Rightarrow> CanonicalPda \<Rightarrow> accounts \<Rightarrow> (u8 \<times> accounts) result" where
  "create_new P c accs =
     bindE (create_idempotent P c accs) (\<lambda>(created, bump, accs').
     if created then Inr (bump, accs') else Inl AccountAlreadyInitialized)"

section \<open>Authentication\<close>

text \<open>\<open>with_state_pda_signer\<close>: run with the state PDA's signer seeds.\<close>

definition with_state_pda_signer :: "platform \<Rightarrow> (bytes list list \<Rightarrow> 'r) \<Rightarrow> 'r" where
  "with_state_pda_signer P f = f [STATE_PDA_SIGNER_SEEDS P]"

definition require_solver :: "accounts \<Rightarrow> account_view \<Rightarrow> account_view \<Rightarrow> unit result" where
  "require_solver accs state_pda_account solver_account =
     bindE (try_borrow [] accs state_pda_account) (\<lambda>d.
     bindE (state_attach d) (\<lambda>state.
     if \<not> av_is_signer solver_account \<or> \<not> is_solver state (av_address solver_account)
     then Inl (serr UnauthorizedSolver) else Inr ()))"

section \<open>The settlement counterpart\<close>

text \<open>\<open>Instructions::try_from\<close> and \<open>load_instruction_at\<close> of the instructions sysvar.\<close>

definition instructions_try_from :: "platform \<Rightarrow> account_view \<Rightarrow> instruction list result" where
  "instructions_try_from P v =
     bindE (ensure (av_address v = pf_instructions_sysvar_id P) UnsupportedSysvar) (\<lambda>_.
     Inr (pf_instructions P))"

definition load_instruction_at :: "instruction list \<Rightarrow> nat \<Rightarrow> instruction result" where
  "load_instruction_at instructions i =
     (if i < length instructions then Inr (instructions ! i) else Inl InvalidInstructionData)"

definition validate_counterpart ::
  "pubkey \<Rightarrow> instruction list \<Rightarrow> u16 \<Rightarrow> u16 \<Rightarrow> SettlementInstruction \<Rightarrow> unit result" where
  "validate_counterpart prog instructions current_index counterpart_index expected_discriminator =
     bindE (map_err (\<lambda>_. serr MissingCounterpartInstruction)
       (load_instruction_at instructions (unat counterpart_index))) (\<lambda>counterpart_ix.
     if ix_program_id counterpart_ix \<noteq> prog then Inl (serr CounterpartIsExternal)
     else
       bindE (map_err (\<lambda>_. serr InvalidCounterpartDiscriminator)
         (recover_discriminator (ix_data counterpart_ix))) (\<lambda>(their_discriminator, remaining_data).
       bindE (map_err (\<lambda>_. serr InvalidCounterpartCounterpart)
         (recover_counterpart remaining_data)) (\<lambda>(their_counterpart_ix, _).
       if their_discriminator \<noteq> expected_discriminator \<or> their_counterpart_ix \<noteq> current_index
       then Inl (serr MismatchedCounterpartDiscriminator) else Inr ())))"

section \<open>Token programs\<close>

definition BASE_TOKEN_ACCOUNT_LEN :: u64 where
  "BASE_TOKEN_ACCOUNT_LEN = 165"

definition owning_token_program :: "platform \<Rightarrow> accounts \<Rightarrow> account_view \<Rightarrow> TokenProgram result" where
  "owning_token_program P accs v = token_program_try_from P (acc_owner (view_account accs v))"

text \<open>The data length of a new token account, and the accounts after the query.\<close>

definition token_account_len ::
  "platform \<Rightarrow> TokenProgram \<Rightarrow> account_view \<Rightarrow> accounts \<Rightarrow> (u64 \<times> accounts) result" where
  "token_account_len P token_program mint accs =
     (case token_program of
        SplToken \<Rightarrow> Inr (BASE_TOKEN_ACCOUNT_LEN, accs)
      | Token2022 \<Rightarrow>
          (let query = GetAccountDataSize (token_program_address P Token2022) mint in
           bindE (pf_invoke P [] query accs) (\<lambda>accs'.
           bindE (ok_or (pf_return_data P query accs') (serr BufferSizeUnavailable)) (\<lambda>(program_id, reported).
           if program_id \<noteq> token_program_address P Token2022 then Inl (serr BufferSizeUnavailable)
           else if length reported = 8 then Inr (from_le reported, accs')
           else Inl (serr BufferSizeUnavailable)))))"

type_synonym MintDecimals = "(account_view \<times> u8) option"

definition read_mint_decimals ::
  "platform \<Rightarrow> pubkey list \<Rightarrow> TokenProgram \<Rightarrow> account_view \<Rightarrow> accounts \<Rightarrow> MintDecimals result" where
  "read_mint_decimals P borrowed token_program mint accs =
     (case maybe_mint_get P av_address mint of
        None \<Rightarrow> Inr None
      | Some account \<Rightarrow>
          bindE (map_err (\<lambda>_. serr InvalidMint)
            (bindE (try_borrow borrowed accs account) (\<lambda>_.
             case token_program of
               SplToken \<Rightarrow> pf_spl_mint_decimals P (view_account accs account)
             | Token2022 \<Rightarrow> pf_token_2022_mint_decimals P (view_account accs account)))) (\<lambda>decimals.
          Inr (Some (account, decimals))))"

text \<open>\<open>TransferMaybeChecked::invoke\<close>: the invocation it issues, and its effect.\<close>

fun transfer_maybe_checked ::
  "platform \<Rightarrow> TokenProgram \<Rightarrow> account_view \<Rightarrow> MintDecimals \<Rightarrow> account_view \<Rightarrow> account_view \<Rightarrow> u64 \<Rightarrow>
   bytes list list \<Rightarrow> cpi" where
  "transfer_maybe_checked P token_program from None to authority amount signers =
     TokenTransfer (token_program_address P token_program) from to authority amount signers"
| "transfer_maybe_checked P token_program from (Some (mint, decimals)) to authority amount signers =
     TokenTransferChecked (token_program_address P token_program) from mint to authority amount decimals signers"

record TokenAccount =
  tka_mint :: pubkey
  tka_owner :: pubkey
  tka_amount :: u64

definition read_token_account ::
  "platform \<Rightarrow> pubkey list \<Rightarrow> TokenProgram \<Rightarrow> account_view \<Rightarrow> accounts \<Rightarrow> TokenAccount result" where
  "read_token_account P borrowed token_program v accs =
     bindE (try_borrow borrowed accs v) (\<lambda>_.
     bindE (case token_program of
              SplToken \<Rightarrow> pf_spl_account P (view_account accs v)
            | Token2022 \<Rightarrow> pf_token_2022_account P (view_account accs v)) (\<lambda>(mint, owner, amount).
     Inr \<lparr>tka_mint = mint, tka_owner = owner, tka_amount = amount\<rparr>))"

section \<open>Lemmas\<close>

lemma try_borrow_nothing [simp]: "try_borrow [] accs v = Inr (acc_data (view_account accs v))"
  by (simp add: try_borrow_def)

lemma try_borrow_Inr_iff [result_simps]:
  "try_borrow borrowed accs v = Inr d \<longleftrightarrow>
    av_address v \<notin> set borrowed \<and> d = acc_data (view_account accs v)"
  by (auto simp: try_borrow_def)

text \<open>
  A lamport move leaves owners and data alone, touches only the two balances, and conserves
  their sum, aliasing included.
\<close>

lemma move_lamports_frame:
  assumes "move_lamports from to amount accs = Inr accs'"
  shows "acc_owner (accs' a) = acc_owner (accs a)" and "acc_data (accs' a) = acc_data (accs a)"
    and "a \<notin> {av_address from, av_address to} \<Longrightarrow> accs' a = accs a"
  using assms by (auto simp: move_lamports_def result_simps set_lamports_def split: if_splits)

lemma move_lamports_amounts:
  assumes "move_lamports from to amount accs = Inr accs'" and "av_address from \<noteq> av_address to"
  shows "unat (acc_lamports (view_account accs from)) = unat (acc_lamports (view_account accs' from)) + unat amount"
    and "unat (acc_lamports (view_account accs' to)) = unat (acc_lamports (view_account accs to)) + unat amount"
  using assms by (auto simp: move_lamports_def result_simps checked_sub_Some_iff checked_add_Some_iff)

lemma create_idempotent_created:
  "create_idempotent P c accs = Inr (True, bump, accs') \<longleftrightarrow>
    bump = snd (pf_find_program_address P (cp_seeds c) (cp_program_id c)) \<and>
    \<not> (av_address (cp_pda c) = fst (pf_find_program_address P (cp_seeds c) (cp_program_id c)) \<and>
      acc_owner (view_account accs (cp_pda c)) = cp_owner c) \<and>
    (\<exists>minimum. pf_rent_minimum P (unat (cp_size c)) = Inr minimum) \<and>
    pf_invoke P [] (CreateAccountAllowPrefund (cp_payer c) (cp_pda c) (cp_size c) (cp_owner c)
      [cp_seeds c @ [[bump]]]) accs = Inr accs'"
  by (cases "pf_find_program_address P (cp_seeds c) (cp_program_id c)")
    (auto simp: create_idempotent_def bindE_Inr_iff)

lemma create_idempotent_existing:
  "create_idempotent P c accs = Inr (False, bump, accs') \<longleftrightarrow>
    av_address (cp_pda c) = fst (pf_find_program_address P (cp_seeds c) (cp_program_id c)) \<and>
    acc_owner (view_account accs (cp_pda c)) = cp_owner c \<and>
    bump = snd (pf_find_program_address P (cp_seeds c) (cp_program_id c)) \<and> accs' = accs"
  by (cases "pf_find_program_address P (cp_seeds c) (cp_program_id c)")
    (auto simp: create_idempotent_def bindE_Inr_iff)

lemma create_idempotent_frame:
  assumes "invoke_frame P prog" and "create_idempotent P c accs = Inr (created, bump, accs')"
  shows "owned_frame prog accs accs'"
  using assms by (cases created)
    (auto simp: create_idempotent_created create_idempotent_existing intro: invoke_frameD)

lemma create_new_Inr_iff [result_simps]:
  "create_new P c accs = Inr (bump, accs') \<longleftrightarrow> create_idempotent P c accs = Inr (True, bump, accs')"
  by (auto simp: create_new_def bindE_Inr_iff split: if_splits)

lemma require_solver_Inr_iff [result_simps]:
  "require_solver accs state solver = Inr u \<longleftrightarrow>
    state_attach (acc_data (view_account accs state)) = Inr (acc_data (view_account accs state)) \<and>
    av_is_signer solver \<and> is_solver (acc_data (view_account accs state)) (av_address solver)"
  by (auto simp: require_solver_def result_simps split: if_splits)

lemma load_instruction_at_Inr_iff [result_simps]:
  "load_instruction_at ixs i = Inr ix \<longleftrightarrow> i < length ixs \<and> ix = ixs ! i"
  by (auto simp: load_instruction_at_def)

lemma instructions_try_from_Inr_iff [result_simps]:
  "instructions_try_from P v = Inr ixs \<longleftrightarrow>
    av_address v = pf_instructions_sysvar_id P \<and> ixs = pf_instructions P"
  by (auto simp: instructions_try_from_def result_simps)

text \<open>What passes the counterpart check, read off the transaction.\<close>

lemma validate_counterpart_Inr_iff [result_simps]:
  "validate_counterpart prog ixs current counterpart expected = Inr u \<longleftrightarrow>
    unat counterpart < length ixs \<and> ix_program_id (ixs ! unat counterpart) = prog \<and>
    (\<exists>body. ix_data (ixs ! unat counterpart) = ix_discriminator expected # to_le 2 current @ body)"
  by (auto simp: validate_counterpart_def result_simps split: if_splits)

section \<open>The invariant of the program's accounts\<close>

text \<open>The rules of the runtime that the handlers rely on, together.\<close>

definition runtime_rules :: "platform \<Rightarrow> pubkey \<Rightarrow> bool" where
  "runtime_rules P prog \<longleftrightarrow>
     invoke_frame P prog \<and> create_account_spec P \<and> resize_spec P \<and> close_spec P"

text \<open>Every order account the program owns satisfies the fill invariant.\<close>

definition orders_inv :: "pubkey \<Rightarrow> accounts \<Rightarrow> bool" where
  "orders_inv prog accs \<longleftrightarrow> (\<forall>a. acc_owner (accs a) = prog \<longrightarrow> order_inv (acc_data (accs a)))"

lemma orders_inv_frame:
  "orders_inv prog accs \<Longrightarrow> owned_frame prog accs accs' \<Longrightarrow> orders_inv prog accs'"
  unfolding orders_inv_def owned_frame_def by (metis order_inv_zeroed)

lemma orders_inv_invoke:
  "orders_inv prog accs \<Longrightarrow> invoke_frame P prog \<Longrightarrow> pf_invoke P b c accs = Inr accs' \<Longrightarrow> orders_inv prog accs'"
  by (blast intro: orders_inv_frame invoke_frameD)

lemma orders_inv_set_data:
  "orders_inv prog accs \<Longrightarrow> order_inv d \<Longrightarrow> orders_inv prog (set_data a d accs)"
  by (simp add: orders_inv_def)

lemma orders_inv_lamports:
  "orders_inv prog accs \<Longrightarrow>
    (\<And>a. acc_owner (accs' a) = acc_owner (accs a) \<and> acc_data (accs' a) = acc_data (accs a)) \<Longrightarrow>
    orders_inv prog accs'"
  by (simp add: orders_inv_def)

text \<open>An account that starts with another discriminator is not an order.\<close>

lemma order_inv_state:
  "slice 0 1 d \<noteq> [ORDER_DISCRIMINATOR] \<Longrightarrow> order_inv d"
  by (simp add: order_inv_def result_simps)

lemma state_discriminator_not_order: "STATE_DISCRIMINATOR \<noteq> ORDER_DISCRIMINATOR"
  by (simp add: STATE_DISCRIMINATOR_def ORDER_DISCRIMINATOR_def)

section \<open>How orders evolve\<close>

text \<open>
  What one instruction may do to an order: its intent, payer and bump are fixed, the counters
  only grow, and a cancelled order stays cancelled with its counters frozen.
\<close>

definition order_evolves :: "bytes \<Rightarrow> bytes \<Rightarrow> bool" where
  "order_evolves d d' \<longleftrightarrow>
     order_attach d' = Inr d' \<and> order_intent_bytes d' = order_intent_bytes d \<and>
     order_created_by d' = order_created_by d \<and> order_bump_slice d' = order_bump_slice d \<and>
     fa_withdrawn (order_filled_amounts d) \<le> fa_withdrawn (order_filled_amounts d') \<and>
     fa_received (order_filled_amounts d) \<le> fa_received (order_filled_amounts d') \<and>
     (order_cancelled d = Inr True \<longrightarrow>
        order_cancelled d' = Inr True \<and> order_filled_amounts d' = order_filled_amounts d)"

abbreviation is_order :: "pubkey \<Rightarrow> accounts \<Rightarrow> pubkey \<Rightarrow> bool" where
  "is_order prog accs a \<equiv> acc_owner (accs a) = prog \<and> order_attach (acc_data (accs a)) = Inr (acc_data (accs a))"

text \<open>Every order evolves, and none is closed; or, in the second form, some may be closed.\<close>

definition orders_grow :: "pubkey \<Rightarrow> accounts \<Rightarrow> accounts \<Rightarrow> bool" where
  "orders_grow prog accs accs' \<longleftrightarrow>
     (\<forall>a. is_order prog accs a \<longrightarrow>
        acc_owner (accs' a) = prog \<and> order_evolves (acc_data (accs a)) (acc_data (accs' a)))"

definition orders_evolve :: "pubkey \<Rightarrow> accounts \<Rightarrow> accounts \<Rightarrow> bool" where
  "orders_evolve prog accs accs' \<longleftrightarrow>
     (\<forall>a. is_order prog accs a \<longrightarrow> acc_data (accs' a) = [] \<or>
        acc_owner (accs' a) = prog \<and> order_evolves (acc_data (accs a)) (acc_data (accs' a)))"

lemma order_evolves_refl [simp]: "order_attach d = Inr d \<Longrightarrow> order_evolves d d"
  by (simp add: order_evolves_def)

lemma order_evolves_trans: "order_evolves a b \<Longrightarrow> order_evolves b c \<Longrightarrow> order_evolves a c"
  unfolding order_evolves_def by (auto intro: order_trans)

lemma order_evolves_attached: "order_evolves d d' \<Longrightarrow> order_attach d' = Inr d'"
  by (simp add: order_evolves_def)

lemma orders_grow_refl [simp]: "orders_grow prog accs accs"
  by (simp add: orders_grow_def)

lemma orders_grow_trans: "orders_grow prog a b \<Longrightarrow> orders_grow prog b c \<Longrightarrow> orders_grow prog a c"
proof (unfold orders_grow_def, intro allI impI)
  fix x assume ab: "\<forall>x. is_order prog a x \<longrightarrow> acc_owner (b x) = prog \<and> order_evolves (acc_data (a x)) (acc_data (b x))"
    and bc: "\<forall>x. is_order prog b x \<longrightarrow> acc_owner (c x) = prog \<and> order_evolves (acc_data (b x)) (acc_data (c x))"
    and "is_order prog a x"
  then have b: "acc_owner (b x) = prog" "order_evolves (acc_data (a x)) (acc_data (b x))" by blast+
  with bc order_evolves_attached have "acc_owner (c x) = prog" "order_evolves (acc_data (b x)) (acc_data (c x))"
    by blast+
  with b show "acc_owner (c x) = prog \<and> order_evolves (acc_data (a x)) (acc_data (c x))"
    by (blast intro: order_evolves_trans)
qed

lemma orders_grow_evolve: "orders_grow prog accs accs' \<Longrightarrow> orders_evolve prog accs accs'"
  by (simp add: orders_grow_def orders_evolve_def)

lemma orders_grow_frame: "owned_frame prog accs accs' \<Longrightarrow> orders_grow prog accs accs'"
  by (auto simp: orders_grow_def dest: owned_frame_owned)

lemma orders_grow_lamports:
  "(\<And>a. acc_owner (accs' a) = acc_owner (accs a) \<and> acc_data (accs' a) = acc_data (accs a)) \<Longrightarrow>
    orders_grow prog accs accs'"
  by (simp add: orders_grow_def)

text \<open>Overwriting one account whose content was not an order, or with what it evolves to.\<close>

lemma orders_grow_set_data:
  "(is_order prog accs a \<Longrightarrow> order_evolves (acc_data (accs a)) d) \<Longrightarrow> orders_grow prog accs (set_data a d accs)"
  by (simp add: orders_grow_def)

text \<open>An order account is never created anew: creation needs an account without data.\<close>

lemma created_was_no_order:
  assumes rules: "invoke_frame P prog" "create_account_spec P"
    and new: "create_idempotent P c accs = Inr (True, bump, accs')"
  shows "\<not> is_order prog accs (av_address (cp_pda c))"
    and "acc_owner (view_account accs' (cp_pda c)) = cp_owner c"
    and "acc_data (view_account accs' (cp_pda c)) = replicate (unat (cp_size c)) 0"
proof -
  have "pf_invoke P [] (CreateAccountAllowPrefund (cp_payer c) (cp_pda c) (cp_size c) (cp_owner c)
      [cp_seeds c @ [[bump]]]) accs = Inr accs'"
    using new [unfolded create_idempotent_created] by blast
  with rules have frame: "owned_frame prog accs accs'"
    and spec: "acc_owner (view_account accs' (cp_pda c)) = cp_owner c"
      "acc_data (view_account accs' (cp_pda c)) = replicate (unat (cp_size c)) 0"
    unfolding create_account_spec_def by (blast dest: invoke_frameD)+
  show "acc_owner (view_account accs' (cp_pda c)) = cp_owner c"
    "acc_data (view_account accs' (cp_pda c)) = replicate (unat (cp_size c)) 0"
    by (fact spec)+
  show "\<not> is_order prog accs (av_address (cp_pda c))"
  proof
    assume order: "is_order prog accs (av_address (cp_pda c))"
    then have data: "acc_data (view_account accs (cp_pda c)) = replicate (unat (cp_size c)) 0"
      using owned_frame_owned [OF frame] spec by auto
    have "slice 0 1 (acc_data (view_account accs (cp_pda c))) = [ORDER_DISCRIMINATOR]"
      using order by (simp add: order_attach_Inr_iff)
    then show False
      by (cases "unat (cp_size c)") (simp_all add: data slice_def ORDER_DISCRIMINATOR_def)
  qed
qed

section \<open>The contract of a handler\<close>

text \<open>
  Every instruction handler keeps the fill invariant and only evolves orders. A run of such
  handlers, each under its own platform (its own clock, transaction and accounts), keeps the
  invariant too.
\<close>

type_synonym handler = "platform \<Rightarrow> pubkey \<Rightarrow> account_view list \<Rightarrow> bytes \<Rightarrow> accounts \<Rightarrow> accounts result"

definition keeps_orders :: "pubkey \<Rightarrow> accounts \<Rightarrow> accounts \<Rightarrow> bool" where
  "keeps_orders prog accs accs' \<longleftrightarrow> orders_inv prog accs' \<and> orders_evolve prog accs accs'"

lemma keeps_ordersI: "orders_inv prog accs' \<Longrightarrow> orders_grow prog accs accs' \<Longrightarrow> keeps_orders prog accs accs'"
  by (simp add: keeps_orders_def orders_grow_evolve)

lemma frame_keeps_orders:
  "orders_inv prog accs \<Longrightarrow> owned_frame prog accs accs' \<Longrightarrow> keeps_orders prog accs accs'"
  by (blast intro: keeps_ordersI orders_grow_frame orders_inv_frame)

lemma lamports_keep_orders:
  assumes "orders_inv prog accs"
    and "\<And>a. acc_owner (accs' a) = acc_owner (accs a) \<and> acc_data (accs' a) = acc_data (accs a)"
  shows "keeps_orders prog accs accs'"
  using assms by (intro keeps_ordersI orders_grow_lamports) (simp_all add: orders_inv_def)

locale order_preserving =
  fixes handle :: handler
  assumes keeps: "runtime_rules P prog \<Longrightarrow> orders_inv prog accs \<Longrightarrow>
    handle P prog views data accs = Inr accs' \<Longrightarrow> keeps_orders prog accs accs'"
begin

lemma keeps_inv:
  "runtime_rules P prog \<Longrightarrow> orders_inv prog accs \<Longrightarrow> handle P prog views data accs = Inr accs' \<Longrightarrow>
    orders_inv prog accs'"
  using keeps by (auto simp: keeps_orders_def)

lemma cancelled_stays:
  "runtime_rules P prog \<Longrightarrow> orders_inv prog accs \<Longrightarrow> handle P prog views data accs = Inr accs' \<Longrightarrow>
    is_order prog accs a \<Longrightarrow> order_cancelled (acc_data (accs a)) = Inr True \<Longrightarrow>
    acc_data (accs' a) = [] \<or> order_cancelled (acc_data (accs' a)) = Inr True \<and>
      order_filled_amounts (acc_data (accs' a)) = order_filled_amounts (acc_data (accs a))"
  using keeps [of P prog accs views data accs']
  unfolding keeps_orders_def orders_evolve_def order_evolves_def by blast

end

end
