(* ===== verification/OrderHandlers.thy ===== *)
theory OrderHandlers
  imports Runtime
begin

text \<open>
  The handlers that create, cancel and reclaim orders
  (\<open>programs/settlement/src/processor/{create_order,create_settlement_owned_order,cancel_order,reclaim_order}.rs\<close>).
  The lemmas invert each handler: a run that succeeds was authorised by the party the order
  names, started from an unused order address or from an order that may be closed, and left
  the account contents described. Each handler keeps the fill invariant of all orders.
\<close>

section \<open>CreateOrder\<close>

definition process_new_onchain_order ::
  "platform \<Rightarrow> pubkey \<Rightarrow> account_view \<Rightarrow> bytes \<Rightarrow> pubkey \<Rightarrow> account_view \<Rightarrow> bool \<Rightarrow> accounts \<Rightarrow> accounts result" where
  "process_new_onchain_order P prog order_pda intent_bytes expected_owner created_by cancelled accs =
     bindE (ia_attach intent_bytes) (\<lambda>intent.
     if expected_owner \<noteq> ia_owner intent then Inl (serr OwnerMismatch)
     else
       bindE (create_new P
         \<lparr>cp_program_id = prog, cp_payer = created_by, cp_pda = order_pda, cp_size = of_nat ORDER_SIZE,
          cp_owner = prog, cp_seeds = order_pda_seeds (ia_uid P intent)\<rparr> accs) (\<lambda>(bump, accs).
       bindE (try_borrow [] accs order_pda) (\<lambda>bs.
       bindE (order_initialize bs bump cancelled 0 0 (av_address created_by) intent_bytes) (\<lambda>order.
       Inr (set_data (av_address order_pda) order accs)))))"

definition process_create_order :: handler where
  "process_create_order P prog accounts instruction_data accs =
     bindE (instruction_parse CreateOrder create_order_parse_body instruction_data accounts) (\<lambda>input.
     if \<not> av_is_signer (coi_owner input) then Inl MissingRequiredSignature
     else process_new_onchain_order P prog (coi_order_pda input) (coi_intent_bytes input)
       (av_address (coi_owner input)) (coi_created_by input) False accs)"

section \<open>CreateSettlementOwnedOrder\<close>

definition process_create_settlement_owned_order :: handler where
  "process_create_settlement_owned_order P prog accounts instruction_data accs =
     bindE (instruction_parse CreateSettlementOwnedOrder create_settlement_owned_order_parse_body
       instruction_data accounts) (\<lambda>input.
     bindE (validate_is_state_pda P (av_address (csi_state_pda input))) (\<lambda>_.
     bindE (state_from_account (view_account accs (csi_state_pda input))) (\<lambda>state.
     if \<not> av_is_signer (csi_authority input) \<or>
        av_address (csi_authority input) \<noteq> state_authority state SettlementOwnedOrderAuthority
     then Inl (serr UnauthorizedSettlementOwnedOrder)
     else process_new_onchain_order P prog (csi_order_pda input) (csi_intent_bytes input)
       (av_address (csi_state_pda input)) (csi_created_by input) False accs)))"

section \<open>CancelOrder\<close>

definition check_settlement_owned_order_authority ::
  "platform \<Rightarrow> pubkey list \<Rightarrow> account_view \<Rightarrow> account_view option \<Rightarrow> accounts \<Rightarrow> unit result" where
  "check_settlement_owned_order_authority P borrowed signer state_pda accs =
     bindE (ok_or state_pda NotEnoughAccountKeys) (\<lambda>state_pda.
     bindE (validate_is_state_pda P (av_address state_pda)) (\<lambda>_.
     bindE (try_borrow borrowed accs state_pda) (\<lambda>d.
     bindE (state_attach d) (\<lambda>state.
     if av_address signer \<noteq> state_authority state SettlementOwnedOrderAuthority
     then Inl (serr UnauthorizedSettlementOwnedOrder) else Inr ()))))"

definition process_cancel_order :: handler where
  "process_cancel_order P prog accounts instruction_data accs =
     bindE (instruction_parse CancelOrder cancel_order_parse_body instruction_data accounts) (\<lambda>input.
     let owner = cai_owner input; order_pda = cai_order_pda input in
     if \<not> av_is_signer owner then Inl MissingRequiredSignature
     else if acc_owner (view_account accs order_pda) = prog then
       bindE (order_load_from_pda P accs order_pda prog) (\<lambda>order.
       bindE (ia_from_order order) (\<lambda>intent.
       bindE (if ia_owner intent = STATE_PDA P
              then check_settlement_owned_order_authority P [av_address order_pda] owner (cai_state_pda input) accs
              else if av_address owner \<noteq> ia_owner intent then Inl (serr OwnerMismatch)
              else Inr ()) (\<lambda>_.
       Inr (set_data (av_address order_pda) (order_set_cancelled order) accs))))
     else
       bindE (ok_or (cai_intent_bytes input) UninitializedAccount) (\<lambda>intent_bytes.
       bindE (if extract_owner intent_bytes = STATE_PDA P
              then bindE (check_settlement_owned_order_authority P [] owner (cai_state_pda input) accs)
                     (\<lambda>_. Inr (STATE_PDA P))
              else Inr (av_address owner)) (\<lambda>expected_owner.
       process_new_onchain_order P prog order_pda intent_bytes expected_owner (cai_created_by input)
         True accs)))"

section \<open>ReclaimOrder\<close>

definition is_reclaimable ::
  "platform \<Rightarrow> account_view \<Rightarrow> account_view \<Rightarrow> account_view option \<Rightarrow> accounts \<Rightarrow> bool result" where
  "is_reclaimable P order_pda reclaim_recipient owner accs =
     bindE (order_load_from_pda P accs order_pda (program_ID P)) (\<lambda>order.
     if av_address reclaim_recipient \<noteq> order_created_by order then Inl (serr ReclaimRecipientMismatch)
     else
       bindE (ia_from_order order) (\<lambda>intent.
       bindE (fill_progress intent (order_filled_amounts order)) (\<lambda>(filled, order_amount).
       if filled \<ge> order_amount then Inr True
       else
         bindE (pf_clock P) (\<lambda>unix_timestamp.
         if unix_timestamp > int (unat (ia_valid_to intent)) then Inr True
         else
           bindE (order_cancelled order) (\<lambda>cancelled.
           if cancelled then
             bindE (ok_or owner MissingRequiredSignature) (\<lambda>owner.
             if \<not> av_is_signer owner then Inl MissingRequiredSignature
             else if av_address owner \<noteq> ia_owner intent then Inl (serr OwnerMismatch)
             else Inr True)
           else Inr False)))))"

definition process_reclaim_order ::
  "platform \<Rightarrow> account_view list \<Rightarrow> bytes \<Rightarrow> accounts \<Rightarrow> accounts result" where
  "process_reclaim_order P accounts instruction_data accs =
     bindE (instruction_parse ReclaimOrder reclaim_order_parse_body instruction_data accounts) (\<lambda>input.
     let order_pda = av_address (roi_order_pda input); recipient = av_address (roi_reclaim_recipient input) in
     bindE (is_reclaimable P (roi_order_pda input) (roi_reclaim_recipient input) (roi_owner input) accs) (\<lambda>ok.
     if \<not> ok then Inl (serr OrderNotReclaimable)
     else
       bindE (ok_or (checked_add (acc_lamports (accs recipient)) (acc_lamports (accs order_pda)))
         ArithmeticOverflow) (\<lambda>credited.
       let accs = set_lamports recipient credited accs in
       bindE (pf_close P (accs order_pda)) (\<lambda>closed.
       Inr (accs(order_pda := closed))))))"

section \<open>Creation\<close>

lemma length_create_order_intent:
  "create_order_parse_body data accounts = Inr input \<Longrightarrow> length (coi_intent_bytes input) = INTENT_SIZE"
  by (auto simp: create_order_parse_body_def result_simps)

lemma unat_ORDER_SIZE [simp]: "unat (of_nat ORDER_SIZE :: u64) = ORDER_SIZE"
  by (simp add: ORDER_SIZE_def)

text \<open>What a successful creation did.\<close>

lemma process_new_onchain_order_Inr:
  assumes "process_new_onchain_order P prog v intent expected by_v c accs = Inr accs'"
  obtains bump mid order where "check_bytes intent = Inr ()" and "expected = ia_owner intent"
    and "create_idempotent P \<lparr>cp_program_id = prog, cp_payer = by_v, cp_pda = v, cp_size = of_nat ORDER_SIZE,
          cp_owner = prog, cp_seeds = order_pda_seeds (hash_bytes P intent)\<rparr> accs = Inr (True, bump, mid)"
    and "order_initialize (acc_data (view_account mid v)) bump c 0 0 (av_address by_v) intent = Inr order"
    and "accs' = set_data (av_address v) order mid"
  using assms that
  by (auto simp: process_new_onchain_order_def bindE_Inr_iff ia_attach_Inr_iff create_new_Inr_iff
      ia_uid_def split: if_splits)

lemma process_new_onchain_order_keeps:
  assumes rules: "runtime_rules P prog" and inv: "orders_inv prog accs"
    and len: "length intent = INTENT_SIZE"
    and run: "process_new_onchain_order P prog v intent expected by_v c accs = Inr accs'"
  shows "keeps_orders prog accs accs'"
proof -
  let ?c = "\<lparr>cp_program_id = prog, cp_payer = by_v, cp_pda = v, cp_size = of_nat ORDER_SIZE,
          cp_owner = prog, cp_seeds = order_pda_seeds (hash_bytes P intent)\<rparr>"
  from run obtain bump mid order where checked: "check_bytes intent = Inr ()"
    and mid: "create_idempotent P ?c accs = Inr (True, bump, mid)"
    and order: "order_initialize (acc_data (view_account mid v)) bump c 0 0 (av_address by_v) intent = Inr order"
    and accs': "accs' = set_data (av_address v) order mid"
    by (rule process_new_onchain_order_Inr)
  have frame: "owned_frame prog accs mid"
    using create_idempotent_frame [OF _ mid] rules by (simp add: runtime_rules_def)
  have "order_inv order"
    using order_initialize_reads [OF order len] fill_ok_zero [OF checked] by (cases c) (auto simp: order_inv_def)
  then have "orders_inv prog accs'"
    using orders_inv_frame [OF inv frame] by (simp add: accs' orders_inv_set_data)
  moreover have "orders_grow prog mid accs'"
    unfolding accs'
  proof (rule orders_grow_set_data)
    assume "is_order prog mid (av_address v)"
    then have "slice 0 1 (replicate ORDER_SIZE (0 :: u8)) = [ORDER_DISCRIMINATOR]"
      using created_was_no_order(3) [OF _ _ mid, of prog] rules
      by (simp add: runtime_rules_def order_attach_Inr_iff)
    then show "order_evolves (acc_data (mid (av_address v))) order"
      by (simp add: slice_def ORDER_SIZE_def ORDER_DISCRIMINATOR_def)
  qed
  ultimately show ?thesis
    using orders_grow_trans [OF orders_grow_frame [OF frame]] by (simp add: keeps_ordersI)
qed

interpretation create_order_handler: order_preserving process_create_order
  by unfold_locales
    (auto simp: process_create_order_def bindE_Inr_iff instruction_parse_Inr_iff
      dest: process_new_onchain_order_keeps [OF _ _ length_create_order_intent] split: if_splits)

lemma length_create_settlement_owned_order_intent:
  "create_settlement_owned_order_parse_body data accounts = Inr input \<Longrightarrow>
    length (csi_intent_bytes input) = INTENT_SIZE"
  by (auto simp: create_settlement_owned_order_parse_body_def result_simps)

interpretation create_settlement_owned_order_handler:
  order_preserving process_create_settlement_owned_order
  by unfold_locales
    (auto simp: process_create_settlement_owned_order_def bindE_Inr_iff instruction_parse_Inr_iff
      dest: process_new_onchain_order_keeps [OF _ _ length_create_settlement_owned_order_intent]
      split: if_splits)

section \<open>Cancellation\<close>

lemma length_cancel_order_intent:
  "cancel_order_parse_body data accounts = Inr input \<Longrightarrow> cai_intent_bytes input = Some bs \<Longrightarrow>
    length bs = INTENT_SIZE"
  by (auto simp: cancel_order_parse_body_def result_simps split: if_splits)

lemma set_cancelled_keeps:
  assumes inv: "orders_inv prog accs" and order: "order_attach (acc_data (accs a)) = Inr (acc_data (accs a))"
  shows "keeps_orders prog accs (set_data a (order_set_cancelled (acc_data (accs a))) accs)"
proof (rule keeps_ordersI)
  have len: "length (acc_data (accs a)) = ORDER_SIZE" using order by (simp add: order_attach_Inr_iff)
  let ?d = "acc_data (accs a)"
  show "orders_inv prog (set_data a (order_set_cancelled ?d) accs)"
    using inv order_inv_set_cancelled [OF order] by (auto simp: orders_inv_def)
  have "order_evolves ?d (order_set_cancelled ?d)"
    using order order_set_cancelled_reads [OF len] by (simp add: order_evolves_def order_attach_Inr_iff)
  then show "orders_grow prog accs (set_data a (order_set_cancelled ?d) accs)"
    by (simp add: orders_grow_set_data)
qed

interpretation cancel_order_handler: order_preserving process_cancel_order
proof
  fix P prog accs views data accs'
  assume rules: "runtime_rules P prog" and inv: "orders_inv prog accs"
    and run: "process_cancel_order P prog views data accs = Inr accs'"
  from run obtain input where
    body: "cancel_order_parse_body (tl data) views = Inr input" "data \<noteq> []"
    by (auto simp: process_cancel_order_def bindE_Inr_iff instruction_parse_Inr_iff)
  show "keeps_orders prog accs accs'"
  proof (cases "acc_owner (view_account accs (cai_order_pda input)) = prog")
    case True
    with run body have "order_attach (acc_data (view_account accs (cai_order_pda input))) =
        Inr (acc_data (view_account accs (cai_order_pda input)))"
      and "accs' = set_data (av_address (cai_order_pda input))
        (order_set_cancelled (acc_data (view_account accs (cai_order_pda input)))) accs"
      by (auto simp: process_cancel_order_def bindE_Inr_iff instruction_parse_Inr_iff Let_def
          order_load_from_pda_Inr_iff split: if_splits)
    then show ?thesis using set_cancelled_keeps [OF inv] by simp
  next
    case False
    with run body obtain bs expected where "cai_intent_bytes input = Some bs"
      and "process_new_onchain_order P prog (cai_order_pda input) bs expected (cai_created_by input) True accs = Inr accs'"
      by (auto simp: process_cancel_order_def bindE_Inr_iff instruction_parse_Inr_iff Let_def ok_or_Inr_iff
          split: if_splits)
    then show ?thesis
      using process_new_onchain_order_keeps [OF rules inv] length_cancel_order_intent [OF body(1)] by blast
  qed
qed

section \<open>Reclaiming\<close>

text \<open>When an order may be closed: it is filled, or expired, or cancelled and its owner signs.\<close>

definition may_close :: "platform \<Rightarrow> bytes \<Rightarrow> bytes \<Rightarrow> account_view option \<Rightarrow> bool" where
  "may_close P order intent owner =
     (case fill_progress intent (order_filled_amounts order) of
        Inl _ \<Rightarrow> False
      | Inr (filled, order_amount) \<Rightarrow>
          order_amount \<le> filled \<or>
          (case pf_clock P of
             Inl _ \<Rightarrow> False
           | Inr now \<Rightarrow>
               now > int (unat (ia_valid_to intent)) \<or>
               order_cancelled order = Inr True \<and>
               (case owner of
                  None \<Rightarrow> False
                | Some v \<Rightarrow> av_is_signer v \<and> av_address v = ia_owner intent)))"

lemma is_reclaimable_True:
  "is_reclaimable P v r owner accs = Inr True \<longleftrightarrow>
    (let order = acc_data (view_account accs v) in
     order_load_from_pda P accs v (program_ID P) = Inr order \<and>
     av_address r = order_created_by order \<and> ia_from_order order = Inr (order_intent_bytes order) \<and>
     may_close P order (order_intent_bytes order) owner)"
proof -
  let ?d = "acc_data (view_account accs v)"
  consider e where "order_load_from_pda P accs v (program_ID P) = Inl e"
    | "order_load_from_pda P accs v (program_ID P) = Inr ?d"
    by (cases "order_load_from_pda P accs v (program_ID P)") (auto simp: order_load_from_pda_Inr_iff)
  then show ?thesis
  proof cases
    case load: 2
    consider e where "ia_from_order ?d = Inl e" | "ia_from_order ?d = Inr (order_intent_bytes ?d)"
      by (cases "ia_from_order ?d") (auto simp: ia_from_order_Inr_iff)
    then show ?thesis
    proof cases
      case 2
      with load show ?thesis
        by (cases "fill_progress (order_intent_bytes ?d) (order_filled_amounts ?d)"; cases "pf_clock P";
            cases "order_cancelled ?d"; cases owner)
          (auto simp: is_reclaimable_def may_close_def Let_def split: if_splits)
    qed (use load in \<open>simp add: is_reclaimable_def Let_def\<close>)
  qed (simp add: is_reclaimable_def Let_def)
qed

lemma process_reclaim_order_Inr:
  assumes "process_reclaim_order P views data accs = Inr accs'"
  obtains order_v recipient rest credited closed where "views = order_v # recipient # rest"
    and "is_reclaimable P order_v recipient (first rest) accs = Inr True"
    and "unat credited = unat (acc_lamports (view_account accs recipient)) + unat (acc_lamports (view_account accs order_v))"
    and "pf_close P (set_lamports (av_address recipient) credited accs (av_address order_v)) = Inr closed"
    and "accs' = (set_lamports (av_address recipient) credited accs)(av_address order_v := closed)"
  using assms that
  by (auto simp: process_reclaim_order_def reclaim_order_parse_body_def result_simps checked_add_Some_iff
      split: if_splits)

interpretation reclaim_order_handler: order_preserving "\<lambda>P prog. process_reclaim_order P"
proof
  fix P prog accs views data accs'
  assume rules: "runtime_rules P prog" and inv: "orders_inv prog accs"
    and run: "process_reclaim_order P views data accs = Inr accs'"
  from run obtain order_v recipient rest credited closed where
    "views = order_v # recipient # rest" "is_reclaimable P order_v recipient (first rest) accs = Inr True"
    "unat credited = unat (acc_lamports (view_account accs recipient)) + unat (acc_lamports (view_account accs order_v))"
    and close: "pf_close P (set_lamports (av_address recipient) credited accs (av_address order_v)) = Inr closed"
    and accs': "accs' = (set_lamports (av_address recipient) credited accs)(av_address order_v := closed)"
    by (rule process_reclaim_order_Inr)
  have "closed = \<lparr>acc_owner = pf_system_program_id P, acc_lamports = 0, acc_data = []\<rparr>"
    using rules close unfolding runtime_rules_def close_spec_def by blast
  then have "acc_data closed = []" by simp
  moreover have "order_inv []" by (simp add: order_inv_state slice_def)
  ultimately show "keeps_orders prog accs accs'"
    using inv by (auto simp: keeps_orders_def orders_inv_def orders_evolve_def accs')
qed

section \<open>Properties\<close>

text \<open>
  C25: a successful \<open>CreateOrder\<close> was signed by the owner that the intent names, the
  intent is one that decodes, the order did not exist before, and the new order records the intent, the
  payer of its rent and the canonical bump, with nothing filled and not cancelled.
\<close>

theorem create_order_authorised:
  assumes "process_create_order P prog views data accs = Inr accs'"
  shows "\<exists>owner created_by order_pda rest intent i order.
    views = owner # created_by # order_pda # rest \<and> data = ix_discriminator CreateOrder # intent \<and>
    av_is_signer owner \<and> intent_try_from P intent = Inr i \<and> oi_owner i = av_address owner \<and>
    \<not> (av_address order_pda = fst (find_order_pda P prog (intent_uid P i)) \<and>
       acc_owner (view_account accs order_pda) = prog) \<and>
    order = acc_data (view_account accs' order_pda) \<and> order_attach order = Inr order \<and>
    order_bump order = snd (find_order_pda P prog (intent_uid P i)) \<and>
    order_cancelled order = Inr False \<and>
    order_filled_amounts order = \<lparr>fa_withdrawn = 0, fa_received = 0\<rparr> \<and>
    order_created_by order = av_address created_by \<and> order_intent_bytes order = intent_encode P i"
proof -
  obtain owner created_by order_pda x rest intent where
    views: "views = owner # created_by # order_pda # x # rest" and data: "data = ix_discriminator CreateOrder # intent"
    and signer: "av_is_signer owner" and len: "length intent = INTENT_SIZE"
    and run: "process_new_onchain_order P prog order_pda intent (av_address owner) created_by False accs = Inr accs'"
    using assms
    by (auto simp: process_create_order_def create_order_parse_body_def result_simps split: if_splits)
  from run obtain bump mid order where checked: "check_bytes intent = Inr ()"
    and owner: "av_address owner = ia_owner intent"
    and mid: "create_idempotent P \<lparr>cp_program_id = prog, cp_payer = created_by, cp_pda = order_pda,
        cp_size = of_nat ORDER_SIZE, cp_owner = prog, cp_seeds = order_pda_seeds (hash_bytes P intent)\<rparr> accs =
      Inr (True, bump, mid)"
    and order: "order_initialize (acc_data (view_account mid order_pda)) bump False 0 0 (av_address created_by) intent = Inr order"
    and accs': "accs' = set_data (av_address order_pda) order mid"
    by (rule process_new_onchain_order_Inr)
  from checked obtain i where i: "intent_try_from P intent = Inr i"
    using check_bytes_iff_try_from by blast
  then have enc: "intent_encode P i = intent" using len intent_encode_try_from by blast
  have uid: "hash_bytes P intent = intent_uid P i" by (simp add: intent_uid_def enc)
  have created: "bump = snd (find_order_pda P prog (intent_uid P i))"
    "\<not> (av_address order_pda = fst (find_order_pda P prog (intent_uid P i)) \<and>
       acc_owner (view_account accs order_pda) = prog)"
    using mid by (simp_all add: create_idempotent_created uid find_order_pda_def)
  note reads = order_initialize_reads [OF order len]
  show ?thesis
  proof (intro exI conjI)
    show "views = owner # created_by # order_pda # x # rest" by (rule views)
    show "data = ix_discriminator CreateOrder # intent" by (rule data)
    show "oi_owner i = av_address owner" using owner accessor_agrees(1) [OF i] by simp
    show "order = acc_data (view_account accs' order_pda)" by (simp add: accs')
  qed (use signer i created enc reads in simp_all)
qed

text \<open>
  C26: a successful \<open>CreateSettlementOwnedOrder\<close> was signed by the settlement-owned-order
  authority recorded in the canonical state account, and the order it creates is owned by that
  state account.
\<close>

theorem create_settlement_owned_order_authorised:
  assumes "process_create_settlement_owned_order P prog views data accs = Inr accs'"
  shows "\<exists>authority created_by order_pda rest intent i order state.
    views ! 0 = authority \<and> views ! 1 = created_by \<and> views ! 3 = order_pda \<and>
    data = ix_discriminator CreateSettlementOwnedOrder # intent \<and>
    av_address (views ! 2) = STATE_PDA P \<and> state = acc_data (accs (STATE_PDA P)) \<and>
    state_attach state = Inr state \<and> av_is_signer authority \<and>
    av_address authority = state_authority state SettlementOwnedOrderAuthority \<and>
    intent_try_from P intent = Inr i \<and> oi_owner i = STATE_PDA P \<and>
    order = acc_data (view_account accs' order_pda) \<and> order_attach order = Inr order \<and>
    order_cancelled order = Inr False \<and>
    order_filled_amounts order = \<lparr>fa_withdrawn = 0, fa_received = 0\<rparr> \<and>
    order_created_by order = av_address created_by \<and> order_intent_bytes order = intent"
proof -
  obtain authority created_by state_v order_pda x rest intent where
    views: "views = authority # created_by # state_v # order_pda # x # rest"
    and data: "data = ix_discriminator CreateSettlementOwnedOrder # intent"
    and state: "av_address state_v = STATE_PDA P"
      "state_attach (acc_data (accs (STATE_PDA P))) = Inr (acc_data (accs (STATE_PDA P)))"
    and auth: "av_is_signer authority"
      "av_address authority = state_authority (acc_data (accs (STATE_PDA P))) SettlementOwnedOrderAuthority"
    and len: "length intent = INTENT_SIZE"
    and run: "process_new_onchain_order P prog order_pda intent (STATE_PDA P) created_by False accs = Inr accs'"
    using assms
    by (auto simp: process_create_settlement_owned_order_def create_settlement_owned_order_parse_body_def
        state_from_account_def result_simps split: if_splits)
  from run obtain bump mid order where checked: "check_bytes intent = Inr ()"
    and owner: "STATE_PDA P = ia_owner intent"
    and order: "order_initialize (acc_data (view_account mid order_pda)) bump False 0 0 (av_address created_by) intent = Inr order"
    and accs': "accs' = set_data (av_address order_pda) order mid"
    by (rule process_new_onchain_order_Inr) blast
  from checked obtain i where i: "intent_try_from P intent = Inr i"
    using check_bytes_iff_try_from by blast
  show ?thesis
    using views data state auth i owner accessor_agrees(1) [OF i] order_initialize_reads [OF order len]
    by (intro exI [of _ authority] exI [of _ created_by] exI [of _ order_pda] exI [of _ rest]
        exI [of _ intent] exI [of _ i] exI [of _ order] exI [of _ "acc_data (accs (STATE_PDA P))"])
      (auto simp: accs')
qed

lemma extract_owner_accessor: "extract_owner bs = ia_owner bs"
  by (simp add: extract_owner_def ia_owner_def)

lemma check_settlement_owned_order_authority_Inr:
  "check_settlement_owned_order_authority P borrowed signer state_pda accs = Inr u \<Longrightarrow>
    av_address signer = state_authority (acc_data (accs (STATE_PDA P))) SettlementOwnedOrderAuthority"
  by (auto simp: check_settlement_owned_order_authority_def result_simps split: if_splits)

text \<open>Who may cancel an order with a given intent.\<close>

definition may_cancel :: "platform \<Rightarrow> accounts \<Rightarrow> account_view \<Rightarrow> bytes \<Rightarrow> bool" where
  "may_cancel P accs signer intent \<longleftrightarrow>
     av_is_signer signer \<and>
     (if ia_owner intent = STATE_PDA P
      then av_address signer = state_authority (acc_data (accs (STATE_PDA P))) SettlementOwnedOrderAuthority
      else av_address signer = ia_owner intent)"

lemma process_cancel_order_cases:
  assumes "process_cancel_order P prog views data accs = Inr accs'"
  obtains (existing) owner created_by order_v rest where "views = owner # created_by # order_v # rest"
      "acc_owner (view_account accs order_v) = prog"
      "order_load_from_pda P accs order_v prog = Inr (acc_data (view_account accs order_v))"
      "may_cancel P accs owner (order_intent_bytes (acc_data (view_account accs order_v)))"
      "accs' = set_data (av_address order_v) (order_set_cancelled (acc_data (view_account accs order_v))) accs"
  | (fresh) owner created_by order_v rest intent where "views = owner # created_by # order_v # rest"
      "acc_owner (view_account accs order_v) \<noteq> prog" "length intent = INTENT_SIZE"
      "may_cancel P accs owner intent"
      "process_new_onchain_order P prog order_v intent (ia_owner intent) created_by True accs = Inr accs'"
proof -
  from assms obtain input where parse: "cancel_order_parse_body (tl data) views = Inr input"
    and signer: "av_is_signer (cai_owner input)"
    by (auto simp: process_cancel_order_def bindE_Inr_iff instruction_parse_Inr_iff Let_def split: if_splits)
  then obtain rest where views: "views = cai_owner input # cai_created_by input # cai_order_pda input # rest"
    by (auto simp: cancel_order_parse_body_def result_simps split: if_splits)
  have parsed: "instruction_parse CancelOrder cancel_order_parse_body data views = Inr input"
    using assms parse by (auto simp: process_cancel_order_def bindE_Inr_iff instruction_parse_Inr_iff)
  let ?v = "cai_order_pda input" and ?d = "acc_data (view_account accs (cai_order_pda input))"
  show thesis
  proof (cases "acc_owner (view_account accs ?v) = prog")
    case True
    with assms signer have "order_load_from_pda P accs ?v prog = Inr ?d"
      "may_cancel P accs (cai_owner input) (order_intent_bytes ?d)"
      "accs' = set_data (av_address ?v) (order_set_cancelled ?d) accs"
      by (auto simp: process_cancel_order_def parsed bindE_Inr_iff Let_def order_load_from_pda_Inr_iff
          ia_from_order_Inr_iff may_cancel_def dest: check_settlement_owned_order_authority_Inr split: if_splits)
    with views True existing show thesis by blast
  next
    case False
    obtain intent where intent: "cai_intent_bytes input = Some intent"
      using assms signer False
      by (cases "cai_intent_bytes input") (simp_all add: process_cancel_order_def parsed)
    have tail: "bindE (if ia_owner intent = STATE_PDA P
        then bindE (check_settlement_owned_order_authority P [] (cai_owner input) (cai_state_pda input) accs)
          (\<lambda>_. Inr (STATE_PDA P))
        else Inr (av_address (cai_owner input))) (\<lambda>expected.
      process_new_onchain_order P prog ?v intent expected (cai_created_by input) True accs) = Inr accs'"
      using assms signer False intent
      by (simp add: process_cancel_order_def parsed extract_owner_accessor Let_def split del: if_split)
    obtain expected where run: "process_new_onchain_order P prog ?v intent expected (cai_created_by input) True accs = Inr accs'"
      and expected: "if ia_owner intent = STATE_PDA P
        then av_address (cai_owner input) =
          state_authority (acc_data (accs (STATE_PDA P))) SettlementOwnedOrderAuthority
        else expected = av_address (cai_owner input)"
    proof (cases "ia_owner intent = STATE_PDA P")
      case True
      with tail have "check_settlement_owned_order_authority P [] (cai_owner input) (cai_state_pda input) accs = Inr ()"
        "process_new_onchain_order P prog ?v intent (STATE_PDA P) (cai_created_by input) True accs = Inr accs'"
        by (simp_all add: bindE_Inr_iff)
      with True that show thesis using check_settlement_owned_order_authority_Inr by simp
    next
      case False
      with tail that [of "av_address (cai_owner input)"] show thesis by simp
    qed
    have owner: "expected = ia_owner intent"
      using run by (auto elim: process_new_onchain_order_Inr)
    have "may_cancel P accs (cai_owner input) intent"
      using expected owner signer by (auto simp: may_cancel_def split: if_splits)
    with fresh [OF views False length_cancel_order_intent [OF parse intent]] run owner show thesis by blast
  qed
qed

text \<open>
  C27: after a successful \<open>CancelOrder\<close> the order account holds a cancelled order. It was
  signed by the order's owner or, for an order of the state account, by the
  settlement-owned-order authority. An order that existed keeps its intent, payer, bump and
  counters; one that did not is created with nothing filled.
\<close>

theorem cancel_order_authorised:
  assumes "process_cancel_order P prog views data accs = Inr accs'"
  shows "let signer = views ! 0; a = av_address (views ! 2); order = acc_data (accs' a) in
    order_attach order = Inr order \<and> order_cancelled order = Inr True \<and>
    may_cancel P accs signer (order_intent_bytes order) \<and>
    (if acc_owner (accs a) = prog
     then order_evolves (acc_data (accs a)) order \<and>
       order_filled_amounts order = order_filled_amounts (acc_data (accs a)) \<and> (\<forall>b. b \<noteq> a \<longrightarrow> accs' b = accs b)
     else order_filled_amounts order = \<lparr>fa_withdrawn = 0, fa_received = 0\<rparr>)"
  using assms
proof (cases rule: process_cancel_order_cases)
  case (existing owner created_by order_v rest)
  let ?d = "acc_data (view_account accs order_v)"
  have order: "order_attach ?d = Inr ?d" "length ?d = ORDER_SIZE"
    using existing(3) by (auto simp: order_load_from_pda_Inr_iff order_attach_Inr_iff)
  note reads = order_set_cancelled_reads [OF order(2)]
  have "order_evolves ?d (order_set_cancelled ?d)"
    using order reads by (simp add: order_evolves_def order_attach_Inr_iff)
  moreover have "order_attach (order_set_cancelled ?d) = Inr (order_set_cancelled ?d)"
    using order reads by (simp add: order_attach_Inr_iff)
  ultimately show ?thesis
    using existing(1,2,4,5) reads by (simp add: set_data_def)
next
  case (fresh owner created_by order_v rest intent)
  from fresh(5) obtain bump mid order where
    "check_bytes intent = Inr ()" "ia_owner intent = ia_owner intent"
    "create_idempotent P \<lparr>cp_program_id = prog, cp_payer = created_by, cp_pda = order_v, cp_size = of_nat ORDER_SIZE,
          cp_owner = prog, cp_seeds = order_pda_seeds (hash_bytes P intent)\<rparr> accs = Inr (True, bump, mid)"
    and order: "order_initialize (acc_data (view_account mid order_v)) bump True 0 0 (av_address created_by) intent = Inr order"
    and accs': "accs' = set_data (av_address order_v) order mid"
    by (rule process_new_onchain_order_Inr)
  show ?thesis
    using fresh(1,2,4) order_initialize_reads [OF order fresh(3)] by (simp add: accs')
qed

text \<open>
  C28: a successful \<open>ReclaimOrder\<close> closes an order that is filled, expired, or cancelled with
  its owner's signature; the rent goes to the account that paid for it, in full; no other
  account changes.
\<close>

theorem reclaim_order_refunds_payer:
  assumes "close_spec P" and "process_reclaim_order P views data accs = Inr accs'"
  shows "let a = av_address (views ! 0); order = acc_data (accs a); payer = av_address (views ! 1) in
    order_load_from_pda P accs (views ! 0) (program_ID P) = Inr order \<and>
    payer = order_created_by order \<and>
    may_close P order (order_intent_bytes order) (first (drop 2 views)) \<and>
    accs' a = \<lparr>acc_owner = pf_system_program_id P, acc_lamports = 0, acc_data = []\<rparr> \<and>
    (payer \<noteq> a \<longrightarrow> unat (acc_lamports (accs' payer)) =
       unat (acc_lamports (accs payer)) + unat (acc_lamports (accs a)) \<and>
       acc_data (accs' payer) = acc_data (accs payer)) \<and>
    (\<forall>b. b \<noteq> a \<longrightarrow> b \<noteq> payer \<longrightarrow> accs' b = accs b)"
proof -
  from assms(2) obtain order_v recipient rest credited closed where
    views: "views = order_v # recipient # rest"
    and ok: "is_reclaimable P order_v recipient (first rest) accs = Inr True"
    and credited: "unat credited =
      unat (acc_lamports (view_account accs recipient)) + unat (acc_lamports (view_account accs order_v))"
    and close: "pf_close P (set_lamports (av_address recipient) credited accs (av_address order_v)) = Inr closed"
    and accs': "accs' = (set_lamports (av_address recipient) credited accs)(av_address order_v := closed)"
    by (rule process_reclaim_order_Inr)
  have closed: "closed = \<lparr>acc_owner = pf_system_program_id P, acc_lamports = 0, acc_data = []\<rparr>"
    using assms(1) close unfolding close_spec_def by blast
  show ?thesis
    using ok credited unfolding is_reclaimable_True views
    by (simp add: Let_def accs' closed set_lamports_def)
qed

text \<open>
  An order created by \<open>CreateOrder\<close> can be loaded by every later instruction: it lives at the
  address its own intent and recorded bump derive. The account named as the order must not itself
  have signed the transaction, which no program-derived address can do.
\<close>

theorem created_order_loads:
  assumes "create_signer_rule P prog" and "process_create_order P prog views data accs = Inr accs'"
    and "\<not> av_is_signer (views ! 2)"
  shows "order_load_from_pda P accs' (views ! 2) prog = Inr (acc_data (view_account accs' (views ! 2)))"
proof -
  obtain owner created_by order_pda x rest intent where
    views: "views = owner # created_by # order_pda # x # rest" and len: "length intent = INTENT_SIZE"
    and run: "process_new_onchain_order P prog order_pda intent (av_address owner) created_by False accs = Inr accs'"
    using assms(2)
    by (auto simp: process_create_order_def create_order_parse_body_def result_simps split: if_splits)
  from run obtain bump mid order where
    "check_bytes intent = Inr ()" "av_address owner = ia_owner intent"
    and mid: "create_idempotent P \<lparr>cp_program_id = prog, cp_payer = created_by, cp_pda = order_pda,
        cp_size = of_nat ORDER_SIZE, cp_owner = prog, cp_seeds = order_pda_seeds (hash_bytes P intent)\<rparr> accs =
      Inr (True, bump, mid)"
    and order: "order_initialize (acc_data (view_account mid order_pda)) bump False 0 0 (av_address created_by) intent = Inr order"
    and accs': "accs' = set_data (av_address order_pda) order mid"
    by (rule process_new_onchain_order_Inr)
  have "pf_invoke P [] (CreateAccountAllowPrefund created_by order_pda (of_nat ORDER_SIZE) prog
      [order_pda_seeds (hash_bytes P intent) @ [[bump]]]) accs = Inr mid"
    using mid unfolding create_idempotent_created by (elim conjE) simp
  then have "pf_create_program_address P (order_pda_seeds (hash_bytes P intent) @ [[bump]]) prog =
      Some (av_address order_pda)"
    using assms(1,3) views unfolding create_signer_rule_def by fastforce
  then show ?thesis
    using order_initialize_reads [OF order len] views
    by (simp add: order_load_from_pda_Inr_iff order_check_pda_Inr_iff accs' order_intent_uid_def)
qed

end
