(* ===== verification/StateHandlers.thy ===== *)
theory StateHandlers
  imports Runtime
begin

text \<open>
  The handlers of the protocol configuration
  (\<open>programs/settlement/src/processor/{initialize,add_solver,remove_solver,transfer_authority,withdraw_native_sol}.rs\<close>).
  The theorems show who may run each, what it leaves in the state account (through the contract
  \<open>solver_set\<close> of the solver list), and that lamports are neither created nor taken below rent.
\<close>

section \<open>Initialize\<close>

definition process_initialize :: handler where
  "process_initialize P prog accounts instruction_data accs =
     bindE (instruction_parse Initialize initialize_parse_body instruction_data accounts) (\<lambda>input.
     if \<not> av_is_signer (ini_payer input) \<or> av_address (ini_payer input) \<noteq> INITIALIZER
     then Inl MissingRequiredSignature
     else
       bindE (validate_is_state_pda P (av_address (ini_state_pda input))) (\<lambda>_.
       bindE (create_new P
         \<lparr>cp_program_id = prog, cp_payer = ini_payer input, cp_pda = ini_state_pda input,
          cp_size = of_nat WIDTH_HEADER, cp_owner = prog, cp_seeds = STATE_PDA_SEEDS\<rparr> accs) (\<lambda>(_, accs).
       bindE (create_new P
         \<lparr>cp_program_id = prog, cp_payer = ini_payer input, cp_pda = ini_native_sol_buffer input,
          cp_size = 0, cp_owner = prog, cp_seeds = NATIVE_SOL_BUFFER_PDA_SEEDS\<rparr> accs) (\<lambda>(_, accs).
       bindE (try_borrow [] accs (ini_state_pda input)) (\<lambda>bs.
       bindE (state_initialize bs
         \<lparr>sia_manager = ini_manager input, sia_solver_authority = ini_solver_authority input,
          sia_reclaim_authority = ini_reclaim_authority input,
          sia_settlement_owned_order_authority = ini_settlement_owned_order_authority input\<rparr>) (\<lambda>d.
       Inr (set_data (av_address (ini_state_pda input)) d accs)))))))"

section \<open>AddSolver and RemoveSolver\<close>

definition resize_account :: "platform \<Rightarrow> pubkey \<Rightarrow> nat \<Rightarrow> accounts \<Rightarrow> accounts result" where
  "resize_account P a n accs = bindE (pf_resize P (accs a) n) (\<lambda>acc. Inr (accs(a := acc)))"

definition process_add_solver ::
  "platform \<Rightarrow> account_view list \<Rightarrow> bytes \<Rightarrow> accounts \<Rightarrow> accounts result" where
  "process_add_solver P accounts instruction_data accs =
     bindE (instruction_parse AddSolver add_solver_parse_body instruction_data accounts) (\<lambda>input.
     let state_pda = av_address (asi_state_pda input) in
     bindE (validate_is_state_pda P state_pda) (\<lambda>_.
     bindE (state_attach (acc_data (accs state_pda))) (\<lambda>state.
     if \<not> av_is_signer (asi_authority input) \<or>
        av_address (asi_authority input) \<noteq> state_authority state SolverAuthority
     then Inl (serr UnauthorizedSolverManagement)
     else
       bindE (map_err (\<lambda>_. Panic) (grown_len state)) (\<lambda>new_len.
       bindE (pf_rent_minimum P new_len) (\<lambda>minimum.
       let shortfall = saturating_sub minimum (acc_lamports (accs state_pda)) in
       bindE (if 0 < shortfall
              then pf_invoke P [] (SystemTransfer (asi_payer input) (asi_state_pda input) shortfall) accs
              else Inr accs) (\<lambda>accs.
       bindE (resize_account P state_pda new_len accs) (\<lambda>accs.
       bindE (state_attach (acc_data (accs state_pda))) (\<lambda>state.
       bindE (insert_solver (asi_solver input) state) (\<lambda>d.
       Inr (set_data state_pda d accs))))))))))"

definition process_remove_solver ::
  "platform \<Rightarrow> account_view list \<Rightarrow> bytes \<Rightarrow> accounts \<Rightarrow> accounts result" where
  "process_remove_solver P accounts instruction_data accs =
     bindE (instruction_parse RemoveSolver remove_solver_parse_body instruction_data accounts) (\<lambda>input.
     let state_pda = av_address (rsi_state_pda input) in
     bindE (validate_is_state_pda P state_pda) (\<lambda>_.
     bindE (state_attach (acc_data (accs state_pda))) (\<lambda>state.
     if \<not> av_is_signer (rsi_authority input) \<or>
        av_address (rsi_authority input) \<noteq> state_authority state SolverAuthority
     then Inl (serr UnauthorizedSolverManagement)
     else
       bindE (remove_solver (rsi_solver input) state) (\<lambda>(d, new_len).
       bindE (resize_account P state_pda new_len (set_data state_pda d accs)) (\<lambda>accs.
       bindE (pf_rent_minimum P new_len) (\<lambda>minimum.
       bindE (ok_or (checked_sub (acc_lamports (accs state_pda)) minimum) AccountNotRentExempt) (\<lambda>surplus.
       move_lamports (rsi_state_pda input) (rsi_rent_recipient input) surplus accs)))))))"

section \<open>TransferAuthority\<close>

definition process_transfer_authority ::
  "platform \<Rightarrow> account_view list \<Rightarrow> bytes \<Rightarrow> accounts \<Rightarrow> accounts result" where
  "process_transfer_authority P accounts instruction_data accs =
     bindE (instruction_parse TransferAuthority transfer_authority_parse_body instruction_data accounts) (\<lambda>input.
     let state_pda = av_address (tai_state_pda input) in
     bindE (validate_is_state_pda P state_pda) (\<lambda>_.
     if \<not> av_is_signer (tai_signer input) then Inl MissingRequiredSignature
     else
       bindE (state_attach (acc_data (accs state_pda))) (\<lambda>state.
       let signer_key = av_address (tai_signer input) in
       if signer_key \<noteq> state_authority state Manager \<and> signer_key \<noteq> state_authority state (tai_role input)
       then Inl (serr UnauthorizedAuthorityTransfer)
       else Inr (set_data state_pda (state_set_authority (tai_role input) (tai_new_authority input) state) accs))))"

section \<open>WithdrawNativeSol\<close>

definition process_withdraw_native_sol ::
  "platform \<Rightarrow> account_view list \<Rightarrow> bytes \<Rightarrow> accounts \<Rightarrow> accounts result" where
  "process_withdraw_native_sol P accounts instruction_data accs =
     bindE (instruction_parse WithdrawNativeSol withdraw_native_sol_parse_body instruction_data accounts) (\<lambda>input.
     bindE (validate_is_state_pda P (av_address (wni_state_pda input))) (\<lambda>_.
     bindE (state_from_account (view_account accs (wni_state_pda input))) (\<lambda>state.
     if \<not> av_is_signer (wni_authority input) \<or>
        av_address (wni_authority input) \<noteq> state_authority state SettlementOwnedOrderAuthority
     then Inl (serr UnauthorizedNativeSolWithdrawal)
     else if av_address (wni_native_sol_buffer input) \<noteq> NATIVE_SOL_BUFFER_PDA P
     then Inl (serr NativeSolBufferMismatch)
     else
       let buffer = view_account accs (wni_native_sol_buffer input) in
       bindE (pf_rent_minimum P (length (acc_data buffer))) (\<lambda>minimum.
       let withdrawable = saturating_sub (acc_lamports buffer) minimum;
           amount = min (wni_amount input) withdrawable
       in move_lamports (wni_native_sol_buffer input) (wni_recipient input) amount accs))))"

section \<open>The discriminator of the state account never changes\<close>

lemma insert_solver_discriminator:
  assumes "insert_solver s d = Inr d'" and "WIDTH_HEADER \<le> length d"
  shows "slice 0 1 d' = slice 0 1 d"
proof -
  obtain gap ws data where d': "d' = splice gap (to_bytes s) data" "WIDTH_HEADER \<le> gap"
    "gap + 32 \<le> length data" "data = splice (gap + 32) ws d"
    using assms(1)
    by (auto simp: insert_solver_def result_simps usize_checked_add_def usize_checked_mul_def
        copy_within_def split: sum.splits if_splits)
  have "slice 0 1 d' = slice 0 1 data"
    using d'(1-3) by (simp add: slice_splice_before WIDTH_HEADER_def)
  also have "\<dots> = slice 0 1 d"
    using d'(2,4) assms(2) by (simp add: splice_def slice_def WIDTH_HEADER_def take_append)
  finally show ?thesis .
qed

lemma remove_solver_discriminator:
  assumes "remove_solver s d = Inr (d', n)" and "WIDTH_HEADER \<le> length d"
  shows "slice 0 1 d' = slice 0 1 d"
proof -
  obtain offset ws where d': "d' = splice offset ws d" "WIDTH_HEADER \<le> offset" "offset \<le> length d"
    using assms(1)
    by (auto simp: remove_solver_def result_simps usize_checked_add_def usize_checked_mul_def
        copy_within_def split: sum.splits if_splits)
  then show ?thesis by (simp add: slice_splice_before WIDTH_HEADER_def)
qed

text \<open>Rewriting one account that is not an order leaves the orders as they are.\<close>

lemma replace_keeps_orders:
  assumes inv: "orders_inv prog accs" and frame: "owned_frame prog accs mid"
    and no_order: "\<not> is_order prog accs a" and new: "order_inv (acc_data (accs' a))"
    and others: "\<And>b. b \<noteq> a \<Longrightarrow> acc_owner (accs' b) = acc_owner (mid b) \<and> acc_data (accs' b) = acc_data (mid b)"
  shows "keeps_orders prog accs accs'"
proof (rule keeps_ordersI)
  have "orders_inv prog mid" using inv frame by (rule orders_inv_frame)
  with new others show "orders_inv prog accs'"
    unfolding orders_inv_def by metis
  show "orders_grow prog accs accs'"
    unfolding orders_grow_def
  proof (intro allI impI)
    fix b assume order: "is_order prog accs b"
    with no_order have "b \<noteq> a" by blast
    with others owned_frame_owned [OF frame, of b] order
    have "acc_owner (accs' b) = prog" "acc_data (accs' b) = acc_data (accs b)" by simp_all
    with order show "acc_owner (accs' b) = prog \<and> order_evolves (acc_data (accs b)) (acc_data (accs' b))"
      by simp
  qed
qed

lemma state_no_order: "state_attach (acc_data (accs a)) = Inr x \<Longrightarrow> \<not> is_order prog accs a"
  using state_discriminator_not_order by (auto simp: order_attach_Inr_iff state_attach_Inr_iff)

lemma state_order_inv: "slice 0 1 d = [STATE_DISCRIMINATOR] \<Longrightarrow> order_inv d"
  using state_discriminator_not_order by (auto intro: order_inv_state)

text \<open>What a successful run of each handler did.\<close>

lemma process_initialize_Inr:
  assumes "process_initialize P prog views data accs = Inr accs'"
  obtains payer state_v native_v rest input bump mid bump' mid' d where
    "views = payer # state_v # native_v # rest" "av_is_signer payer" "av_address payer = INITIALIZER"
    "initialize_parse_body (tl data) views = Inr input" "av_address state_v = STATE_PDA P"
    "create_idempotent P \<lparr>cp_program_id = prog, cp_payer = payer, cp_pda = state_v,
        cp_size = of_nat WIDTH_HEADER, cp_owner = prog, cp_seeds = STATE_PDA_SEEDS\<rparr> accs = Inr (True, bump, mid)"
    "create_idempotent P \<lparr>cp_program_id = prog, cp_payer = payer, cp_pda = native_v,
        cp_size = 0, cp_owner = prog, cp_seeds = NATIVE_SOL_BUFFER_PDA_SEEDS\<rparr> mid = Inr (True, bump', mid')"
    "state_initialize (acc_data (mid' (STATE_PDA P)))
       \<lparr>sia_manager = ini_manager input, sia_solver_authority = ini_solver_authority input,
        sia_reclaim_authority = ini_reclaim_authority input,
        sia_settlement_owned_order_authority = ini_settlement_owned_order_authority input\<rparr> = Inr d"
    "accs' = set_data (STATE_PDA P) d mid'"
proof -
  from assms obtain input where parse: "initialize_parse_body (tl data) views = Inr input"
    and parsed: "instruction_parse Initialize initialize_parse_body data views = Inr input"
    by (auto simp: process_initialize_def bindE_Inr_iff instruction_parse_Inr_iff)
  obtain rest where views: "views = ini_payer input # ini_state_pda input # ini_native_sol_buffer input # rest"
    using parse by (auto simp: initialize_parse_body_def result_simps)
  show thesis
    using assms parse that [OF views]
    by (auto simp: process_initialize_def parsed bindE_Inr_iff validate_is_state_pda_Inr_iff
        create_new_Inr_iff split: if_splits)
qed

lemma process_add_solver_Inr:
  assumes "process_add_solver P views data accs = Inr accs'"
  obtains authority payer state_v rest solver new_len mid acc d where
    "views = authority # payer # state_v # rest" "data = ix_discriminator AddSolver # to_bytes solver"
    "av_address state_v = STATE_PDA P"
    "state_attach (acc_data (accs (STATE_PDA P))) = Inr (acc_data (accs (STATE_PDA P)))"
    "av_is_signer authority"
    "av_address authority = state_authority (acc_data (accs (STATE_PDA P))) SolverAuthority"
    "grown_len (acc_data (accs (STATE_PDA P))) = Inr new_len"
    "mid = accs \<or> (\<exists>lamports. pf_invoke P [] (SystemTransfer payer state_v lamports) accs = Inr mid)"
    "pf_resize P (mid (STATE_PDA P)) new_len = Inr acc" "state_attach (acc_data acc) = Inr (acc_data acc)"
    "insert_solver solver (acc_data acc) = Inr d"
    "accs' = set_data (STATE_PDA P) d (mid(STATE_PDA P := acc))"
proof -
  from assms obtain input body where data: "data = ix_discriminator AddSolver # body"
    and parse: "add_solver_parse_body body views = Inr input"
    by (auto simp: process_add_solver_def bindE_Inr_iff instruction_parse_Inr_iff)
  have parsed: "instruction_parse AddSolver add_solver_parse_body data views = Inr input"
    using data parse by (auto simp: instruction_parse_Inr_iff)
  obtain rest where views: "views = asi_authority input # asi_payer input # asi_state_pda input # rest"
    and solver: "body = to_bytes (asi_solver input)"
    using parse by (auto simp: add_solver_parse_body_def result_simps)
  obtain new_len minimum mid acc d where facts: "av_address (asi_state_pda input) = STATE_PDA P"
    "state_attach (acc_data (accs (STATE_PDA P))) = Inr (acc_data (accs (STATE_PDA P)))"
    "av_is_signer (asi_authority input)"
    "av_address (asi_authority input) = state_authority (acc_data (accs (STATE_PDA P))) SolverAuthority"
    "grown_len (acc_data (accs (STATE_PDA P))) = Inr new_len"
    "(if 0 < saturating_sub minimum (acc_lamports (accs (STATE_PDA P)))
      then pf_invoke P [] (SystemTransfer (asi_payer input) (asi_state_pda input)
        (saturating_sub minimum (acc_lamports (view_account accs (asi_state_pda input))))) accs else Inr accs) = Inr mid"
    "pf_resize P (mid (STATE_PDA P)) new_len = Inr acc" "state_attach (acc_data acc) = Inr (acc_data acc)"
    "insert_solver (asi_solver input) (acc_data acc) = Inr d"
    "accs' = set_data (STATE_PDA P) d (mid(STATE_PDA P := acc))"
    using assms
    by (auto simp: process_add_solver_def parsed Let_def bindE_Inr_iff validate_is_state_pda_Inr_iff
        resize_account_def map_err_Inr_iff state_attach_Inr_iff if_Inl_Inr_iff split del: if_split)
  have "mid = accs \<or> (\<exists>lamports. pf_invoke P [] (SystemTransfer (asi_payer input) (asi_state_pda input) lamports) accs = Inr mid)"
    using facts(6) by (auto split: if_splits)
  then show thesis
    by (rule that [OF views data [unfolded solver] facts(1-5) _ facts(7-10)])
qed

lemma process_remove_solver_Inr:
  assumes "process_remove_solver P views data accs = Inr accs'"
  obtains authority recipient state_v rest solver d new_len acc minimum surplus where
    "views = authority # recipient # state_v # rest" "data = ix_discriminator RemoveSolver # to_bytes solver"
    "av_address state_v = STATE_PDA P"
    "state_attach (acc_data (accs (STATE_PDA P))) = Inr (acc_data (accs (STATE_PDA P)))"
    "av_is_signer authority"
    "av_address authority = state_authority (acc_data (accs (STATE_PDA P))) SolverAuthority"
    "remove_solver solver (acc_data (accs (STATE_PDA P))) = Inr (d, new_len)"
    "pf_resize P (set_data (STATE_PDA P) d accs (STATE_PDA P)) new_len = Inr acc"
    "pf_rent_minimum P new_len = Inr minimum" "checked_sub (acc_lamports acc) minimum = Some surplus"
    "move_lamports state_v recipient surplus ((set_data (STATE_PDA P) d accs)(STATE_PDA P := acc)) = Inr accs'"
proof -
  from assms obtain input body where data: "data = ix_discriminator RemoveSolver # body"
    and parse: "remove_solver_parse_body body views = Inr input"
    by (auto simp: process_remove_solver_def bindE_Inr_iff instruction_parse_Inr_iff)
  have parsed: "instruction_parse RemoveSolver remove_solver_parse_body data views = Inr input"
    using data parse by (auto simp: instruction_parse_Inr_iff)
  obtain rest where views: "views = rsi_authority input # rsi_rent_recipient input # rsi_state_pda input # rest"
    and solver: "body = to_bytes (rsi_solver input)"
    using parse by (auto simp: remove_solver_parse_body_def result_simps)
  show thesis
    using assms that [OF views data [unfolded solver]]
    by (auto simp: process_remove_solver_def parsed Let_def bindE_Inr_iff validate_is_state_pda_Inr_iff
        resize_account_def state_attach_Inr_iff ok_or_Inr_iff split: if_splits)
qed

lemma process_transfer_authority_Inr:
  assumes "process_transfer_authority P views data accs = Inr accs'"
  obtains signer state_v rest role new_authority where
    "views = signer # state_v # rest"
    "data = ix_discriminator TransferAuthority # role_discriminator role # to_bytes new_authority"
    "av_address state_v = STATE_PDA P" "av_is_signer signer"
    "state_attach (acc_data (accs (STATE_PDA P))) = Inr (acc_data (accs (STATE_PDA P)))"
    "av_address signer \<in> {state_authority (acc_data (accs (STATE_PDA P))) Manager,
       state_authority (acc_data (accs (STATE_PDA P))) role}"
    "accs' = set_data (STATE_PDA P) (state_set_authority role new_authority (acc_data (accs (STATE_PDA P)))) accs"
proof -
  from assms obtain input body where data: "data = ix_discriminator TransferAuthority # body"
    and parse: "transfer_authority_parse_body body views = Inr input"
    by (auto simp: process_transfer_authority_def bindE_Inr_iff instruction_parse_Inr_iff)
  have parsed: "instruction_parse TransferAuthority transfer_authority_parse_body data views = Inr input"
    using data parse by (auto simp: instruction_parse_Inr_iff)
  obtain rest where views: "views = tai_signer input # tai_state_pda input # rest"
    and len: "length body = 33" and role: "role_discriminator (tai_role input) = body ! 0"
    and new: "tai_new_authority input = new_from_array (slice 1 32 body)"
    using parse by (auto simp: transfer_authority_parse_body_def result_simps)
  have "body = role_discriminator (tai_role input) # to_bytes (tai_new_authority input)"
    using len role new by (cases body) (simp_all add: slice_def)
  with data have data: "data = ix_discriminator TransferAuthority # role_discriminator (tai_role input) #
      to_bytes (tai_new_authority input)" by simp
  show thesis
    using assms that [OF views data]
    by (auto simp: process_transfer_authority_def parsed Let_def bindE_Inr_iff validate_is_state_pda_Inr_iff
        state_attach_Inr_iff split: if_splits)
qed

section \<open>The handlers keep all orders\<close>

lemma unat_WIDTH_HEADER [simp]: "unat (of_nat WIDTH_HEADER :: u64) = WIDTH_HEADER"
  by (simp add: WIDTH_HEADER_def)

lemma resize_specD:
  "resize_spec P \<Longrightarrow> pf_resize P a n = Inr a' \<Longrightarrow>
    a' = a\<lparr>acc_data := take n (acc_data a @ replicate (n - length (acc_data a)) 0)\<rparr>"
  unfolding resize_spec_def by blast

text \<open>What \<open>RemoveSolver\<close> leaves in the state account, and nowhere else.\<close>

lemma process_remove_solver_cut:
  assumes rules: "resize_spec P" and run: "process_remove_solver P views data accs = Inr accs'"
  obtains solver where "data = ix_discriminator RemoveSolver # to_bytes solver"
    and "state_attach (acc_data (accs (STATE_PDA P))) = Inr (acc_data (accs (STATE_PDA P)))"
    and "remove_and_cut solver (acc_data (accs (STATE_PDA P))) = Inr (acc_data (accs' (STATE_PDA P)))"
    and "length (acc_data (accs' (STATE_PDA P))) \<le> length (acc_data (accs (STATE_PDA P)))"
    and "\<forall>a. acc_owner (accs' a) = acc_owner (accs a)"
    and "\<forall>a. a \<noteq> STATE_PDA P \<longrightarrow> acc_data (accs' a) = acc_data (accs a)"
proof -
  let ?a = "STATE_PDA P" and ?d = "acc_data (accs (STATE_PDA P))"
  from run obtain authority recipient state_v rest solver d new_len acc minimum surplus where
    "views = authority # recipient # state_v # rest"
    and data: "data = ix_discriminator RemoveSolver # to_bytes solver"
    and "av_address state_v = STATE_PDA P" and state: "state_attach ?d = Inr ?d"
    and "av_is_signer authority" "av_address authority = state_authority ?d SolverAuthority"
    and d: "remove_solver solver ?d = Inr (d, new_len)"
    and acc: "pf_resize P (set_data ?a d accs ?a) new_len = Inr acc"
    and "pf_rent_minimum P new_len = Inr minimum" "checked_sub (acc_lamports acc) minimum = Some surplus"
    and move: "move_lamports state_v recipient surplus ((set_data ?a d accs)(?a := acc)) = Inr accs'"
    by (rule process_remove_solver_Inr)
  note same = move_lamports_frame(1,2) [OF move]
  have len: "length d = length ?d" "new_len \<le> length d"
    using d by (auto simp: remove_solver_def result_simps copy_within_def usize_checked_sub_def
        usize_checked_mul_def usize_checked_add_def length_splice length_slice split: sum.splits if_splits)
  have acc': "acc_data acc = take new_len d" "acc_owner acc = acc_owner (accs ?a)"
    using resize_specD [OF rules acc] len by simp_all
  show thesis
    using that [OF data state] len by (simp add: same acc' remove_and_cut_def d)
qed

interpretation initialize_handler: order_preserving process_initialize
proof
  fix P prog accs views data accs'
  assume rules: "runtime_rules P prog" and inv: "orders_inv prog accs"
    and run: "process_initialize P prog views data accs = Inr accs'"
  from run obtain payer state_v native_v rest input bump mid bump' mid' d where
    "views = payer # state_v # native_v # rest" "av_is_signer payer" "av_address payer = INITIALIZER"
    "initialize_parse_body (tl data) views = Inr input" and state: "av_address state_v = STATE_PDA P"
    and mid: "create_idempotent P \<lparr>cp_program_id = prog, cp_payer = payer, cp_pda = state_v,
        cp_size = of_nat WIDTH_HEADER, cp_owner = prog, cp_seeds = STATE_PDA_SEEDS\<rparr> accs = Inr (True, bump, mid)"
    and mid': "create_idempotent P \<lparr>cp_program_id = prog, cp_payer = payer, cp_pda = native_v,
        cp_size = 0, cp_owner = prog, cp_seeds = NATIVE_SOL_BUFFER_PDA_SEEDS\<rparr> mid = Inr (True, bump', mid')"
    and d: "state_initialize (acc_data (mid' (STATE_PDA P)))
       \<lparr>sia_manager = ini_manager input, sia_solver_authority = ini_solver_authority input,
        sia_reclaim_authority = ini_reclaim_authority input,
        sia_settlement_owned_order_authority = ini_settlement_owned_order_authority input\<rparr> = Inr d"
    and accs': "accs' = set_data (STATE_PDA P) d mid'"
    by (rule process_initialize_Inr)
  have frames: "invoke_frame P prog" "create_account_spec P" using rules by (simp_all add: runtime_rules_def)
  have frame: "owned_frame prog accs mid'"
    using create_idempotent_frame [OF frames(1) mid] create_idempotent_frame [OF frames(1) mid']
    by (rule owned_frame_trans)
  show "keeps_orders prog accs accs'"
  proof (rule replace_keeps_orders [OF inv frame, of "STATE_PDA P"])
    show "\<not> is_order prog accs (STATE_PDA P)"
      using created_was_no_order(1) [OF frames mid] state by simp
    have "slice 0 1 d = [STATE_DISCRIMINATOR]"
      using d by (auto simp: state_initialize_def splice_def slice_def result_simps)
    then show "order_inv (acc_data (accs' (STATE_PDA P)))"
      by (simp add: accs' state_order_inv)
  qed (simp add: accs')
qed

interpretation add_solver_handler: order_preserving "\<lambda>P prog. process_add_solver P"
proof
  fix P prog accs views data accs'
  assume rules: "runtime_rules P prog" and inv: "orders_inv prog accs"
    and run: "process_add_solver P views data accs = Inr accs'"
  from run obtain authority payer state_v rest solver new_len mid acc d where
    "views = authority # payer # state_v # rest" "data = ix_discriminator AddSolver # to_bytes solver"
    "av_address state_v = STATE_PDA P"
    and state: "state_attach (acc_data (accs (STATE_PDA P))) = Inr (acc_data (accs (STATE_PDA P)))"
    and "av_is_signer authority"
    "av_address authority = state_authority (acc_data (accs (STATE_PDA P))) SolverAuthority"
    "grown_len (acc_data (accs (STATE_PDA P))) = Inr new_len"
    and mid: "mid = accs \<or> (\<exists>lamports. pf_invoke P [] (SystemTransfer payer state_v lamports) accs = Inr mid)"
    and "pf_resize P (mid (STATE_PDA P)) new_len = Inr acc"
    and acc: "state_attach (acc_data acc) = Inr (acc_data acc)"
    and d: "insert_solver solver (acc_data acc) = Inr d"
    and accs': "accs' = set_data (STATE_PDA P) d (mid(STATE_PDA P := acc))"
    by (rule process_add_solver_Inr)
  have frame: "owned_frame prog accs mid"
    using mid rules by (auto simp: runtime_rules_def intro: invoke_frameD)
  have "slice 0 1 d = [STATE_DISCRIMINATOR]"
    using insert_solver_discriminator [OF d] acc by (simp add: state_attach_Inr_iff)
  then show "keeps_orders prog accs accs'"
    using state_no_order [of accs "STATE_PDA P", OF state]
    by (intro replace_keeps_orders [OF inv frame, of "STATE_PDA P"]) (simp_all add: accs' state_order_inv)
qed

interpretation remove_solver_handler: order_preserving "\<lambda>P prog. process_remove_solver P"
proof
  fix P prog accs views data accs'
  assume rules: "runtime_rules P prog" and inv: "orders_inv prog accs"
    and run: "process_remove_solver P views data accs = Inr accs'"
  from run obtain authority recipient state_v rest solver d new_len acc minimum surplus where
    "views = authority # recipient # state_v # rest" "data = ix_discriminator RemoveSolver # to_bytes solver"
    "av_address state_v = STATE_PDA P"
    and state: "state_attach (acc_data (accs (STATE_PDA P))) = Inr (acc_data (accs (STATE_PDA P)))"
    and "av_is_signer authority"
    "av_address authority = state_authority (acc_data (accs (STATE_PDA P))) SolverAuthority"
    and d: "remove_solver solver (acc_data (accs (STATE_PDA P))) = Inr (d, new_len)"
    and acc: "pf_resize P (set_data (STATE_PDA P) d accs (STATE_PDA P)) new_len = Inr acc"
    and "pf_rent_minimum P new_len = Inr minimum" "checked_sub (acc_lamports acc) minimum = Some surplus"
    and move: "move_lamports state_v recipient surplus ((set_data (STATE_PDA P) d accs)(STATE_PDA P := acc)) = Inr accs'"
    by (rule process_remove_solver_Inr)
  have "acc_data acc = take new_len (d @ replicate (new_len - length d) 0)"
    using resize_specD [OF _ acc] rules by (simp add: runtime_rules_def)
  moreover have "slice 0 1 d = [STATE_DISCRIMINATOR]"
    using remove_solver_discriminator [OF d] state by (simp add: state_attach_Inr_iff)
  ultimately have "slice 0 1 (acc_data acc) \<noteq> [ORDER_DISCRIMINATOR]"
    using state_discriminator_not_order by (cases d; cases new_len) (auto simp: slice_def)
  then show "keeps_orders prog accs accs'"
    using state_no_order [of accs "STATE_PDA P", OF state] move_lamports_frame(1,2) [OF move]
    by (intro replace_keeps_orders [OF inv owned_frame_refl, of "STATE_PDA P"])
      (simp_all add: order_inv_state)
qed

interpretation transfer_authority_handler: order_preserving "\<lambda>P prog. process_transfer_authority P"
proof
  fix P prog accs views data accs'
  assume inv: "orders_inv prog accs" and run: "process_transfer_authority P views data accs = Inr accs'"
  from run obtain signer state_v rest role new_authority where
    "views = signer # state_v # rest"
    "data = ix_discriminator TransferAuthority # role_discriminator role # to_bytes new_authority"
    "av_address state_v = STATE_PDA P" "av_is_signer signer"
    and state: "state_attach (acc_data (accs (STATE_PDA P))) = Inr (acc_data (accs (STATE_PDA P)))"
    and "av_address signer \<in> {state_authority (acc_data (accs (STATE_PDA P))) Manager,
       state_authority (acc_data (accs (STATE_PDA P))) role}"
    and accs': "accs' = set_data (STATE_PDA P) (state_set_authority role new_authority (acc_data (accs (STATE_PDA P)))) accs"
    by (rule process_transfer_authority_Inr)
  show "keeps_orders prog accs accs'"
    using state_no_order [of accs "STATE_PDA P", OF state] state state_set_authority_reads(2)
    by (intro replace_keeps_orders [OF inv owned_frame_refl, of "STATE_PDA P"])
      (simp_all add: accs' state_order_inv state_attach_Inr_iff)
qed

interpretation withdraw_native_sol_handler: order_preserving "\<lambda>P prog. process_withdraw_native_sol P"
proof
  fix P prog accs views data accs'
  assume inv: "orders_inv prog accs" and run: "process_withdraw_native_sol P views data accs = Inr accs'"
  then obtain source dest amount where "move_lamports source dest amount accs = Inr accs'"
    by (auto simp: process_withdraw_native_sol_def bindE_Inr_iff Let_def split: if_splits)
  note frame = move_lamports_frame(1,2) [OF this]
  show "keeps_orders prog accs accs'"
    using inv frame by (simp add: lamports_keep_orders)
qed

section \<open>Properties\<close>

lemma initialize_parse_body_data:
  assumes "initialize_parse_body body views = Inr input"
  shows "body = to_bytes (ini_manager input) @ to_bytes (ini_solver_authority input) @
    to_bytes (ini_reclaim_authority input) @ to_bytes (ini_settlement_owned_order_authority input)"
proof -
  have len: "length body = 128" and fields: "ini_manager input = new_from_array (slice 0 32 body)"
    "ini_solver_authority input = new_from_array (slice 32 32 body)"
    "ini_reclaim_authority input = new_from_array (slice 64 32 body)"
    "ini_settlement_owned_order_authority input = new_from_array (slice 96 32 body)"
    using assms by (auto simp: initialize_parse_body_def result_simps)
  have "body = slice 0 32 body @ slice 32 32 body @ slice 64 32 body @ slice 96 32 body"
    using len drop_slice [of 0 32 body] drop_slice [of 32 32 body] drop_slice [of 64 32 body]
      drop_slice [of 96 32 body] by simp
  with len show ?thesis by (simp add: fields length_slice)
qed

text \<open>
  C29: a successful \<open>Initialize\<close> was signed by the hard-coded initializer, created the state
  account at the pinned address under the program, and left in it exactly the four role holders of
  the instruction data and no solver.
\<close>

theorem initialize_sets_roles:
  assumes rules: "runtime_rules P prog" and run: "process_initialize P prog views data accs = Inr accs'"
  shows "let state = acc_data (accs' (STATE_PDA P)) in
    av_is_signer (views ! 0) \<and> av_address (views ! 0) = INITIALIZER \<and>
    av_address (views ! 1) = STATE_PDA P \<and> acc_owner (accs' (STATE_PDA P)) = prog \<and>
    state_wf state \<and> state_solvers state = [] \<and>
    data = ix_discriminator Initialize # to_bytes (state_authority state Manager) @
      to_bytes (state_authority state SolverAuthority) @ to_bytes (state_authority state ReclaimAuthority) @
      to_bytes (state_authority state SettlementOwnedOrderAuthority)"
proof -
  from run obtain payer state_v native_v rest input bump mid bump' mid' d where
    views: "views = payer # state_v # native_v # rest" and payer: "av_is_signer payer" "av_address payer = INITIALIZER"
    and parse: "initialize_parse_body (tl data) views = Inr input" and state: "av_address state_v = STATE_PDA P"
    and mid: "create_idempotent P \<lparr>cp_program_id = prog, cp_payer = payer, cp_pda = state_v,
        cp_size = of_nat WIDTH_HEADER, cp_owner = prog, cp_seeds = STATE_PDA_SEEDS\<rparr> accs = Inr (True, bump, mid)"
    and mid': "create_idempotent P \<lparr>cp_program_id = prog, cp_payer = payer, cp_pda = native_v,
        cp_size = 0, cp_owner = prog, cp_seeds = NATIVE_SOL_BUFFER_PDA_SEEDS\<rparr> mid = Inr (True, bump', mid')"
    and d: "state_initialize (acc_data (mid' (STATE_PDA P)))
       \<lparr>sia_manager = ini_manager input, sia_solver_authority = ini_solver_authority input,
        sia_reclaim_authority = ini_reclaim_authority input,
        sia_settlement_owned_order_authority = ini_settlement_owned_order_authority input\<rparr> = Inr d"
    and accs': "accs' = set_data (STATE_PDA P) d mid'"
    by (rule process_initialize_Inr)
  have frames: "invoke_frame P prog" "create_account_spec P" using rules by (simp_all add: runtime_rules_def)
  have new: "acc_owner (mid (STATE_PDA P)) = prog" "acc_data (mid (STATE_PDA P)) = replicate WIDTH_HEADER 0"
    using created_was_no_order(2,3) [OF frames mid] state by simp_all
  then have new': "acc_owner (mid' (STATE_PDA P)) = prog" "length (acc_data (mid' (STATE_PDA P))) = WIDTH_HEADER"
    using owned_frame_owned [OF create_idempotent_frame [OF frames(1) mid']] by simp_all
  let ?args = "\<lparr>sia_manager = ini_manager input, sia_solver_authority = ini_solver_authority input,
      sia_reclaim_authority = ini_reclaim_authority input,
      sia_settlement_owned_order_authority = ini_settlement_owned_order_authority input\<rparr>"
  have "state_wf d" "state_solvers d = []" "\<forall>r. state_authority d r = init_holder ?args r"
    using state_initialize_reads [OF new'(2), of ?args] d by auto
  moreover have "data = ix_discriminator Initialize # tl data"
    using run by (auto simp: process_initialize_def bindE_Inr_iff instruction_parse_Inr_iff)
  ultimately show ?thesis
    using views payer state new' initialize_parse_body_data [OF parse] by (simp add: accs')
qed

text \<open>\<open>Initialize\<close> fails once the state account exists, whoever calls it.\<close>

theorem initialize_only_once:
  assumes "derive_agrees P" and "acc_owner (accs (STATE_PDA P)) = program_ID P"
  shows "process_initialize P (program_ID P) views data accs \<noteq> Inr accs'"
proof
  assume "process_initialize P (program_ID P) views data accs = Inr accs'"
  then obtain payer state_v bump mid where state: "av_address state_v = STATE_PDA P"
    and mid: "create_idempotent P \<lparr>cp_program_id = program_ID P, cp_payer = payer, cp_pda = state_v,
        cp_size = of_nat WIDTH_HEADER, cp_owner = program_ID P, cp_seeds = STATE_PDA_SEEDS\<rparr> accs = Inr (True, bump, mid)"
    by (rule process_initialize_Inr) auto
  have "STATE_PDA P = fst (pf_find_program_address P STATE_PDA_SEEDS (program_ID P))"
    using assms(1) by (simp add: STATE_PDA_def STATE_PDA_AND_BUMP_def derive_agrees_def)
  with mid state assms(2) show False by (simp add: create_idempotent_created)
qed

lemma state_authority_header: "take WIDTH_HEADER d = take WIDTH_HEADER d' \<Longrightarrow> state_authority d r = state_authority d' r"
  by (simp add: state_authority_def)

text \<open>What \<open>AddSolver\<close> leaves in the state account, as the operation of the solver set.\<close>

lemma add_solver_grows:
  assumes rules: "runtime_rules P prog" and owned: "acc_owner (accs a) = prog"
    and mid: "mid = accs \<or> (\<exists>lamports. pf_invoke P [] (SystemTransfer payer v lamports) accs = Inr mid)"
    and len: "grown_len (acc_data (accs a)) = Inr new_len" and resize: "pf_resize P (mid a) new_len = Inr acc"
    and d: "insert_solver solver (acc_data acc) = Inr d"
  shows "grow_and_insert solver (acc_data (accs a)) = Inr d"
proof -
  have "owned_frame prog accs mid"
    using mid rules by (auto simp: runtime_rules_def intro: invoke_frameD)
  then have "acc_data (mid a) = acc_data (accs a)" using owned by (simp add: owned_frame_owned)
  moreover have "new_len = length (acc_data (accs a)) + 32"
    using len by (auto simp: grown_len_def usize_checked_add_def result_simps split: if_splits)
  ultimately show ?thesis
    using resize_specD [OF _ resize] rules d len by (simp add: runtime_rules_def grow_and_insert_def)
qed

text \<open>
  C30: a successful \<open>AddSolver\<close> was signed by the solver authority, adds exactly the solver
  of the instruction data, which was not registered before, keeps the list sorted and the roles
  unchanged.
\<close>

theorem add_solver_adds_one:
  assumes rules: "runtime_rules P prog" and owned: "acc_owner (accs (STATE_PDA P)) = prog"
    and wf: "state_wf (acc_data (accs (STATE_PDA P)))" and room: "state_room (acc_data (accs (STATE_PDA P)))"
    and run: "process_add_solver P views data accs = Inr accs'"
  shows "\<exists>solver. let before = acc_data (accs (STATE_PDA P)); after = acc_data (accs' (STATE_PDA P)) in
    data = ix_discriminator AddSolver # to_bytes solver \<and>
    av_is_signer (views ! 0) \<and> av_address (views ! 0) = state_authority before SolverAuthority \<and>
    \<not> is_solver before solver \<and> state_wf after \<and>
    (\<forall>s. is_solver after s \<longleftrightarrow> s = solver \<or> is_solver before s) \<and>
    (\<forall>r. state_authority after r = state_authority before r)"
proof -
  let ?d = "acc_data (accs (STATE_PDA P))"
  from run obtain authority payer state_v rest solver new_len mid acc d where
    views: "views = authority # payer # state_v # rest" and data: "data = ix_discriminator AddSolver # to_bytes solver"
    and "av_address state_v = STATE_PDA P" "state_attach ?d = Inr ?d"
    and auth: "av_is_signer authority" "av_address authority = state_authority ?d SolverAuthority"
    and len: "grown_len ?d = Inr new_len"
    and mid: "mid = accs \<or> (\<exists>lamports. pf_invoke P [] (SystemTransfer payer state_v lamports) accs = Inr mid)"
    and resize: "pf_resize P (mid (STATE_PDA P)) new_len = Inr acc"
    and "state_attach (acc_data acc) = Inr (acc_data acc)"
    and d: "insert_solver solver (acc_data acc) = Inr d"
    and accs': "accs' = set_data (STATE_PDA P) d (mid(STATE_PDA P := acc))"
    by (rule process_add_solver_Inr)
  have grown: "grow_and_insert solver ?d = Inr d"
    by (rule add_solver_grows [OF rules owned mid len resize d])
  note added = state_solver_set.add_Inr [OF wf room grown] state_solver_set.member_add [OF wf room grown]
  show ?thesis
    using views data auth added state_authority_header [OF added(3)]
    by (intro exI [of _ solver]) (simp add: accs' is_solver_iff [OF wf])
qed

text \<open>
  C31: a successful \<open>RemoveSolver\<close> was signed by the solver authority, removes exactly the
  solver of the instruction data and keeps the other solvers, the order of the list and the roles;
  the state account keeps the rent of its new size and the rest of its balance goes to the
  recipient.
\<close>

theorem remove_solver_removes_one:
  assumes rules: "runtime_rules P prog" and wf: "state_wf (acc_data (accs (STATE_PDA P)))"
    and room: "state_room (acc_data (accs (STATE_PDA P)))"
    and run: "process_remove_solver P views data accs = Inr accs'"
  shows "\<exists>solver minimum. let before = acc_data (accs (STATE_PDA P)); after = acc_data (accs' (STATE_PDA P));
      recipient = av_address (views ! 1) in
    data = ix_discriminator RemoveSolver # to_bytes solver \<and>
    av_is_signer (views ! 0) \<and> av_address (views ! 0) = state_authority before SolverAuthority \<and>
    is_solver before solver \<and> state_wf after \<and>
    (\<forall>s. is_solver after s \<longleftrightarrow> s \<noteq> solver \<and> is_solver before s) \<and>
    (\<forall>r. state_authority after r = state_authority before r) \<and>
    pf_rent_minimum P (length after) = Inr minimum \<and> minimum \<le> acc_lamports (accs' (STATE_PDA P)) \<and>
    (recipient \<noteq> STATE_PDA P \<longrightarrow> acc_lamports (accs' (STATE_PDA P)) = minimum \<and>
      unat (acc_lamports (accs' recipient)) + unat minimum =
      unat (acc_lamports (accs recipient)) + unat (acc_lamports (accs (STATE_PDA P))))"
proof -
  let ?a = "STATE_PDA P" and ?d = "acc_data (accs (STATE_PDA P))"
  from run obtain authority recipient state_v rest solver d new_len acc minimum surplus where
    views: "views = authority # recipient # state_v # rest"
    and data: "data = ix_discriminator RemoveSolver # to_bytes solver"
    and state: "av_address state_v = STATE_PDA P" and "state_attach ?d = Inr ?d"
    and auth: "av_is_signer authority" "av_address authority = state_authority ?d SolverAuthority"
    and d: "remove_solver solver ?d = Inr (d, new_len)"
    and acc: "pf_resize P (set_data ?a d accs ?a) new_len = Inr acc"
    and minimum: "pf_rent_minimum P new_len = Inr minimum"
    and surplus: "checked_sub (acc_lamports acc) minimum = Some surplus"
    and move: "move_lamports state_v recipient surplus ((set_data ?a d accs)(?a := acc)) = Inr accs'"
    by (rule process_remove_solver_Inr)
  have len: "length d = length ?d" "new_len \<le> length d"
    using d by (auto simp: remove_solver_def result_simps copy_within_def usize_checked_sub_def
        usize_checked_mul_def usize_checked_add_def length_splice length_slice split: sum.splits if_splits)
  have acc': "acc_data acc = take new_len d" "acc_lamports acc = acc_lamports (accs ?a)"
    using resize_specD [OF _ acc] rules len by (simp_all add: runtime_rules_def)
  have cut: "remove_and_cut solver ?d = Inr (take new_len d)"
    by (simp add: remove_and_cut_def d)
  note removed = state_solver_set.rem_Inr [OF wf room cut] state_solver_set.member_rem [OF wf room cut]
  have after: "acc_data (accs' ?a) = take new_len d" using move_lamports_frame(2) [OF move, of ?a] acc' by simp
  have rent: "minimum \<le> acc_lamports (accs' ?a) \<and> (av_address recipient \<noteq> ?a \<longrightarrow> acc_lamports (accs' ?a) = minimum \<and>
      unat (acc_lamports (accs' (av_address recipient))) + unat minimum =
      unat (acc_lamports (accs (av_address recipient))) + unat (acc_lamports (accs ?a)))"
  proof (cases "av_address recipient = ?a")
    case True
    then have "accs' = (set_data ?a d accs)(?a := acc)"
      using move state by (simp add: move_lamports_def)
    with True surplus acc'(2) show ?thesis by (simp add: checked_sub_def split: if_splits)
  next
    case False
    then have "unat (acc_lamports acc) = unat (acc_lamports (accs' ?a)) + unat surplus"
      "unat (acc_lamports (accs' (av_address recipient))) = unat (acc_lamports (accs (av_address recipient))) + unat surplus"
      using move_lamports_amounts [OF move] state by simp_all
    moreover from surplus have "unat (acc_lamports acc) = unat surplus + unat minimum"
      by (simp add: checked_sub_Some_iff)
    ultimately show ?thesis using acc'(2) by (simp add: word_unat_eq_iff word_le_nat_alt)
  qed
  show ?thesis
    using views data auth removed state_authority_header [OF removed(3)] after rent minimum len
    by (intro exI [of _ solver] exI [of _ minimum]) (simp add: Let_def is_solver_iff [OF wf])
qed

text \<open>
  C32: a successful \<open>TransferAuthority\<close> was signed by the manager or by the current holder of
  the role, gives that one role to the account named in the instruction data, and changes no other
  role, no solver and no other account.
\<close>

theorem transfer_authority_changes_one_role:
  assumes run: "process_transfer_authority P views data accs = Inr accs'"
  shows "\<exists>role new_authority. let before = acc_data (accs (STATE_PDA P)); after = acc_data (accs' (STATE_PDA P)) in
    data = ix_discriminator TransferAuthority # role_discriminator role # to_bytes new_authority \<and>
    av_is_signer (views ! 0) \<and>
    (av_address (views ! 0) = state_authority before Manager \<or>
     av_address (views ! 0) = state_authority before role) \<and>
    (\<forall>r. state_authority after r = (if r = role then new_authority else state_authority before r)) \<and>
    state_solvers after = state_solvers before \<and> (state_wf before \<longrightarrow> state_wf after) \<and>
    (\<forall>a. a \<noteq> STATE_PDA P \<longrightarrow> accs' a = accs a)"
proof -
  let ?d = "acc_data (accs (STATE_PDA P))"
  from run obtain signer state_v rest role new_authority where
    views: "views = signer # state_v # rest"
    and data: "data = ix_discriminator TransferAuthority # role_discriminator role # to_bytes new_authority"
    and "av_address state_v = STATE_PDA P" and signer: "av_is_signer signer"
    and state: "state_attach ?d = Inr ?d"
    and auth: "av_address signer \<in> {state_authority ?d Manager, state_authority ?d role}"
    and accs': "accs' = set_data (STATE_PDA P) (state_set_authority role new_authority ?d) accs"
    by (rule process_transfer_authority_Inr)
  have len: "WIDTH_HEADER \<le> length ?d" using state by (simp add: state_attach_Inr_iff)
  show ?thesis
    using views data signer auth state_set_authority_reads(1) [OF len] state_set_authority_solvers [OF len]
      state_set_authority_wf [of ?d]
    by (intro exI [of _ role] exI [of _ new_authority]) (auto simp: Let_def accs' set_data_def)
qed

text \<open>
  C33: a successful \<open>WithdrawNativeSol\<close> was signed by the settlement-owned-order authority and
  moved, out of the native SOL buffer only, the smaller of the requested amount and what the buffer
  holds above its rent; a buffer that was rent-exempt stays so, and asking for too much never takes
  the rent.
\<close>

theorem withdraw_native_sol_keeps_rent:
  assumes run: "process_withdraw_native_sol P views data accs = Inr accs'"
  shows "\<exists>(amount :: u64) minimum. let buffer = NATIVE_SOL_BUFFER_PDA P; recipient = av_address (views ! 3);
      balance = acc_lamports (accs buffer); moved = min (unat amount) (unat balance - unat minimum) in
    data = ix_discriminator WithdrawNativeSol # to_le 8 amount \<and>
    av_address (views ! 0) = STATE_PDA P \<and> av_is_signer (views ! 1) \<and>
    av_address (views ! 1) = state_authority (acc_data (accs (STATE_PDA P))) SettlementOwnedOrderAuthority \<and>
    av_address (views ! 2) = buffer \<and> pf_rent_minimum P (length (acc_data (accs buffer))) = Inr minimum \<and>
    (recipient \<noteq> buffer \<longrightarrow>
       unat (acc_lamports (accs' buffer)) + moved = unat balance \<and>
       unat (acc_lamports (accs' recipient)) = unat (acc_lamports (accs recipient)) + moved) \<and>
    (minimum \<le> balance \<longrightarrow> minimum \<le> acc_lamports (accs' buffer)) \<and>
    (\<forall>a. a \<noteq> buffer \<longrightarrow> a \<noteq> recipient \<longrightarrow> accs' a = accs a)"
proof -
  let ?b = "NATIVE_SOL_BUFFER_PDA P"
  from run obtain input body where data: "data = ix_discriminator WithdrawNativeSol # body"
    and parse: "withdraw_native_sol_parse_body body views = Inr input"
    by (auto simp: process_withdraw_native_sol_def bindE_Inr_iff instruction_parse_Inr_iff)
  have parsed: "instruction_parse WithdrawNativeSol withdraw_native_sol_parse_body data views = Inr input"
    using data parse by (auto simp: instruction_parse_Inr_iff)
  obtain rest where views: "views = wni_state_pda input # wni_authority input # wni_native_sol_buffer input #
      wni_recipient input # rest"
    and amount: "body = to_le 8 (wni_amount input)"
    using parse by (auto simp: withdraw_native_sol_parse_body_def result_simps u64_codec.enc_dec)
  from run obtain minimum where state: "av_address (wni_state_pda input) = STATE_PDA P"
    and auth: "av_is_signer (wni_authority input)"
      "av_address (wni_authority input) = state_authority (acc_data (accs (STATE_PDA P))) SettlementOwnedOrderAuthority"
    and buffer: "av_address (wni_native_sol_buffer input) = ?b"
    and minimum: "pf_rent_minimum P (length (acc_data (accs ?b))) = Inr minimum"
    and move: "move_lamports (wni_native_sol_buffer input) (wni_recipient input)
      (min (wni_amount input) (saturating_sub (acc_lamports (accs ?b)) minimum)) accs = Inr accs'"
    by (auto simp: process_withdraw_native_sol_def parsed Let_def bindE_Inr_iff state_from_account_def
        validate_is_state_pda_Inr_iff state_attach_Inr_iff split: if_splits)
  let ?moved = "min (unat (wni_amount input)) (unat (acc_lamports (accs ?b)) - unat minimum)"
  have moved: "unat (min (wni_amount input) (saturating_sub (acc_lamports (accs ?b)) minimum)) = ?moved"
    by (simp add: unat_min unat_saturating_sub)
  have rent: "minimum \<le> acc_lamports (accs ?b) \<longrightarrow> minimum \<le> acc_lamports (accs' ?b)"
  proof (cases "av_address (wni_recipient input) = ?b")
    case True
    then have "accs' = accs" using move buffer by (simp add: move_lamports_def)
    then show ?thesis by simp
  next
    case False
    then have "unat (acc_lamports (accs ?b)) = unat (acc_lamports (accs' ?b)) + ?moved"
      using move_lamports_amounts(1) [OF move] buffer moved by simp
    then show ?thesis unfolding word_le_nat_alt by linarith
  qed
  have frame: "\<forall>a. a \<noteq> ?b \<longrightarrow> a \<noteq> av_address (wni_recipient input) \<longrightarrow> accs' a = accs a"
    using move_lamports_frame(3) [OF move] buffer by simp
  have amounts: "av_address (wni_recipient input) \<noteq> ?b \<longrightarrow>
      unat (acc_lamports (accs' ?b)) + ?moved = unat (acc_lamports (accs ?b)) \<and>
      unat (acc_lamports (view_account accs' (wni_recipient input))) =
        unat (acc_lamports (view_account accs (wni_recipient input))) + ?moved"
    using move_lamports_amounts [OF move] buffer moved by auto
  show ?thesis
    by (rule exI [of _ "wni_amount input"], rule exI [of _ minimum])
      (simp add: Let_def views data amount state auth buffer minimum rent frame amounts)
qed

end
