(* ===== verification/BufferHandlers.thy ===== *)
theory BufferHandlers
  imports Runtime
begin

text \<open>
  The handlers of the token buffers
  (\<open>programs/settlement/src/processor/{create_buffer,reclaim_buffer}.rs\<close>). They change accounts only
  through the token and system programs, so the theorems are about what is invoked and when:
  creating existing buffers is a no-op, and reclaiming is reserved to the reclaim authority, closes
  canonical buffers only and never burns beyond a buffer's limit.
\<close>

section \<open>CreateBuffer\<close>

fun create_buffers_loop ::
  "platform \<Rightarrow> pubkey \<Rightarrow> account_view \<Rightarrow> account_view BufferAccounts list \<Rightarrow> accounts \<Rightarrow> accounts result" where
  "create_buffers_loop P prog payer [] accs = Inr accs"
| "create_buffers_loop P prog payer (b # buffers) accs =
     bindE (owning_token_program P accs (ba_mint b)) (\<lambda>token_program.
     let token_program_id = token_program_address P token_program in
     bindE (token_account_len P token_program (ba_mint b) accs) (\<lambda>(len, accs).
     bindE (create_idempotent P
       \<lparr>cp_program_id = prog, cp_payer = payer, cp_pda = ba_buffer_pda b, cp_size = len,
        cp_owner = token_program_id, cp_seeds = buffer_pda_seeds (av_address (ba_mint b))\<rparr> accs)
       (\<lambda>(created, _, accs).
     bindE (if created
            then pf_invoke P [] (InitializeAccount3 token_program_id (ba_buffer_pda b) (ba_mint b) (STATE_PDA P)) accs
            else Inr accs) (\<lambda>accs.
     create_buffers_loop P prog payer buffers accs))))"

definition process_create_buffer :: handler where
  "process_create_buffer P prog accounts instruction_data accs =
     bindE (instruction_parse CreateBuffer create_buffer_parse_body instruction_data accounts) (\<lambda>input.
     create_buffers_loop P prog (cbi_payer input) (create_buffer_buffers input) accs)"

section \<open>ReclaimBuffer\<close>

text \<open>The loop, with \<open>any_reclaimed\<close> carried along.\<close>

fun reclaim_buffers_loop ::
  "platform \<Rightarrow> pubkey \<Rightarrow> account_view \<Rightarrow> account_view \<Rightarrow> bytes list list \<Rightarrow> account_view Buffer list \<Rightarrow>
   bool \<Rightarrow> accounts \<Rightarrow> (bool \<times> accounts) result" where
  "reclaim_buffers_loop P prog state_pda recipient signers [] any_reclaimed accs = Inr (any_reclaimed, accs)"
| "reclaim_buffers_loop P prog state_pda recipient signers (b # buffers) any_reclaimed accs =
     (if av_address (bu_buffer_pda b) \<noteq> fst (find_buffer_pda P prog (av_address (bu_mint b)))
      then Inl (serr ReclaimBufferNotCanonical)
      else
        bindE (owning_token_program P accs (bu_buffer_pda b)) (\<lambda>token_program.
        let program = token_program_address P token_program in
        bindE (read_token_account P [] token_program (bu_buffer_pda b) accs) (\<lambda>token.
        let amount = tka_amount token in
        if amount \<le> bu_burn_limit b then
          bindE (if 0 < amount
                 then pf_invoke P [] (Burn program (bu_buffer_pda b) (bu_mint b) state_pda amount signers) accs
                 else Inr accs) (\<lambda>accs.
          bindE (pf_invoke P [] (CloseAccount program (bu_buffer_pda b) recipient state_pda signers) accs) (\<lambda>accs.
          reclaim_buffers_loop P prog state_pda recipient signers buffers True accs))
        else reclaim_buffers_loop P prog state_pda recipient signers buffers any_reclaimed accs)))"

definition process_reclaim_buffer :: handler where
  "process_reclaim_buffer P prog accounts instruction_data accs =
     bindE (instruction_parse ReclaimBuffer reclaim_buffer_parse_body instruction_data accounts) (\<lambda>input.
     bindE (validate_is_state_pda P (av_address (rbi_state_pda input))) (\<lambda>_.
     with_state_pda_signer P (\<lambda>state_signer.
       bindE (state_from_account (view_account accs (rbi_state_pda input))) (\<lambda>state.
       if \<not> av_is_signer (rbi_reclaim_authority input) \<or>
          av_address (rbi_reclaim_authority input) \<noteq> state_authority state ReclaimAuthority
       then Inl (serr ReclaimAuthorityMismatch)
       else
         bindE (reclaim_buffers_loop P prog (rbi_state_pda input) (rbi_reclaim_recipient input) state_signer
           (buffers_iter (rbi_buffers input)) False accs) (\<lambda>(any_reclaimed, accs).
         if any_reclaimed then Inr accs else Inl (serr ReclaimBufferBurnLimitExceeded))))))"

section \<open>The handlers keep all orders\<close>

lemma token_account_len_frame:
  "invoke_frame P prog \<Longrightarrow> token_account_len P tp mint accs = Inr (len, accs') \<Longrightarrow> owned_frame prog accs accs'"
  by (auto simp: token_account_len_def result_simps intro: invoke_frameD split: TokenProgram.splits if_splits)

lemma create_buffers_loop_frame:
  "invoke_frame P prog \<Longrightarrow> create_buffers_loop P prog payer buffers accs = Inr accs' \<Longrightarrow> owned_frame prog accs accs'"
proof (induction buffers arbitrary: accs)
  case (Cons b buffers)
  from Cons.prems(2) obtain tp len m1 created bump m2 m3 where
    len: "token_account_len P tp (ba_mint b) accs = Inr (len, m1)"
    and new: "create_idempotent P \<lparr>cp_program_id = prog, cp_payer = payer, cp_pda = ba_buffer_pda b, cp_size = len,
        cp_owner = token_program_address P tp, cp_seeds = buffer_pda_seeds (av_address (ba_mint b))\<rparr> m1 =
      Inr (created, bump, m2)"
    and init: "(if created then pf_invoke P [] (InitializeAccount3 (token_program_address P tp) (ba_buffer_pda b)
        (ba_mint b) (STATE_PDA P)) m2 else Inr m2) = Inr m3"
    and rest: "create_buffers_loop P prog payer buffers m3 = Inr accs'"
    by (auto simp: bindE_Inr_iff Let_def split del: if_split)
  have "owned_frame prog m2 m3"
    using init invoke_frameD [OF Cons.prems(1)] by (auto split: if_splits)
  with token_account_len_frame [OF Cons.prems(1) len] create_idempotent_frame [OF Cons.prems(1) new]
    Cons.IH [OF Cons.prems(1) rest]
  show ?case by (blast intro: owned_frame_trans)
qed simp

interpretation create_buffer_handler: order_preserving process_create_buffer
proof
  fix P prog accs views data accs'
  assume rules: "runtime_rules P prog" and inv: "orders_inv prog accs"
    and "process_create_buffer P prog views data accs = Inr accs'"
  then obtain payer buffers where "create_buffers_loop P prog payer buffers accs = Inr accs'"
    by (auto simp: process_create_buffer_def bindE_Inr_iff)
  then have "owned_frame prog accs accs'"
    using rules unfolding runtime_rules_def by (blast intro: create_buffers_loop_frame)
  with inv show "keeps_orders prog accs accs'"
    by (rule frame_keeps_orders)
qed

lemma reclaim_buffers_loop_frame:
  "invoke_frame P prog \<Longrightarrow>
    reclaim_buffers_loop P prog' s r signers buffers any accs = Inr (any', accs') \<Longrightarrow> owned_frame prog accs accs'"
proof (induction buffers arbitrary: any accs)
  case (Cons b buffers)
  consider "reclaim_buffers_loop P prog' s r signers buffers any accs = Inr (any', accs')"
    | (close) tp m1 m2 where
      "m1 = accs \<or> (\<exists>c. pf_invoke P [] c accs = Inr m1)"
      "pf_invoke P [] (CloseAccount (token_program_address P tp) (bu_buffer_pda b) r s signers) m1 = Inr m2"
      "reclaim_buffers_loop P prog' s r signers buffers True m2 = Inr (any', accs')"
    using Cons.prems(2) by (auto simp: bindE_Inr_iff Let_def split: if_splits)
  then show ?case
  proof cases
    case 1
    then show ?thesis by (rule Cons.IH [OF Cons.prems(1)])
  next
    case close
    then have "owned_frame prog accs m1" "owned_frame prog m1 m2" "owned_frame prog m2 accs'"
      using invoke_frameD [OF Cons.prems(1)] Cons.IH [OF Cons.prems(1)] by auto
    then show ?thesis by (blast intro: owned_frame_trans)
  qed
qed simp

interpretation reclaim_buffer_handler: order_preserving process_reclaim_buffer
proof
  fix P prog accs views data accs'
  assume rules: "runtime_rules P prog" and inv: "orders_inv prog accs"
    and "process_reclaim_buffer P prog views data accs = Inr accs'"
  then obtain s r signers buffers any any' where
    "reclaim_buffers_loop P prog s r signers buffers any accs = Inr (any', accs')"
    by (auto simp: process_reclaim_buffer_def with_state_pda_signer_def bindE_Inr_iff split: if_splits)
  then have "owned_frame prog accs accs'"
    using rules unfolding runtime_rules_def by (blast intro: reclaim_buffers_loop_frame)
  with inv show "keeps_orders prog accs accs'"
    by (rule frame_keeps_orders)
qed

section \<open>Properties\<close>

lemma owning_token_program_spl:
  "acc_owner (view_account accs v) = pf_spl_token_id P \<Longrightarrow> owning_token_program P accs v = Inr SplToken"
  by (simp add: owning_token_program_def token_program_try_from_def token_program_all_def)

lemma create_buffers_loop_existing:
  assumes "\<forall>b \<in> set buffers. acc_owner (view_account accs (ba_mint b)) = pf_spl_token_id P \<and>
    acc_owner (view_account accs (ba_buffer_pda b)) = pf_spl_token_id P \<and>
    av_address (ba_buffer_pda b) = fst (find_buffer_pda P prog (av_address (ba_mint b)))"
  shows "create_buffers_loop P prog payer buffers accs = Inr accs"
  using assms
proof (induction buffers)
  case (Cons b buffers)
  have "create_idempotent P \<lparr>cp_program_id = prog, cp_payer = payer, cp_pda = ba_buffer_pda b,
      cp_size = BASE_TOKEN_ACCOUNT_LEN, cp_owner = pf_spl_token_id P,
      cp_seeds = buffer_pda_seeds (av_address (ba_mint b))\<rparr> accs =
    Inr (False, snd (find_buffer_pda P prog (av_address (ba_mint b))), accs)"
    using Cons.prems by (auto simp: create_idempotent_existing find_buffer_pda_def)
  moreover have "owning_token_program P accs (ba_mint b) = Inr SplToken"
    using Cons.prems by (simp add: owning_token_program_spl)
  moreover have "create_buffers_loop P prog payer buffers accs = Inr accs"
    using Cons.prems by (intro Cons.IH) auto
  ultimately show ?case by (simp add: token_account_len_def Let_def)
qed simp

text \<open>
  Creating buffers that exist changes nothing and succeeds, so parties that race
  to create the same buffers all succeed.
\<close>

theorem create_buffer_idempotent:
  assumes "instruction_parse CreateBuffer create_buffer_parse_body data views = Inr input"
    and "\<forall>b \<in> set (create_buffer_buffers input).
      acc_owner (view_account accs (ba_mint b)) = pf_spl_token_id P \<and>
      acc_owner (view_account accs (ba_buffer_pda b)) = pf_spl_token_id P \<and>
      av_address (ba_buffer_pda b) = fst (find_buffer_pda P prog (av_address (ba_mint b)))"
  shows "process_create_buffer P prog views data accs = Inr accs"
  using assms(1) create_buffers_loop_existing [OF assms(2)] by (simp add: process_create_buffer_def)

lemma reclaim_buffers_loop_canonical:
  "reclaim_buffers_loop P prog s r signers buffers any accs = Inr res \<Longrightarrow>
    \<forall>b \<in> set buffers. av_address (bu_buffer_pda b) = fst (find_buffer_pda P prog (av_address (bu_mint b)))"
proof (induction buffers arbitrary: any accs)
  case (Cons b buffers)
  obtain any' accs'' where "reclaim_buffers_loop P prog s r signers buffers any' accs'' = Inr res"
    and "av_address (bu_buffer_pda b) = fst (find_buffer_pda P prog (av_address (bu_mint b)))"
    using Cons.prems by (auto simp: bindE_Inr_iff Let_def split: if_splits)
  with Cons.IH show ?case by auto
qed simp

text \<open>
  C34: a successful \<open>ReclaimBuffer\<close> was signed by the reclaim authority recorded in the
  canonical state account, and every buffer it names is the canonical buffer of the mint named
  with it.
\<close>

theorem reclaim_buffer_authorised:
  assumes "process_reclaim_buffer P prog views data accs = Inr accs'"
  shows "\<exists>input. instruction_parse ReclaimBuffer reclaim_buffer_parse_body data views = Inr input \<and>
    av_address (rbi_state_pda input) = STATE_PDA P \<and> av_is_signer (rbi_reclaim_authority input) \<and>
    av_address (rbi_reclaim_authority input) =
      state_authority (acc_data (accs (STATE_PDA P))) ReclaimAuthority \<and>
    (\<forall>b \<in> set (buffers_iter (rbi_buffers input)).
      av_address (bu_buffer_pda b) = fst (find_buffer_pda P prog (av_address (bu_mint b))))"
proof -
  from assms obtain input any' accs'' where
    parsed: "instruction_parse ReclaimBuffer reclaim_buffer_parse_body data views = Inr input"
    and state: "av_address (rbi_state_pda input) = STATE_PDA P"
    and auth: "av_is_signer (rbi_reclaim_authority input)"
      "av_address (rbi_reclaim_authority input) = state_authority (acc_data (accs (STATE_PDA P))) ReclaimAuthority"
    and loop: "reclaim_buffers_loop P prog (rbi_state_pda input) (rbi_reclaim_recipient input)
      [STATE_PDA_SIGNER_SEEDS P] (buffers_iter (rbi_buffers input)) False accs = Inr (any', accs'')"
    by (auto simp: process_reclaim_buffer_def with_state_pda_signer_def bindE_Inr_iff
        validate_is_state_pda_Inr_iff state_from_account_def state_attach_Inr_iff split: if_splits)
  from reclaim_buffers_loop_canonical [OF loop] parsed state auth show ?thesis by blast
qed

lemma reclaim_buffers_loop_over_limit:
  assumes "\<forall>b \<in> set buffers.
    av_address (bu_buffer_pda b) = fst (find_buffer_pda P prog (av_address (bu_mint b))) \<and>
    (\<exists>tp tok. owning_token_program P accs (bu_buffer_pda b) = Inr tp \<and>
      read_token_account P [] tp (bu_buffer_pda b) accs = Inr tok \<and> bu_burn_limit b < tka_amount tok)"
  shows "reclaim_buffers_loop P prog s r signers buffers any accs = Inr (any, accs)"
  using assms by (induction buffers) (auto simp: Let_def)

text \<open>
  C35: when the balance of every named buffer exceeds its burn limit, nothing is burned or closed
  and the instruction fails with \<open>ReclaimBufferBurnLimitExceeded\<close>.
\<close>

theorem reclaim_buffer_respects_limit:
  assumes "instruction_parse ReclaimBuffer reclaim_buffer_parse_body data views = Inr input"
    and "av_address (rbi_state_pda input) = STATE_PDA P"
    and "state_attach (acc_data (accs (STATE_PDA P))) = Inr (acc_data (accs (STATE_PDA P)))"
    and "av_is_signer (rbi_reclaim_authority input)"
    and "av_address (rbi_reclaim_authority input) = state_authority (acc_data (accs (STATE_PDA P))) ReclaimAuthority"
    and "\<forall>b \<in> set (buffers_iter (rbi_buffers input)).
      av_address (bu_buffer_pda b) = fst (find_buffer_pda P prog (av_address (bu_mint b))) \<and>
      (\<exists>tp tok. owning_token_program P accs (bu_buffer_pda b) = Inr tp \<and>
        read_token_account P [] tp (bu_buffer_pda b) accs = Inr tok \<and> bu_burn_limit b < tka_amount tok)"
  shows "process_reclaim_buffer P prog views data accs = Inl (serr ReclaimBufferBurnLimitExceeded)"
  using assms(1-5) reclaim_buffers_loop_over_limit [OF assms(6)]
  by (simp add: process_reclaim_buffer_def with_state_pda_signer_def state_from_account_def
      validate_is_state_pda_def STATE_PDA_def)

end
