(* ===== verification/Settle.thy ===== *)
theory Settle
  imports Runtime
begin

text \<open>
  The settlement itself (\<open>programs/settlement/src/processor/{begin_settle,finalize_settle}.rs\<close>).
  \<open>BeginSettle\<close> authenticates the solver, checks its counterpart in the same transaction, and for
  every order validates the push that pays it, pulls the sell tokens and updates the order's
  counters; \<open>FinalizeSettle\<close> pays the pushes out. The lemmas invert the handlers: what a
  settled order satisfied, what was pulled and by how much the counters moved, that the limit
  price holds on exact products, and that pushes and orders are paired one to one.
\<close>

section \<open>The limit price and the fill\<close>

definition validate_limit_price :: "bytes \<Rightarrow> FillAmounts \<Rightarrow> unit result" where
  "validate_limit_price intent settled =
     (let amount_in = fa_withdrawn settled; amount_out = fa_received settled in
      bindE (ia_sell_amount intent) (\<lambda>sell_amount.
      bindE (ok_or (checked_mul (ucast amount_out :: u128) (ucast sell_amount)) Panic) (\<lambda>lhs.
      bindE (ia_buy_amount intent) (\<lambda>buy_amount.
      bindE (ok_or (checked_mul (ucast amount_in :: u128) (ucast buy_amount)) Panic) (\<lambda>rhs.
      if lhs < rhs then Inl (serr LimitPriceViolated) else Inr ())))))"

definition validated_final_amounts :: "bytes \<Rightarrow> FillAmounts \<Rightarrow> FillAmounts \<Rightarrow> FillAmounts result" where
  "validated_final_amounts intent prior settled =
     bindE (ok_or (checked_add (fa_withdrawn prior) (fa_withdrawn settled)) (serr AmountWithdrawnOverflow)) (\<lambda>withdrawn.
     bindE (ok_or (checked_add (fa_received prior) (fa_received settled)) (serr AmountReceivedOverflow)) (\<lambda>received.
     bindE (ia_flags intent) (\<lambda>flags.
     bindE (case fl_kind flags of
              Sell \<Rightarrow> bindE (ia_sell_amount intent) (\<lambda>a. Inr (withdrawn, a))
            | Buy \<Rightarrow> bindE (ia_buy_amount intent) (\<lambda>a. Inr (received, a))) (\<lambda>(filled, order_amount).
     if filled \<noteq> order_amount \<and> \<not> fl_partially_fillable flags then Inl (serr OrderNotExactlyFilled)
     else if filled > order_amount then Inl (serr FillExceedsOrderAmount)
     else Inr \<lparr>fa_withdrawn = withdrawn, fa_received = received\<rparr>))))"

section \<open>The pushes of the counterpart\<close>

record PairedPush =
  pp_source_buffer :: pubkey
  pp_destination :: pubkey
  pp_bump :: u8
  pp_amount :: u64

text \<open>\<open>(FINALIZE_FIXED_ACCOUNTS + 1..n).step_by(FINALIZE_PUSH_ACCOUNTS)\<close>.\<close>

definition push_accounts :: "instruction \<Rightarrow> (pubkey \<times> pubkey) list" where
  "push_accounts ix =
     (let account_at = (\<lambda>i. am_pubkey (ix_accounts ix ! i)) in
      map (\<lambda>destination_index. (account_at (destination_index - 1), account_at destination_index))
        (filter (\<lambda>i. (i - (FINALIZE_FIXED_ACCOUNTS + 1)) mod FINALIZE_PUSH_ACCOUNTS = 0)
          [FINALIZE_FIXED_ACCOUNTS + 1..<length (ix_accounts ix)]))"

definition finalize_pushes :: "instruction \<Rightarrow> PairedPush list result" where
  "finalize_pushes finalize_ix =
     bindE (finalize_push_data (ix_data finalize_ix)) (\<lambda>(bumps, amounts).
     Inr (map (\<lambda>((source_buffer, destination), (bump, amount)).
            \<lparr>pp_source_buffer = source_buffer, pp_destination = destination, pp_bump = bump,
             pp_amount = from_le amount\<rparr>)
       (zip (push_accounts finalize_ix) (zip bumps amounts))))"

section \<open>No settlement inside a settlement\<close>

fun no_nested_loop :: "pubkey \<Rightarrow> instruction list \<Rightarrow> nat list \<Rightarrow> unit result" where
  "no_nested_loop prog instructions [] = Inr ()"
| "no_nested_loop prog instructions (i # rest) =
     bindE (load_instruction_at instructions i) (\<lambda>inner.
     if ix_program_id inner \<noteq> prog then no_nested_loop prog instructions rest
     else case recover_discriminator (ix_data inner) of
       Inr (discriminator, _) \<Rightarrow>
         if discriminator \<in> {BeginSettle, FinalizeSettle} then Inl (serr BeginFinalizePairOverlap)
         else no_nested_loop prog instructions rest
     | Inl _ \<Rightarrow> no_nested_loop prog instructions rest)"

definition validate_no_nested_settlement ::
  "pubkey \<Rightarrow> instruction list \<Rightarrow> u16 \<Rightarrow> u16 \<Rightarrow> unit result" where
  "validate_no_nested_settlement prog instructions current_index finalize_ix_index =
     (if finalize_ix_index \<le> current_index then Inl (serr FinalizeBeforeInitialize)
      else
        bindE (ok_or (checked_add current_index 1) Panic) (\<lambda>search_start.
        no_nested_loop prog instructions [unat search_start..<unat finalize_ix_index]))"

section \<open>One order\<close>

text \<open>The pulls of one order, summing what they move; the order stays borrowed meanwhile.\<close>

fun process_pulls ::
  "platform \<Rightarrow> pubkey list \<Rightarrow> TokenProgram \<Rightarrow> account_view \<Rightarrow> MintDecimals \<Rightarrow> account_view \<Rightarrow> bytes list list \<Rightarrow>
   (account_view \<times> bytes) list \<Rightarrow> u64 \<Rightarrow> accounts \<Rightarrow> (u64 \<times> accounts) result" where
  "process_pulls P borrowed token_program sell_token_account sell_mint state_account signers [] amount_in accs =
     Inr (amount_in, accs)"
| "process_pulls P borrowed token_program sell_token_account sell_mint state_account signers
     ((destination, amount) # pulls) amount_in accs =
     bindE (ok_or (checked_add amount_in (from_le amount)) (serr PullAmountOverflow)) (\<lambda>amount_in.
     bindE (pf_invoke P borrowed
       (transfer_maybe_checked P token_program sell_token_account sell_mint destination state_account
         (from_le amount) signers) accs) (\<lambda>accs.
     process_pulls P borrowed token_program sell_token_account sell_mint state_account signers pulls
       amount_in accs))"

definition process_order ::
  "platform \<Rightarrow> pubkey \<Rightarrow> account_view SettledOrder \<Rightarrow> PairedPush \<Rightarrow> int \<Rightarrow> account_view \<Rightarrow> bytes list list \<Rightarrow>
   accounts \<Rightarrow> accounts result" where
  "process_order P prog settled push now state_account signers accs =
     (let order_pda = so_order_pda settled; sell_token_account = so_sell_token_account settled;
          borrowed = [av_address order_pda] in
      bindE (order_load_from_pda P accs order_pda prog) (\<lambda>order.
      bindE (order_cancelled order) (\<lambda>cancelled.
      if cancelled then Inl (serr OrderCancelled)
      else
        bindE (ia_from_order order) (\<lambda>intent.
        let prior_fill = order_filled_amounts order in
        if now > int (unat (ia_valid_to intent)) then Inl (serr OrderExpired)
        else if pp_destination push \<noteq> ia_buy_token_account intent then Inl (serr PushDestinationMismatch)
        else
          bindE (validate_buffer_pda P (pp_source_buffer push) (ia_buy_mint intent) (pp_bump push)) (\<lambda>_.
          if pp_source_buffer push = pp_destination push then Inl (serr PushSourceIsDestination)
          else if av_address sell_token_account \<noteq> ia_sell_token_account intent
          then Inl (serr SellTokenAccountMismatch)
          else
            bindE (map_err (\<lambda>_. serr SellTokenAccountInvalid)
              (owning_token_program P accs sell_token_account)) (\<lambda>token_program.
            bindE (map_err (\<lambda>_. serr SellTokenAccountInvalid)
              (read_token_account P borrowed token_program sell_token_account accs)) (\<lambda>sell_token.
            if tka_owner sell_token \<noteq> ia_owner intent then Inl (serr SellTokenOwnerMismatch)
            else if tka_mint sell_token \<noteq> ia_sell_mint intent then Inl (serr SellMintMismatch)
            else
              bindE (read_mint_decimals P borrowed token_program (so_sell_mint settled) accs) (\<lambda>sell_mint.
              bindE (process_pulls P borrowed token_program sell_token_account sell_mint state_account signers
                (zip (so_destinations settled) (so_amounts settled)) 0 accs) (\<lambda>(amount_in, accs).
              let fill = \<lparr>fa_withdrawn = amount_in, fa_received = pp_amount push\<rparr> in
              bindE (validate_limit_price intent fill) (\<lambda>_.
              bindE (validated_final_amounts intent prior_fill fill) (\<lambda>final_amounts.
              Inr (set_data (av_address order_pda)
                (order_set_amounts final_amounts (acc_data (view_account accs order_pda))) accs))))))))))))"

section \<open>All orders\<close>

text \<open>
  The loop of \<open>settle_orders\<close>: \<open>previous\<close> is the address of the order before, \<open>pushes\<close> what is left
  of the counterpart's pushes. A leftover push is an error after the last order.
\<close>

fun settle_orders_loop ::
  "platform \<Rightarrow> pubkey \<Rightarrow> account_view \<Rightarrow> bytes list list \<Rightarrow> int \<Rightarrow> account_view SettledOrder result list \<Rightarrow>
   pubkey option \<Rightarrow> PairedPush list \<Rightarrow> accounts \<Rightarrow> accounts result" where
  "settle_orders_loop P prog state_account signers now [] previous pushes accs =
     (if pushes \<noteq> [] then Inl (serr SettledOrderPushCountMismatch) else Inr accs)"
| "settle_orders_loop P prog state_account signers now (item # orders) previous pushes accs =
     bindE item (\<lambda>order.
     let address = av_address (so_order_pda order) in
     if (case previous of None \<Rightarrow> False | Some p \<Rightarrow> address \<le> p) then Inl (serr OrdersNotStrictlyIncreasing)
     else case pushes of
       [] \<Rightarrow> Inl (serr SettledOrderPushCountMismatch)
     | push # pushes \<Rightarrow>
         bindE (process_order P prog order push now state_account signers accs) (\<lambda>accs.
         settle_orders_loop P prog state_account signers now orders (Some address) pushes accs))"

definition settle_orders ::
  "platform \<Rightarrow> pubkey \<Rightarrow> account_view \<Rightarrow> bytes list list \<Rightarrow> account_view SettledOrders \<Rightarrow> instruction \<Rightarrow>
   accounts \<Rightarrow> accounts result" where
  "settle_orders P prog state_account signers orders finalize_ix accs =
     bindE (pf_clock P) (\<lambda>now.
     bindE (finalize_pushes finalize_ix) (\<lambda>pushes.
     settle_orders_loop P prog state_account signers now (settled_orders_iter orders) None pushes accs))"

definition process_begin_settle :: handler where
  "process_begin_settle P prog accounts instruction_data accs =
     (if is_cpi_call P then Inl (serr CalledViaCpi)
      else
        bindE (instruction_parse BeginSettle begin_settle_parse_body instruction_data accounts) (\<lambda>input.
        bindE (validate_is_state_pda P (av_address (bsi_state_pda_account input))) (\<lambda>_.
        bindE (require_solver accs (bsi_state_pda_account input) (bsi_solver_account input)) (\<lambda>_.
        bindE (instructions_try_from P (bsi_instructions_sysvar_account input)) (\<lambda>instructions.
        let current_index = pf_current_index P in
        bindE (validate_counterpart prog instructions current_index (bsi_finalize_ix_index input)
          FinalizeSettle) (\<lambda>_.
        bindE (validate_no_nested_settlement prog instructions current_index (bsi_finalize_ix_index input)) (\<lambda>_.
        bindE (load_instruction_at instructions (unat (bsi_finalize_ix_index input))) (\<lambda>finalize_ix.
        with_state_pda_signer P (\<lambda>signer.
          settle_orders P prog (bsi_state_pda_account input) signer (bsi_orders input) finalize_ix accs)))))))))"

section \<open>Paying out\<close>

fun push_tokens_loop ::
  "platform \<Rightarrow> account_view \<Rightarrow> bytes list list \<Rightarrow> account_view Push list \<Rightarrow> accounts \<Rightarrow> accounts result" where
  "push_tokens_loop P state_account signers [] accs = Inr accs"
| "push_tokens_loop P state_account signers (push # pushes) accs =
     (if av_address (pu_source_buffer push) \<noteq> NATIVE_SOL_BUFFER_PDA P then
        bindE (map_err (\<lambda>_. serr InvalidTokenProgram)
          (owning_token_program P accs (pu_destination push))) (\<lambda>token_program.
        bindE (read_mint_decimals P [] token_program (pu_mint push) accs) (\<lambda>mint.
        bindE (pf_invoke P [] (transfer_maybe_checked P token_program (pu_source_buffer push) mint
          (pu_destination push) state_account (pu_amount push) signers) accs) (\<lambda>accs.
        push_tokens_loop P state_account signers pushes accs)))
      else push_tokens_loop P state_account signers pushes accs)"

text \<open>The flag says whether the native SOL buffer paid anything.\<close>

fun push_native_loop ::
  "platform \<Rightarrow> account_view Push list \<Rightarrow> bool \<Rightarrow> accounts \<Rightarrow> (bool \<times> accounts) result" where
  "push_native_loop P [] used accs = Inr (used, accs)"
| "push_native_loop P (push # pushes) used accs =
     (if av_address (pu_source_buffer push) = NATIVE_SOL_BUFFER_PDA P then
        bindE (move_lamports (pu_source_buffer push) (pu_destination push) (pu_amount push) accs) (\<lambda>accs.
        push_native_loop P pushes True accs)
      else push_native_loop P pushes used accs)"

definition push_funds ::
  "platform \<Rightarrow> account_view \<Rightarrow> bytes list list \<Rightarrow> account_view Pushes \<Rightarrow> accounts \<Rightarrow> accounts result" where
  "push_funds P state_account signers pushes accs =
     bindE (push_tokens_loop P state_account signers (pushes_iter pushes) accs) (\<lambda>accs.
     bindE (push_native_loop P (pushes_iter pushes) False accs) (\<lambda>(used, accs).
     if used \<and> acc_lamports (accs (NATIVE_SOL_BUFFER_PDA P)) = 0 then Inl (serr NativeSolBufferEmptied)
     else Inr accs))"

definition process_finalize_settle :: handler where
  "process_finalize_settle P prog accounts instruction_data accs =
     (if is_cpi_call P then Inl (serr CalledViaCpi)
      else
        bindE (instruction_parse FinalizeSettle finalize_settle_parse_body instruction_data accounts) (\<lambda>input.
        bindE (instructions_try_from P (fsi_instructions_sysvar_account input)) (\<lambda>instructions.
        let current_index = pf_current_index P in
        bindE (validate_counterpart prog instructions current_index (fsi_begin_ix_index input) BeginSettle) (\<lambda>_.
        bindE (validate_is_state_pda P (av_address (fsi_state_pda_account input))) (\<lambda>_.
        with_state_pda_signer P (\<lambda>signers.
          push_funds P (fsi_state_pda_account input) signers (fsi_pushes input) accs))))))"

section \<open>The limit price on exact products\<close>

text \<open>
  The products are taken in 128 bits, where two 64-bit factors never overflow: the check is the
  comparison of the exact products and never aborts on an intent that passed its check.
\<close>

lemma validate_limit_price_Inr_iff:
  assumes "ia_sell_amount intent = Inr sell" and "ia_buy_amount intent = Inr buy"
  shows "validate_limit_price intent settled = Inr u \<longleftrightarrow>
    unat (fa_withdrawn settled) * unat buy \<le> unat (fa_received settled) * unat sell"
  using assms
  by (simp add: validate_limit_price_def Let_def checked_mul_widened(1) word_less_nat_alt
      checked_mul_widened(2) not_less)

lemma validate_limit_price_Inl:
  assumes "check_bytes intent = Inr ()" and "validate_limit_price intent settled = Inl e"
  shows "e = serr LimitPriceViolated"
  using assms(1)
proof (rule accessor_total)
  fix sell buy flags
  assume "ia_sell_amount intent = Inr sell" and "ia_buy_amount intent = Inr buy"
  with assms(2) show ?thesis
    by (simp add: validate_limit_price_def Let_def checked_mul_widened(1) split: if_splits)
qed

text \<open>How the counters move, and the bound the order's kind puts on them.\<close>

definition exactly_filled :: "Flags \<Rightarrow> u64 \<Rightarrow> u64 \<Rightarrow> FillAmounts \<Rightarrow> bool" where
  "exactly_filled flags sell buy fill =
     (case fl_kind flags of Sell \<Rightarrow> fa_withdrawn fill = sell | Buy \<Rightarrow> fa_received fill = buy)"

lemma validated_final_amounts_Inr_iff:
  assumes "ia_sell_amount intent = Inr sell" and "ia_buy_amount intent = Inr buy"
    and "ia_flags intent = Inr flags"
  shows "validated_final_amounts intent prior settled = Inr final \<longleftrightarrow>
    unat (fa_withdrawn final) = unat (fa_withdrawn prior) + unat (fa_withdrawn settled) \<and>
    unat (fa_received final) = unat (fa_received prior) + unat (fa_received settled) \<and>
    (case fl_kind flags of Sell \<Rightarrow> fa_withdrawn final \<le> sell | Buy \<Rightarrow> fa_received final \<le> buy) \<and>
    (fl_partially_fillable flags \<or> exactly_filled flags sell buy final)"
  using assms
  by (cases "fl_kind flags"; cases final)
    (auto simp: validated_final_amounts_def bindE_Inr_iff ok_or_Inr_iff checked_add_Some_iff
      if_Inl_Inr_iff exactly_filled_def not_less split del: if_split)

text \<open>The step of the fill invariant: an order within its limit price stays within it.\<close>

lemma fill_ok_step:
  assumes checked: "check_bytes intent = Inr ()" and prior: "fill_ok intent prior"
    and price: "validate_limit_price intent settled = Inr u"
    and final: "validated_final_amounts intent prior settled = Inr final"
  shows "fill_ok intent final"
  using checked
proof (rule accessor_total)
  fix sell buy flags
  assume acc: "ia_sell_amount intent = Inr sell" "ia_buy_amount intent = Inr buy" "ia_flags intent = Inr flags"
  note step = final [unfolded validated_final_amounts_Inr_iff [OF acc]]
  have "unat (fa_withdrawn final) * unat buy \<le> unat (fa_received final) * unat sell"
    using prior price [unfolded validate_limit_price_Inr_iff [OF acc(1,2)]] step
    by (simp add: fill_ok_iff [OF acc] add_mult_distrib)
  then show ?thesis
    using step by (simp add: fill_ok_iff [OF acc])
qed

lemma validated_final_amounts_grow:
  assumes "check_bytes intent = Inr ()" and "validated_final_amounts intent prior settled = Inr final"
  shows "fa_withdrawn prior \<le> fa_withdrawn final \<and> fa_received prior \<le> fa_received final"
  using assms(1)
proof (rule accessor_total)
  fix sell buy flags
  assume acc: "ia_sell_amount intent = Inr sell" "ia_buy_amount intent = Inr buy" "ia_flags intent = Inr flags"
  show ?thesis
    using assms(2) by (simp add: validated_final_amounts_Inr_iff [OF acc] word_le_nat_alt)
qed

section \<open>Pulls\<close>

text \<open>
  What is asked of a token program: one transfer of \<open>amount\<close> from \<open>from\<close> to \<open>to\<close>, authorised by
  \<open>authority\<close> with the signing seeds \<open>signers\<close>, in the plain form or in the one that names the mint.
\<close>

definition token_moved ::
  "platform \<Rightarrow> pubkey list \<Rightarrow> TokenProgram \<Rightarrow> account_view \<Rightarrow> account_view \<Rightarrow> account_view \<Rightarrow> bytes list list \<Rightarrow> u64 \<Rightarrow>
   accounts \<Rightarrow> accounts \<Rightarrow> bool" where
  "token_moved P borrowed tp from to authority signers amount accs accs' \<longleftrightarrow>
     pf_invoke P borrowed (TokenTransfer (token_program_address P tp) from to authority amount signers) accs = Inr accs' \<or>
     (\<exists>mint decimals. pf_invoke P borrowed
        (TokenTransferChecked (token_program_address P tp) from mint to authority amount decimals signers) accs = Inr accs')"

lemma transfer_moves_token:
  "pf_invoke P borrowed (transfer_maybe_checked P tp from mint to authority amount signers) accs = Inr accs' \<Longrightarrow>
    token_moved P borrowed tp from to authority signers amount accs accs'"
  by (cases mint) (auto simp: token_moved_def)

text \<open>The pulls are such transfers, one for each, in order.\<close>

lemma process_pulls_moves:
  assumes "process_pulls P borrowed tp sell mint state signers pulls start accs = Inr (amount_in, accs')"
  shows "steps_through (\<lambda>(destination, amount). token_moved P borrowed tp sell destination state signers (from_le amount))
    pulls accs accs'"
  using assms
proof (induction pulls arbitrary: start accs)
  case (Cons pull pulls)
  then show ?case
    by (cases pull) (auto simp: bindE_Inr_iff dest!: transfer_moves_token)
qed simp

text \<open>
  The sum the pulls report is the exact sum of their amounts; they leave the program's
  accounts alone, and the borrowed order untouched.
\<close>

lemma process_pulls_sum:
  assumes "process_pulls P borrowed tp sell mint state signers pulls start accs = Inr (amount_in, accs')"
  shows "unat amount_in = unat start + (\<Sum>(_, amount)\<leftarrow>pulls. unat (from_le amount :: u64))"
  using assms
proof (induction pulls arbitrary: start accs)
  case (Cons pull pulls)
  obtain v amount where pull: "pull = (v, amount)" by (cases pull)
  from Cons.prems obtain start1 accs1 where "unat start1 = unat start + unat (from_le amount :: u64)"
    and "process_pulls P borrowed tp sell mint state signers pulls start1 accs1 = Inr (amount_in, accs')"
    by (auto simp: pull bindE_Inr_iff ok_or_Inr_iff checked_add_Some_iff)
  then show ?case using Cons.IH by (simp add: pull)
qed simp

lemma process_pulls_frame:
  assumes frame: "invoke_frame P prog"
    and "process_pulls P borrowed tp sell mint state signers pulls start accs = Inr (amount_in, accs')"
  shows "owned_frame prog accs accs'" and "a \<in> set borrowed \<Longrightarrow> accs' a = accs a"
  using assms(2)
proof (induction pulls arbitrary: start accs)
  case (Cons pull pulls)
  obtain v amount where pull: "pull = (v, amount)" by (cases pull)
  {
    case 1
    from this obtain c start1 accs1 where "pf_invoke P borrowed c accs = Inr accs1"
      and "process_pulls P borrowed tp sell mint state signers pulls start1 accs1 = Inr (amount_in, accs')"
      by (auto simp: pull bindE_Inr_iff)
    then show ?case
      using Cons.IH(1) invoke_frameD [OF frame] owned_frame_trans by metis
  next
    case 2
    from this(2) obtain c start1 accs1 where "pf_invoke P borrowed c accs = Inr accs1"
      and "process_pulls P borrowed tp sell mint state signers pulls start1 accs1 = Inr (amount_in, accs')"
      by (auto simp: pull bindE_Inr_iff)
    then show ?case
      using Cons.IH(2) [OF 2(1)] invoke_frame_borrowed [OF frame _ 2(1)] by metis
  }
qed simp_all

section \<open>One order\<close>

text \<open>What it took to settle an order, in terms of the order's own intent.\<close>

definition order_settleable :: "platform \<Rightarrow> pubkey \<Rightarrow> int \<Rightarrow> accounts \<Rightarrow> account_view SettledOrder \<Rightarrow> PairedPush \<Rightarrow> bool" where
  "order_settleable P prog now accs settled push \<longleftrightarrow>
     (let order = acc_data (view_account accs (so_order_pda settled)); intent = order_intent_bytes order in
      order_load_from_pda P accs (so_order_pda settled) prog = Inr order \<and>
      order_cancelled order = Inr False \<and> check_bytes intent = Inr () \<and>
      now \<le> int (unat (ia_valid_to intent)) \<and>
      pp_destination push = ia_buy_token_account intent \<and>
      validate_buffer_pda P (pp_source_buffer push) (ia_buy_mint intent) (pp_bump push) = Inr () \<and>
      pp_source_buffer push \<noteq> pp_destination push \<and>
      av_address (so_sell_token_account settled) = ia_sell_token_account intent)"

definition pulled :: "'a SettledOrder \<Rightarrow> nat" where
  "pulled settled = (\<Sum>(_, amount)\<leftarrow>zip (so_destinations settled) (so_amounts settled). unat (from_le amount :: u64))"

lemma process_order_Inr:
  assumes "process_order P prog settled push now state signers accs = Inr accs'"
  obtains tp token mint amount_in mid final
  where "order_settleable P prog now accs settled push"
    and "owning_token_program P accs (so_sell_token_account settled) = Inr tp"
    and "read_token_account P [av_address (so_order_pda settled)] tp (so_sell_token_account settled) accs = Inr token"
    and "tka_owner token = ia_owner (order_intent_bytes (acc_data (view_account accs (so_order_pda settled))))"
    and "tka_mint token = ia_sell_mint (order_intent_bytes (acc_data (view_account accs (so_order_pda settled))))"
    and "process_pulls P [av_address (so_order_pda settled)] tp (so_sell_token_account settled) mint state signers
      (zip (so_destinations settled) (so_amounts settled)) 0 accs = Inr (amount_in, mid)"
    and "validate_limit_price (order_intent_bytes (acc_data (view_account accs (so_order_pda settled))))
      \<lparr>fa_withdrawn = amount_in, fa_received = pp_amount push\<rparr> = Inr ()"
    and "validated_final_amounts (order_intent_bytes (acc_data (view_account accs (so_order_pda settled))))
      (order_filled_amounts (acc_data (view_account accs (so_order_pda settled))))
      \<lparr>fa_withdrawn = amount_in, fa_received = pp_amount push\<rparr> = Inr final"
    and "accs' = set_data (av_address (so_order_pda settled))
      (order_set_amounts final (acc_data (view_account mid (so_order_pda settled)))) mid"
  using assms that
  by (auto simp: process_order_def order_settleable_def bindE_Inr_iff map_err_Inr_iff
      case_prod_Inr_iff if_Inl_Inr_iff Let_def order_load_from_pda_Inr_iff ia_from_order_Inr_iff not_less
      split del: if_split)

text \<open>
  What one settled order leaves behind: it was settleable, its counters moved by exactly what was
  pulled and pushed at a price within its limit, and nothing else about it changed.
\<close>

definition order_settled ::
  "platform \<Rightarrow> pubkey \<Rightarrow> int \<Rightarrow> accounts \<Rightarrow> accounts \<Rightarrow> account_view SettledOrder \<Rightarrow> PairedPush \<Rightarrow> bool" where
  "order_settled P prog now accs accs' settled push \<longleftrightarrow>
     order_settleable P prog now accs settled push \<and>
     (let d = acc_data (view_account accs (so_order_pda settled));
          d' = acc_data (view_account accs' (so_order_pda settled)); intent = order_intent_bytes d;
          before = order_filled_amounts d; after = order_filled_amounts d' in
      (\<exists>sell buy flags. ia_sell_amount intent = Inr sell \<and> ia_buy_amount intent = Inr buy \<and>
         ia_flags intent = Inr flags \<and>
         pulled settled * unat buy \<le> unat (pp_amount push) * unat sell \<and>
         (fl_partially_fillable flags \<or> exactly_filled flags sell buy after)) \<and>
      unat (fa_withdrawn after) = unat (fa_withdrawn before) + pulled settled \<and>
      unat (fa_received after) = unat (fa_received before) + unat (pp_amount push) \<and>
      d' = order_set_amounts after d)"

lemma process_order_settled:
  assumes frame: "invoke_frame P prog"
    and run: "process_order P prog settled push now state signers accs = Inr accs'"
  shows "order_settled P prog now accs accs' settled push"
    and "acc_owner (view_account accs' (so_order_pda settled)) = acc_owner (view_account accs (so_order_pda settled))"
    and "acc_owner (accs a) = prog \<Longrightarrow> a \<noteq> av_address (so_order_pda settled) \<Longrightarrow>
      acc_owner (accs' a) = prog \<and> acc_data (accs' a) = acc_data (accs a)"
    and "fill_ok (order_intent_bytes (acc_data (view_account accs (so_order_pda settled))))
        (order_filled_amounts (acc_data (view_account accs (so_order_pda settled)))) \<Longrightarrow>
      fill_ok (order_intent_bytes (acc_data (view_account accs (so_order_pda settled))))
        (order_filled_amounts (acc_data (view_account accs' (so_order_pda settled))))"
    and "acc_owner (accs b) \<noteq> prog \<Longrightarrow> acc_owner (accs' b) = prog \<Longrightarrow> zeroed (acc_data (accs' b))"
proof -
  let ?v = "so_order_pda settled" and ?d = "acc_data (view_account accs (so_order_pda settled))"
  let ?fill = "\<lambda>amount_in. \<lparr>fa_withdrawn = amount_in, fa_received = pp_amount push\<rparr>"
  from run obtain tp token mint amount_in mid final
    where able: "order_settleable P prog now accs settled push"
      and pulls: "process_pulls P [av_address ?v] tp (so_sell_token_account settled) mint state signers
        (zip (so_destinations settled) (so_amounts settled)) 0 accs = Inr (amount_in, mid)"
      and price: "validate_limit_price (order_intent_bytes ?d) (?fill amount_in) = Inr ()"
      and final: "validated_final_amounts (order_intent_bytes ?d) (order_filled_amounts ?d) (?fill amount_in) = Inr final"
      and accs': "accs' = set_data (av_address ?v) (order_set_amounts final (acc_data (view_account mid ?v))) mid"
    by (rule process_order_Inr)
  note same = process_pulls_frame(2) [OF frame pulls, of "av_address ?v", simplified]
  note owned = process_pulls_frame(1) [OF frame pulls]
  from able have checked: "check_bytes (order_intent_bytes ?d) = Inr ()" and len: "length ?d = ORDER_SIZE"
    by (simp_all add: order_settleable_def Let_def order_load_from_pda_Inr_iff order_attach_Inr_iff)
  have sum: "unat amount_in = pulled settled"
    using process_pulls_sum [OF pulls] by (simp add: pulled_def)
  have after: "order_filled_amounts (acc_data (view_account accs' ?v)) = final"
    and data: "acc_data (view_account accs' ?v) = order_set_amounts final ?d"
    using order_set_amounts_reads(1) [OF len] by (simp_all add: accs' same)
  show "order_settled P prog now accs accs' settled push"
    using checked
  proof (rule accessor_total)
    fix sell buy flags
    assume acc: "ia_sell_amount (order_intent_bytes ?d) = Inr sell" "ia_buy_amount (order_intent_bytes ?d) = Inr buy"
      "ia_flags (order_intent_bytes ?d) = Inr flags"
    show ?thesis
      using able price final data unfolding order_settled_def Let_def after
      by (auto simp: validate_limit_price_Inr_iff [OF acc(1,2)] validated_final_amounts_Inr_iff [OF acc] acc sum)
  qed
  show "acc_owner (view_account accs' ?v) = acc_owner (view_account accs ?v)"
    by (simp add: accs' same)
  show "acc_owner (accs' a) = prog \<and> acc_data (accs' a) = acc_data (accs a)"
    if "acc_owner (accs a) = prog" "a \<noteq> av_address ?v"
    using owned_frame_owned [OF owned that(1)] that(2) by (simp add: accs')
  show "fill_ok (order_intent_bytes ?d) (order_filled_amounts (acc_data (view_account accs' ?v)))"
    if "fill_ok (order_intent_bytes ?d) (order_filled_amounts ?d)"
    unfolding after by (rule fill_ok_step [OF checked that price final])
  show "zeroed (acc_data (accs' b))" if b: "acc_owner (accs b) \<noteq> prog" "acc_owner (accs' b) = prog"
  proof -
    have "b \<noteq> av_address ?v" using b same by (auto simp: accs')
    then show ?thesis using owned_frame_fresh [OF owned b(1)] b(2) by (simp add: accs')
  qed
qed

lemma order_settled_evolves:
  assumes "order_settled P prog now accs accs' settled push"
  shows "order_evolves (acc_data (view_account accs (so_order_pda settled)))
    (acc_data (view_account accs' (so_order_pda settled)))"
proof -
  let ?d = "acc_data (view_account accs (so_order_pda settled))"
  have len: "length ?d = ORDER_SIZE" and "order_attach ?d = Inr ?d" and "order_cancelled ?d = Inr False"
    using assms by (auto simp: order_settled_def order_settleable_def Let_def order_load_from_pda_Inr_iff
        order_attach_Inr_iff)
  moreover obtain fill where "acc_data (view_account accs' (so_order_pda settled)) = order_set_amounts fill ?d"
    and "unat (fa_withdrawn fill) = unat (fa_withdrawn (order_filled_amounts ?d)) + pulled settled"
    and "unat (fa_received fill) = unat (fa_received (order_filled_amounts ?d)) + unat (pp_amount push)"
    using assms unfolding order_settled_def Let_def by blast
  ultimately show ?thesis
    by (simp add: order_evolves_def order_set_amounts_reads [OF len, unfolded One_nat_def] order_attach_Inr_iff
        word_le_nat_alt)
qed

lemma process_order_keeps:
  assumes frame: "invoke_frame P prog" and inv: "orders_inv prog accs"
    and run: "process_order P prog settled push now state signers accs = Inr accs'"
  shows "orders_inv prog accs' \<and> orders_grow prog accs accs'"
proof (intro conjI)
  let ?a = "av_address (so_order_pda settled)" and ?d = "acc_data (view_account accs (so_order_pda settled))"
  note step = process_order_settled [OF frame run]
  have evolves: "order_evolves ?d (acc_data (accs' ?a))"
    by (rule order_settled_evolves [OF step(1)])
  have attached: "order_attach ?d = Inr ?d" and live: "order_cancelled ?d = Inr False" and len: "length ?d = ORDER_SIZE"
    and data: "\<exists>fill. acc_data (accs' ?a) = order_set_amounts fill ?d"
    using step(1) by (auto simp: order_settled_def order_settleable_def Let_def order_load_from_pda_Inr_iff
        order_attach_Inr_iff)
  have same: "order_cancelled (acc_data (accs' ?a)) = Inr False"
    using data live order_set_amounts_reads(2) [OF len] by auto
  show "orders_grow prog accs accs'"
    unfolding orders_grow_def using step(2,3) evolves by (metis order_evolves_refl)
  show "orders_inv prog accs'"
    unfolding orders_inv_def
  proof (intro allI impI)
    fix b assume b: "acc_owner (accs' b) = prog"
    consider "b = ?a" | "b \<noteq> ?a" "acc_owner (accs b) = prog" | "acc_owner (accs b) \<noteq> prog" by blast
    then show "order_inv (acc_data (accs' b))"
    proof cases
      case 1
      with b step(2) inv have "fill_ok (order_intent_bytes ?d) (order_filled_amounts ?d)"
        using attached by (simp add: orders_inv_def order_inv_def)
      then show ?thesis
        using step(4) evolves same 1 by (simp add: order_inv_def order_evolves_def)
    next
      case 2
      then show ?thesis using step(3) [of b] inv by (simp add: orders_inv_def)
    next
      case 3
      then show ?thesis using step(5) [of b] b order_inv_zeroed by blast
    qed
  qed
qed

section \<open>All orders of a settlement\<close>

abbreviation order_address :: "account_view SettledOrder \<Rightarrow> pubkey" where
  "order_address settled \<equiv> av_address (so_order_pda settled)"

lemma order_settled_cong:
  assumes "acc_data (accs1 (order_address settled)) = acc_data (accs (order_address settled))"
    and "acc_data (accs1' (order_address settled)) = acc_data (accs' (order_address settled))"
  shows "order_settled P prog now accs1 accs1' settled push \<longleftrightarrow> order_settled P prog now accs accs' settled push"
  using assms by (simp add: order_settled_def order_settleable_def order_load_from_pda_def)

text \<open>
  A settlement in full: orders and pushes are paired one to one, the orders' addresses strictly
  increase (so no order is settled twice), every order of the program is settled against its own
  push, and the program's other accounts are untouched.
\<close>

definition orders_settled ::
  "platform \<Rightarrow> pubkey \<Rightarrow> int \<Rightarrow> account_view SettledOrder list \<Rightarrow> PairedPush list \<Rightarrow> accounts \<Rightarrow> accounts \<Rightarrow> bool" where
  "orders_settled P prog now orders pushes accs accs' \<longleftrightarrow>
     length pushes = length orders \<and> sorted_wrt (<) (map order_address orders) \<and>
     list_all2 (\<lambda>settled push. acc_owner (accs (order_address settled)) = prog \<longrightarrow>
       order_settled P prog now accs accs' settled push) orders pushes \<and>
     (\<forall>a. acc_owner (accs a) = prog \<longrightarrow> acc_owner (accs' a) = prog \<and>
       (a \<notin> order_address ` set orders \<longrightarrow> acc_data (accs' a) = acc_data (accs a)))"

lemma orders_settled_Cons:
  assumes frame: "invoke_frame P prog"
    and head: "process_order P prog settled push now state signers accs = Inr mid"
    and tail: "orders_settled P prog now orders pushes mid accs'"
    and above: "\<forall>o1 \<in> set orders. order_address settled < order_address o1"
  shows "orders_settled P prog now (settled # orders) (push # pushes) accs accs'"
proof -
  note step = process_order_settled [OF frame head]
  from tail have len: "length pushes = length orders" and sorted: "sorted_wrt (<) (map order_address orders)"
    and each: "list_all2 (\<lambda>settled push. acc_owner (mid (order_address settled)) = prog \<longrightarrow>
       order_settled P prog now mid accs' settled push) orders pushes"
    and keep: "\<And>a. acc_owner (mid a) = prog \<Longrightarrow> acc_owner (accs' a) = prog"
    and same: "\<And>a. acc_owner (mid a) = prog \<Longrightarrow> a \<notin> order_address ` set orders \<Longrightarrow>
      acc_data (accs' a) = acc_data (mid a)"
    unfolding orders_settled_def by blast+
  have other: "order_address settled \<notin> order_address ` set orders"
    using above by auto
  have "order_settled P prog now accs accs' settled push" if "acc_owner (accs (order_address settled)) = prog"
    using same [OF _ other] step(2) that
    by (subst order_settled_cong [of accs settled accs accs' mid]) (simp_all add: step(1))
  moreover have "list_all2 (\<lambda>settled push. acc_owner (accs (order_address settled)) = prog \<longrightarrow>
       order_settled P prog now accs accs' settled push) orders pushes"
    unfolding list_all2_conv_all_nth
  proof (intro conjI allI impI)
    show "length orders = length pushes" using len by simp
    fix i assume i: "i < length orders" and owner: "acc_owner (accs (order_address (orders ! i))) = prog"
    have "order_address settled < order_address (orders ! i)"
      using above i by simp
    then have "order_address (orders ! i) \<noteq> order_address settled"
      by (rule less_imp_neq [symmetric])
    note here = step(3) [OF owner this]
    then have "order_settled P prog now mid accs' (orders ! i) (pushes ! i)"
      using list_all2_nthD [OF each i] by blast
    then show "order_settled P prog now accs accs' (orders ! i) (pushes ! i)"
      using here by (subst order_settled_cong [of accs "orders ! i" mid accs' accs']) simp_all
  qed
  moreover have "acc_owner (accs' a) = prog \<and>
      (a \<notin> order_address ` set (settled # orders) \<longrightarrow> acc_data (accs' a) = acc_data (accs a))"
    if owner: "acc_owner (accs a) = prog" for a
  proof (cases "a = order_address settled")
    case True
    then show ?thesis using keep [of a] step(2) owner by simp
  next
    case False
    then show ?thesis using keep [of a] same [of a] step(3) [OF owner] by simp
  qed
  ultimately show ?thesis
    using len sorted above by (simp add: orders_settled_def)
qed

lemma settle_orders_loop_settled:
  assumes frame: "invoke_frame P prog"
    and "settle_orders_loop P prog state signers now items previous pushes accs = Inr accs'"
  shows "\<exists>orders. items = map Inr orders \<and> orders_settled P prog now orders pushes accs accs' \<and>
    (\<forall>p. previous = Some p \<longrightarrow> (\<forall>o1 \<in> set orders. p < order_address o1))"
  using assms(2)
proof (induction items arbitrary: previous pushes accs)
  case Nil
  then show ?case by (simp add: orders_settled_def split: if_splits)
next
  case (Cons item items)
  from Cons.prems obtain settled push rest mid where item: "item = Inr settled" and pushes: "pushes = push # rest"
    and above: "\<forall>p. previous = Some p \<longrightarrow> p < order_address settled"
    and head: "process_order P prog settled push now state signers accs = Inr mid"
    and loop: "settle_orders_loop P prog state signers now items (Some (order_address settled)) rest mid = Inr accs'"
    by (auto simp: result_simps not_le split: option.splits if_splits)
  from Cons.IH [OF loop] obtain orders where orders: "items = map Inr orders"
    "orders_settled P prog now orders rest mid accs'" "\<forall>o1 \<in> set orders. order_address settled < order_address o1"
    by blast
  have "orders_settled P prog now (settled # orders) pushes accs accs'"
    unfolding pushes by (rule orders_settled_Cons [OF frame head orders(2,3)])
  then show ?case
    using item orders above by (intro exI [of _ "settled # orders"]) auto
qed

lemma settle_orders_loop_keeps:
  assumes frame: "invoke_frame P prog" and "orders_inv prog accs"
    and "settle_orders_loop P prog state signers now items previous pushes accs = Inr accs'"
  shows "orders_inv prog accs' \<and> orders_grow prog accs accs'"
  using assms(2,3)
proof (induction items arbitrary: previous pushes accs)
  case (Cons item items)
  from Cons.prems obtain settled push rest mid where
    head: "process_order P prog settled push now state signers accs = Inr mid"
    and loop: "settle_orders_loop P prog state signers now items (Some (order_address settled)) rest mid = Inr accs'"
    by (auto simp: result_simps split: if_splits)
  from process_order_keeps [OF frame Cons.prems(1) head] Cons.IH [OF _ loop] show ?case
    using orders_grow_trans by blast
qed (simp split: if_splits)

text \<open>The counterpart index leads the body of both instructions.\<close>

lemma begin_settle_parse_body_index:
  "begin_settle_parse_body body views = Inr input \<Longrightarrow> \<exists>rest. body = to_le 2 (bsi_finalize_ix_index input) @ rest"
  by (auto simp: begin_settle_parse_body_def result_simps split: list.splits if_splits)

lemma finalize_settle_parse_body_index:
  "finalize_settle_parse_body body views = Inr input \<Longrightarrow> \<exists>rest. body = to_le 2 (fsi_begin_ix_index input) @ rest"
  by (auto simp: finalize_settle_parse_body_def result_simps split: list.splits if_splits)

text \<open>What \<open>BeginSettle\<close> checked before it touched an order.\<close>

lemma process_begin_settle_Inr:
  assumes "process_begin_settle P prog views data accs = Inr accs'"
  obtains input body now pushes where "pf_stack_height P \<le> 1"
    and "data = ix_discriminator BeginSettle # body" and "begin_settle_parse_body body views = Inr input"
    and "av_address (bsi_state_pda_account input) = STATE_PDA P"
    and "require_solver accs (bsi_state_pda_account input) (bsi_solver_account input) = Inr ()"
    and "av_address (bsi_instructions_sysvar_account input) = pf_instructions_sysvar_id P"
    and "validate_counterpart prog (pf_instructions P) (pf_current_index P) (bsi_finalize_ix_index input) FinalizeSettle = Inr ()"
    and "validate_no_nested_settlement prog (pf_instructions P) (pf_current_index P) (bsi_finalize_ix_index input) = Inr ()"
    and "pf_clock P = Inr now"
    and "finalize_pushes (pf_instructions P ! unat (bsi_finalize_ix_index input)) = Inr pushes"
    and "settle_orders_loop P prog (bsi_state_pda_account input) [STATE_PDA_SIGNER_SEEDS P] now
      (settled_orders_iter (bsi_orders input)) None pushes accs = Inr accs'"
  using assms that
  by (auto simp: process_begin_settle_def is_cpi_call_def TRANSACTION_LEVEL_STACK_HEIGHT_def settle_orders_def
      with_state_pda_signer_def bindE_Inr_iff instruction_parse_Inr_iff instructions_try_from_Inr_iff
      load_instruction_at_Inr_iff validate_is_state_pda_Inr_iff Let_def not_less split: if_splits)

interpretation begin_settle_handler: order_preserving process_begin_settle
  by unfold_locales
    (auto simp: runtime_rules_def intro: keeps_ordersI dest: settle_orders_loop_keeps
      elim!: process_begin_settle_Inr)

section \<open>The pairing of BeginSettle and FinalizeSettle\<close>

text \<open>No instruction of the program in the searched range begins or finalizes a settlement.\<close>

definition settles :: "pubkey \<Rightarrow> instruction \<Rightarrow> bool" where
  "settles prog ix \<longleftrightarrow> ix_program_id ix = prog \<and> ix_data ix \<noteq> [] \<and>
     hd (ix_data ix) \<in> {ix_discriminator BeginSettle, ix_discriminator FinalizeSettle}"

lemma recover_settles:
  "(\<exists>d rest. recover_discriminator (ix_data ix) = Inr (d, rest) \<and> d \<in> {BeginSettle, FinalizeSettle}) \<longleftrightarrow>
    ix_data ix \<noteq> [] \<and> hd (ix_data ix) \<in> {ix_discriminator BeginSettle, ix_discriminator FinalizeSettle}"
  by (cases "ix_data ix")
    (auto simp: recover_discriminator_Inr_iff simp del: ix_discriminator.simps)

lemma no_nested_loop_Inr:
  assumes "no_nested_loop prog ixs is = Inr u"
  shows "\<forall>i \<in> set is. i < length ixs \<and> \<not> settles prog (ixs ! i)"
  using assms
proof (induction "is")
  case (Cons i "is")
  then have i: "i < length ixs" and rest: "no_nested_loop prog ixs is = Inr u"
    by (auto simp: bindE_Inr_iff load_instruction_at_Inr_iff split: if_splits sum.splits)
  moreover have "\<not> settles prog (ixs ! i)"
    using Cons.prems i recover_settles [of "ixs ! i"]
    by (auto simp: settles_def bindE_Inr_iff load_instruction_at_Inr_iff split: if_splits sum.splits)
  ultimately show ?case using Cons.IH by simp
qed simp

lemma validate_no_nested_settlement_Inr:
  assumes "validate_no_nested_settlement prog ixs current finalize = Inr u"
  shows "current < finalize" and "unat current < i \<Longrightarrow> i < unat finalize \<Longrightarrow> \<not> settles prog (ixs ! i)"
proof -
  have lt: "current < finalize" and loop: "no_nested_loop prog ixs [unat current + 1..<unat finalize] = Inr u"
    using assms by (auto simp: validate_no_nested_settlement_def result_simps checked_add_Some_iff not_le)
  show "current < finalize" by (rule lt)
  show "\<not> settles prog (ixs ! i)" if "unat current < i" "i < unat finalize"
    using no_nested_loop_Inr [OF loop] that by simp
qed

text \<open>The pushes \<open>BeginSettle\<close> reads off its counterpart are those the counterpart parses.\<close>

lemma filter_every_third:
  "filter (\<lambda>i. (i - 5) mod 3 = 0) [5..<5 + 3 * n] = map (\<lambda>k. 5 + 3 * k) [0..<n]"
proof (induction n)
  case (Suc n)
  have "[5..<5 + 3 * Suc n] = [5..<5 + 3 * n] @ [5 + 3 * n..<5 + 3 * n + 3]"
    using upt_add_eq_append [of 5 "5 + 3 * n" 3] by simp
  also have "[5 + 3 * n..<5 + 3 * n + 3] = [5 + 3 * n, 5 + (3 * n + 1), 5 + (3 * n + 2)]"
    by (simp add: upt_conv_Cons)
  finally show ?case
    using Suc by (simp only: filter_append) (simp, presburger)
qed simp

lemma push_positions:
  "filter (\<lambda>i. (i - (FINALIZE_FIXED_ACCOUNTS + 1)) mod FINALIZE_PUSH_ACCOUNTS = 0)
    [FINALIZE_FIXED_ACCOUNTS + 1..<4 + 3 * n] = map (\<lambda>k. 5 + 3 * k) [0..<n]"
proof (cases n)
  case (Suc m)
  then have "[5..<5 + 3 * n] = [5..<4 + 3 * n] @ [4 + 3 * n]"
    using upt_Suc_append [of 5 "4 + 3 * n"] by (simp del: upt_Suc)
  moreover have "(4 + 3 * n - 5) mod 3 = 2"
    using Suc by simp presburger
  ultimately show ?thesis
    using filter_every_third [of n]
    by (simp add: FINALIZE_FIXED_ACCOUNTS_def FINALIZE_PUSH_ACCOUNTS_def del: upt_Suc)
qed (simp add: FINALIZE_FIXED_ACCOUNTS_def)

lemma nth_concat_chunks:
  "\<forall>c \<in> set cs. length c = n \<Longrightarrow> k < length cs \<Longrightarrow> j < n \<Longrightarrow> concat cs ! (n * k + j) = cs ! k ! j"
proof (induction cs arbitrary: k)
  case (Cons c cs)
  then show ?case by (cases k) (simp_all add: nth_append)
qed simp

lemma push_accounts_triples:
  assumes accounts: "map am_pubkey (ix_accounts ix) = a # b # c # d # concat triples"
    and "\<forall>t \<in> set triples. length t = 3"
  shows "push_accounts ix = map (\<lambda>t. (t ! 0, t ! 1)) triples"
proof -
  have len: "length (ix_accounts ix) = 4 + 3 * length triples"
    using arg_cong [OF accounts, of length] length_concat_chunks [OF assms(2)] by simp
  have nth: "am_pubkey (ix_accounts ix ! (4 + 3 * k + j)) = triples ! k ! j" if "k < length triples" "j < 3" for k j
  proof -
    have "3 * k + j < 3 * length triples" using that by linarith
    then have "am_pubkey (ix_accounts ix ! (4 + 3 * k + j)) = map am_pubkey (ix_accounts ix) ! (4 + 3 * k + j)"
      by (simp add: len)
    also have "\<dots> = concat triples ! (3 * k + j)"
      unfolding accounts by (simp add: numeral_eq_Suc)
    finally show ?thesis using nth_concat_chunks [OF assms(2) that] by simp
  qed
  show ?thesis
    unfolding push_accounts_def Let_def len push_positions
    by (rule nth_equalityI) (use nth [of _ 0] nth [of _ 1] in \<open>simp_all add: ac_simps\<close>)
qed

definition paired_push :: "account_view Push \<Rightarrow> PairedPush" where
  "paired_push push = \<lparr>pp_source_buffer = av_address (pu_source_buffer push),
     pp_destination = av_address (pu_destination push), pp_bump = pu_bump push, pp_amount = pu_amount push\<rparr>"

lemma finalize_pushes_parsed:
  assumes parse: "instruction_parse FinalizeSettle finalize_settle_parse_body (ix_data ix) views = Inr input"
    and views: "map av_address views = map am_pubkey (ix_accounts ix)"
  shows "finalize_pushes ix = Inr (map paired_push (pushes_iter (fsi_pushes input)))"
proof -
  note data = finalize_push_data_agrees [OF parse]
  let ?ps = "fsi_pushes input"
  obtain a b c d rest where vs: "views = a # b # c # d # rest"
    and chunks: "as_chunks 3 rest = (ps_push_accounts ?ps, [])"
    using parse by (auto simp: finalize_settle_parse_body_def result_simps FINALIZE_PUSH_ACCOUNTS_def
        split: if_splits)
  from as_chunks_inverse [OF _ chunks] have rest: "rest = concat (ps_push_accounts ?ps)"
    and len: "\<forall>t \<in> set (ps_push_accounts ?ps). length t = 3"
    by simp_all
  have "push_accounts ix = map (\<lambda>t. (t ! 0, t ! 1)) (map (map av_address) (ps_push_accounts ?ps))"
    using views vs rest len
    by (intro push_accounts_triples [of _ "av_address a" "av_address b" "av_address c" "av_address d"])
      (simp_all add: map_concat)
  then have "finalize_pushes ix = Inr (map (\<lambda>((s, d), (bump, amount)).
      \<lparr>pp_source_buffer = s, pp_destination = d, pp_bump = bump, pp_amount = from_le amount\<rparr>)
      (zip (map (\<lambda>t. (map av_address t ! 0, map av_address t ! 1)) (ps_push_accounts ?ps))
        (zip (ps_bumps ?ps) (ps_amounts ?ps))))"
    by (simp add: finalize_pushes_def data(1) comp_def)
  also have "\<dots> = Inr (map paired_push (pushes_iter ?ps))"
    using data(2,3) len by (auto simp: pushes_iter_def paired_push_def intro!: nth_equalityI)
  finally show ?thesis .
qed

section \<open>Paying out\<close>

text \<open>Token pushes leave the program's accounts alone; native pushes only move lamports.\<close>

lemma push_tokens_loop_frame:
  assumes "invoke_frame P prog" and "push_tokens_loop P state signers pushes accs = Inr accs'"
  shows "owned_frame prog accs accs'"
  using assms(2)
proof (induction pushes arbitrary: accs)
  case (Cons push pushes)
  show ?case
  proof (cases "av_address (pu_source_buffer push) = NATIVE_SOL_BUFFER_PDA P")
    case False
    with Cons.prems obtain c mid where "pf_invoke P [] c accs = Inr mid"
      and "push_tokens_loop P state signers pushes mid = Inr accs'"
      by (auto simp: bindE_Inr_iff)
    with Cons.IH invoke_frameD [OF assms(1)] show ?thesis by (blast intro: owned_frame_trans)
  qed (use Cons in simp)
qed simp

definition native_pushes :: "platform \<Rightarrow> account_view Push list \<Rightarrow> account_view Push list" where
  "native_pushes P pushes =
     filter (\<lambda>push. av_address (pu_source_buffer push) = NATIVE_SOL_BUFFER_PDA P \<and>
       av_address (pu_destination push) \<noteq> NATIVE_SOL_BUFFER_PDA P) pushes"

lemma push_native_loop_effect:
  assumes "push_native_loop P pushes used accs = Inr (used', accs')"
  shows "acc_owner (accs' a) = acc_owner (accs a) \<and> acc_data (accs' a) = acc_data (accs a)"
    and "used' \<longleftrightarrow> used \<or> (\<exists>push \<in> set pushes. av_address (pu_source_buffer push) = NATIVE_SOL_BUFFER_PDA P)"
  using assms
proof (induction pushes arbitrary: used accs)
  case (Cons push pushes)
  {
    case 1
    then show ?case
      using Cons.IH(1) move_lamports_frame(1,2)
      by (cases "av_address (pu_source_buffer push) = NATIVE_SOL_BUFFER_PDA P") (auto simp: bindE_Inr_iff)
  next
    case 2
    then show ?case
      using Cons.IH(2)
      by (cases "av_address (pu_source_buffer push) = NATIVE_SOL_BUFFER_PDA P") (auto simp: bindE_Inr_iff)
  }
qed simp_all

text \<open>Every lamport that leaves the native SOL buffer arrives at the push's destination.\<close>

definition native_paid :: "platform \<Rightarrow> pubkey \<Rightarrow> account_view Push list \<Rightarrow> nat" where
  "native_paid P a pushes =
     (\<Sum>push\<leftarrow>filter (\<lambda>push. av_address (pu_destination push) = a) (native_pushes P pushes). unat (pu_amount push))"

lemma push_native_loop_Cons:
  assumes run: "push_native_loop P (push # pushes) used accs = Inr (used', accs')"
  obtains mid used1 where "push_native_loop P pushes used1 mid = Inr (used', accs')"
    and "unat (acc_lamports (accs (NATIVE_SOL_BUFFER_PDA P))) =
      unat (acc_lamports (mid (NATIVE_SOL_BUFFER_PDA P))) + (\<Sum>p\<leftarrow>native_pushes P [push]. unat (pu_amount p))"
    and "\<forall>a. a \<noteq> NATIVE_SOL_BUFFER_PDA P \<longrightarrow>
      unat (acc_lamports (mid a)) = unat (acc_lamports (accs a)) + native_paid P a [push]"
proof (cases "av_address (pu_source_buffer push) = NATIVE_SOL_BUFFER_PDA P")
  case native: True
  with run obtain mid where move: "move_lamports (pu_source_buffer push) (pu_destination push) (pu_amount push) accs = Inr mid"
    and rest: "push_native_loop P pushes True mid = Inr (used', accs')"
    by (auto simp: bindE_Inr_iff)
  show thesis
  proof (cases "av_address (pu_destination push) = NATIVE_SOL_BUFFER_PDA P")
    case True
    with native move have "mid = accs" by (simp add: move_lamports_def)
    with that [OF rest] True show thesis by (simp add: native_pushes_def native_paid_def)
  next
    case False
    note amounts = move_lamports_amounts [OF move] and frame = move_lamports_frame(3) [OF move]
    show thesis
      using amounts frame native False
      by (intro that [OF rest]) (auto simp: native_pushes_def native_paid_def)
  qed
next
  case False
  with run show thesis by (intro that [of used accs]) (simp_all add: native_pushes_def native_paid_def)
qed

lemma native_pushes_Cons:
  "native_pushes P (push # pushes) = native_pushes P [push] @ native_pushes P pushes"
  "native_paid P a (push # pushes) = native_paid P a [push] + native_paid P a pushes"
  by (auto simp: native_pushes_def native_paid_def)

lemma push_native_loop_pays:
  assumes "push_native_loop P pushes used accs = Inr (used', accs')"
  shows "unat (acc_lamports (accs (NATIVE_SOL_BUFFER_PDA P))) =
      unat (acc_lamports (accs' (NATIVE_SOL_BUFFER_PDA P))) + (\<Sum>p\<leftarrow>native_pushes P pushes. unat (pu_amount p)) \<and>
    (\<forall>a. a \<noteq> NATIVE_SOL_BUFFER_PDA P \<longrightarrow>
      unat (acc_lamports (accs' a)) = unat (acc_lamports (accs a)) + native_paid P a pushes)"
  using assms
proof (induction pushes arbitrary: used accs)
  case (Cons push pushes)
  from Cons.prems obtain mid used1 where rest: "push_native_loop P pushes used1 mid = Inr (used', accs')"
    and "unat (acc_lamports (accs (NATIVE_SOL_BUFFER_PDA P))) =
      unat (acc_lamports (mid (NATIVE_SOL_BUFFER_PDA P))) + (\<Sum>p\<leftarrow>native_pushes P [push]. unat (pu_amount p))"
    and "\<forall>a. a \<noteq> NATIVE_SOL_BUFFER_PDA P \<longrightarrow>
      unat (acc_lamports (mid a)) = unat (acc_lamports (accs a)) + native_paid P a [push]"
    by (rule push_native_loop_Cons) blast
  with Cons.IH [OF rest] show ?case
    unfolding native_pushes_Cons(1) [of P push pushes] native_pushes_Cons(2) [of P _ push pushes] by simp
qed (simp add: native_pushes_def native_paid_def)

lemma push_funds_Inr:
  assumes "push_funds P state signers pushes accs = Inr accs'"
  obtains mid used where "push_tokens_loop P state signers (pushes_iter pushes) accs = Inr mid"
    and "push_native_loop P (pushes_iter pushes) False mid = Inr (used, accs')"
    and "used \<Longrightarrow> acc_lamports (accs' (NATIVE_SOL_BUFFER_PDA P)) \<noteq> 0"
  using assms that by (auto simp: push_funds_def bindE_Inr_iff split: if_splits)

text \<open>
  What a push pays, told apart from how the code does it. A push out of the native SOL buffer moves
  exactly its amount of lamports to its destination; any other is one transfer of exactly its
  amount, from its source buffer to its destination, by the token program that owns the
  destination.
\<close>

definition lamports_moved :: "pubkey \<Rightarrow> pubkey \<Rightarrow> nat \<Rightarrow> accounts \<Rightarrow> accounts \<Rightarrow> bool" where
  "lamports_moved from to amount accs accs' \<longleftrightarrow>
     (\<forall>a. acc_owner (accs' a) = acc_owner (accs a) \<and> acc_data (accs' a) = acc_data (accs a)) \<and>
     (\<forall>a. unat (acc_lamports (accs' a)) + (if a = from \<and> from \<noteq> to then amount else 0) =
        unat (acc_lamports (accs a)) + (if a = to \<and> from \<noteq> to then amount else 0))"

definition push_paid ::
  "platform \<Rightarrow> account_view \<Rightarrow> bytes list list \<Rightarrow> account_view Push \<Rightarrow> accounts \<Rightarrow> accounts \<Rightarrow> bool" where
  "push_paid P state_account signers push accs accs' \<longleftrightarrow>
     (if av_address (pu_source_buffer push) = NATIVE_SOL_BUFFER_PDA P
      then lamports_moved (av_address (pu_source_buffer push)) (av_address (pu_destination push))
        (unat (pu_amount push)) accs accs'
      else \<exists>tp. owning_token_program P accs (pu_destination push) = Inr tp \<and>
        token_moved P [] tp (pu_source_buffer push) (pu_destination push) state_account signers (pu_amount push) accs accs')"

text \<open>The token payments come first, then the native ones.\<close>

definition payments :: "platform \<Rightarrow> account_view Push list \<Rightarrow> account_view Push list" where
  "payments P pushes =
     filter (\<lambda>push. av_address (pu_source_buffer push) \<noteq> NATIVE_SOL_BUFFER_PDA P) pushes @
     filter (\<lambda>push. av_address (pu_source_buffer push) = NATIVE_SOL_BUFFER_PDA P) pushes"

lemma set_payments [simp]: "set (payments P pushes) = set pushes"
  by (auto simp: payments_def)

lemma move_lamports_moves:
  assumes "move_lamports from to amount accs = Inr accs'"
  shows "lamports_moved (av_address from) (av_address to) (unat amount) accs accs'"
proof (cases "av_address from = av_address to")
  case True
  with assms show ?thesis by (simp add: move_lamports_def lamports_moved_def)
next
  case False
  note move_lamports_amounts [OF assms False] move_lamports_frame [OF assms]
  with False show ?thesis by (auto simp: lamports_moved_def)
qed

lemma native_push_paid:
  "av_address (pu_source_buffer push) = NATIVE_SOL_BUFFER_PDA P \<Longrightarrow>
    move_lamports (pu_source_buffer push) (pu_destination push) (pu_amount push) accs = Inr accs' \<Longrightarrow>
    push_paid P state signers push accs accs'"
  using move_lamports_moves by (fastforce simp: push_paid_def)

lemma token_push_paid:
  "av_address (pu_source_buffer push) \<noteq> NATIVE_SOL_BUFFER_PDA P \<Longrightarrow>
    owning_token_program P accs (pu_destination push) = Inr tp \<Longrightarrow>
    pf_invoke P [] (transfer_maybe_checked P tp (pu_source_buffer push) mint (pu_destination push) state
      (pu_amount push) signers) accs = Inr accs' \<Longrightarrow>
    push_paid P state signers push accs accs'"
  using transfer_moves_token by (auto simp: push_paid_def)

lemma push_tokens_loop_pays:
  "push_tokens_loop P state signers pushes accs = Inr accs' \<Longrightarrow>
    steps_through (push_paid P state signers)
      (filter (\<lambda>push. av_address (pu_source_buffer push) \<noteq> NATIVE_SOL_BUFFER_PDA P) pushes) accs accs'"
proof (induction pushes arbitrary: accs)
  case (Cons push pushes)
  then show ?case
    by (auto simp: bindE_Inr_iff map_err_Inr_iff split: if_splits) (blast intro: token_push_paid)
qed simp

lemma push_native_loop_steps:
  "push_native_loop P pushes used accs = Inr (used', accs') \<Longrightarrow>
    steps_through (push_paid P state signers)
      (filter (\<lambda>push. av_address (pu_source_buffer push) = NATIVE_SOL_BUFFER_PDA P) pushes) accs accs'"
proof (induction pushes arbitrary: used accs)
  case (Cons push pushes)
  then show ?case
    by (auto simp: bindE_Inr_iff split: if_splits) (blast intro: native_push_paid)
qed simp

lemma push_funds_pays:
  assumes "push_funds P state signers pushes accs = Inr accs'"
  shows "steps_through (push_paid P state signers) (payments P (pushes_iter pushes)) accs accs'"
proof -
  from assms obtain mid used where "push_tokens_loop P state signers (pushes_iter pushes) accs = Inr mid"
    and "push_native_loop P (pushes_iter pushes) False mid = Inr (used, accs')"
    by (rule push_funds_Inr)
  then show ?thesis
    unfolding payments_def steps_through_append by (blast intro: push_tokens_loop_pays push_native_loop_steps)
qed

lemma process_finalize_settle_Inr:
  assumes "process_finalize_settle P prog views data accs = Inr accs'"
  obtains body input where "pf_stack_height P \<le> 1" and "data = ix_discriminator FinalizeSettle # body"
    and "finalize_settle_parse_body body views = Inr input"
    and "av_address (fsi_instructions_sysvar_account input) = pf_instructions_sysvar_id P"
    and "validate_counterpart prog (pf_instructions P) (pf_current_index P) (fsi_begin_ix_index input) BeginSettle = Inr ()"
    and "av_address (fsi_state_pda_account input) = STATE_PDA P"
    and "push_funds P (fsi_state_pda_account input) [STATE_PDA_SIGNER_SEEDS P] (fsi_pushes input) accs = Inr accs'"
  using assms that
  by (auto simp: process_finalize_settle_def is_cpi_call_def TRANSACTION_LEVEL_STACK_HEIGHT_def
      with_state_pda_signer_def bindE_Inr_iff instruction_parse_Inr_iff instructions_try_from_Inr_iff
      validate_is_state_pda_Inr_iff Let_def not_less split: if_splits)

interpretation finalize_settle_handler: order_preserving process_finalize_settle
proof
  fix P prog accs views data accs'
  assume rules: "runtime_rules P prog" and inv: "orders_inv prog accs"
    and run: "process_finalize_settle P prog views data accs = Inr accs'"
  from run obtain input :: "account_view FinalizeSettleInput" where
    "push_funds P (fsi_state_pda_account input) [STATE_PDA_SIGNER_SEEDS P] (fsi_pushes input) accs = Inr accs'"
    by (rule process_finalize_settle_Inr) blast
  then obtain mid used where
    tokens: "push_tokens_loop P (fsi_state_pda_account input) [STATE_PDA_SIGNER_SEEDS P] (pushes_iter (fsi_pushes input)) accs = Inr mid"
    and native: "push_native_loop P (pushes_iter (fsi_pushes input)) False mid = Inr (used, accs')"
    by (rule push_funds_Inr) blast
  have frame: "owned_frame prog accs mid"
    using push_tokens_loop_frame [OF _ tokens] rules by (simp add: runtime_rules_def)
  note same = push_native_loop_effect(1) [OF native]
  show "keeps_orders prog accs accs'"
    using orders_inv_lamports [OF orders_inv_frame [OF inv frame] same]
      orders_grow_trans [OF orders_grow_frame [OF frame] orders_grow_lamports [OF same]]
    by (rule keeps_ordersI)
qed

section \<open>Properties\<close>

text \<open>
  C11: for an intent that decodes, the limit price check accepts a fill exactly when
  \<open>withdrawn * buy_amount \<le> received * sell_amount\<close> over the naturals, and otherwise fails with
  \<open>LimitPriceViolated\<close>: the widened products neither wrap nor abort.
\<close>

theorem limit_price_check_exact:
  assumes "intent_try_from P intent = Inr i"
  shows "validate_limit_price intent fill =
    (if unat (fa_withdrawn fill) * unat (oi_buy_amount i) \<le> unat (fa_received fill) * unat (oi_sell_amount i)
     then Inr () else Inl (serr LimitPriceViolated))"
proof -
  note acc = accessor_agrees(5,6) [OF assms]
  have checked: "check_bytes intent = Inr ()"
    using assms check_bytes_iff_try_from by blast
  show ?thesis
    using validate_limit_price_Inr_iff [OF acc, where settled = fill] validate_limit_price_Inl [OF checked, of fill]
    by (cases "validate_limit_price intent fill") auto
qed

text \<open>
  C7: a successful \<open>BeginSettle\<close> ran at the top level of a transaction, with the program's
  own state account, and was signed by an address that a search of the solver list finds; when the
  list is sorted, as the handlers keep it, that address is on it.
\<close>

theorem begin_settle_needs_solver:
  assumes "process_begin_settle P prog views data accs = Inr accs'"
  shows "\<exists>solver sysvar state rest. views = solver # sysvar # state # rest \<and> pf_stack_height P \<le> 1 \<and>
    av_is_signer solver \<and> av_address state = STATE_PDA P \<and>
    is_solver (acc_data (accs (STATE_PDA P))) (av_address solver) \<and>
    (state_wf (acc_data (accs (STATE_PDA P))) \<longrightarrow>
       av_address solver \<in> set (state_solvers (acc_data (accs (STATE_PDA P)))))"
proof -
  from assms obtain input :: "account_view BeginSettleInput" and body where "pf_stack_height P \<le> 1"
    and parse: "begin_settle_parse_body body views = Inr input"
    and state: "av_address (bsi_state_pda_account input) = STATE_PDA P"
    and "require_solver accs (bsi_state_pda_account input) (bsi_solver_account input) = Inr ()"
    by (rule process_begin_settle_Inr) blast
  moreover obtain sysvar rest where "views = bsi_solver_account input # sysvar # bsi_state_pda_account input # rest"
    using parse by (auto simp: begin_settle_parse_body_def result_simps split: list.splits if_splits)
  ultimately show ?thesis
    by (auto simp: require_solver_Inr_iff is_solver_iff)
qed

text \<open>
  A successful \<open>BeginSettle\<close> at index \<open>i\<close> names a later instruction \<open>j\<close> of the same
  transaction that belongs to the program, is a \<open>FinalizeSettle\<close> and names \<open>i\<close> back, and no
  instruction strictly between the two begins or finalizes a settlement of the program.
\<close>

theorem begin_settle_paired_with_finalize:
  assumes "process_begin_settle P prog views data accs = Inr accs'"
  shows "\<exists>j rest body. data = ix_discriminator BeginSettle # to_le 2 j @ rest \<and>
    pf_current_index P < j \<and> unat j < length (pf_instructions P) \<and>
    ix_program_id (pf_instructions P ! unat j) = prog \<and>
    ix_data (pf_instructions P ! unat j) = ix_discriminator FinalizeSettle # to_le 2 (pf_current_index P) @ body \<and>
    (\<forall>k. unat (pf_current_index P) < k \<and> k < unat j \<longrightarrow> \<not> settles prog (pf_instructions P ! k))"
proof -
  from assms obtain input :: "account_view BeginSettleInput" and body where
    data: "data = ix_discriminator BeginSettle # body" and parse: "begin_settle_parse_body body views = Inr input"
    and "validate_counterpart prog (pf_instructions P) (pf_current_index P) (bsi_finalize_ix_index input) FinalizeSettle = Inr ()"
    and nested: "validate_no_nested_settlement prog (pf_instructions P) (pf_current_index P) (bsi_finalize_ix_index input) = Inr ()"
    by (rule process_begin_settle_Inr) blast
  moreover obtain rest where "body = to_le 2 (bsi_finalize_ix_index input) @ rest"
    using begin_settle_parse_body_index [OF parse] by blast
  ultimately show ?thesis
    using validate_no_nested_settlement_Inr [OF nested] unfolding validate_counterpart_Inr_iff by blast
qed

text \<open>
  C3: a successful \<open>BeginSettle\<close> settles its orders one to one against the pushes of its
  counterpart, at strictly increasing addresses. Each order of the program was live, unexpired and
  paid to its own buy account from the buffer of its buy mint; its counters grow by exactly the
  sum pulled and the amount pushed, within the limit price, and an order that is not partially
  fillable ends exactly filled. No other account of the program changes.
\<close>

theorem begin_settle_accounts_for_every_order:
  assumes "invoke_frame P prog" and "process_begin_settle P prog views data accs = Inr accs'"
  shows "\<exists>input j body now orders pushes. data = ix_discriminator BeginSettle # to_le 2 (j :: u16) @ body \<and>
    instruction_parse BeginSettle begin_settle_parse_body data views = Inr input \<and>
    settled_orders_iter (bsi_orders input) = map Inr orders \<and> pf_clock P = Inr now \<and>
    finalize_pushes (pf_instructions P ! unat j) = Inr pushes \<and>
    orders_settled P prog now orders pushes accs accs'"
proof -
  from assms(2) obtain input :: "account_view BeginSettleInput" and body now pushes where
    data: "data = ix_discriminator BeginSettle # body" and parse: "begin_settle_parse_body body views = Inr input"
    and now: "pf_clock P = Inr now"
    and pushes: "finalize_pushes (pf_instructions P ! unat (bsi_finalize_ix_index input)) = Inr pushes"
    and loop: "settle_orders_loop P prog (bsi_state_pda_account input) [STATE_PDA_SIGNER_SEEDS P] now
      (settled_orders_iter (bsi_orders input)) None pushes accs = Inr accs'"
    by (rule process_begin_settle_Inr) blast
  obtain rest where "body = to_le 2 (bsi_finalize_ix_index input) @ rest"
    using begin_settle_parse_body_index [OF parse] by blast
  moreover obtain orders where "settled_orders_iter (bsi_orders input) = map Inr orders"
    and "orders_settled P prog now orders pushes accs accs'"
    using settle_orders_loop_settled [OF assms(1) loop] by blast
  ultimately show ?thesis
    using data parse now pushes unfolding instruction_parse_Inr_iff
    by (intro exI [of _ input] exI [of _ "bsi_finalize_ix_index input"] exI [of _ rest] exI [of _ now]
        exI [of _ orders] exI [of _ pushes]) simp
qed

text \<open>
  C12: an order is settled with its owner's tokens. Between the accounts before and after, the
  pulls are the only invocations: for each one, in order, the token program that owns the order's
  sell account is asked to move exactly the pull's amount from that account to the pull's
  destination, authorised by the state account passed to it; the account belongs to the owner and holds
  its sell mint. Then the sum of these amounts is added to what the order has withdrawn, and no
  other account is touched.
\<close>

theorem settled_order_sells_its_owners_tokens:
  assumes "invoke_frame P prog" and "process_order P prog settled push now state signers accs = Inr accs'"
  shows "\<exists>tp token mid. let a = order_address settled; intent = order_intent_bytes (acc_data (accs a));
      pulls = zip (so_destinations settled) (so_amounts settled);
      withdrawn = (\<lambda>accs. unat (fa_withdrawn (order_filled_amounts (acc_data (accs a))))) in
    owning_token_program P accs (so_sell_token_account settled) = Inr tp \<and>
    read_token_account P [a] tp (so_sell_token_account settled) accs = Inr token \<and>
    av_address (so_sell_token_account settled) = ia_sell_token_account intent \<and>
    tka_owner token = ia_owner intent \<and> tka_mint token = ia_sell_mint intent \<and>
    steps_through (\<lambda>(destination, amount).
      token_moved P [a] tp (so_sell_token_account settled) destination state signers (from_le amount)) pulls accs mid \<and>
    withdrawn accs' = withdrawn accs + (\<Sum>(_, amount)\<leftarrow>pulls. unat (from_le amount :: u64)) \<and>
    (\<forall>b. b \<noteq> a \<longrightarrow> accs' b = mid b)"
proof -
  let ?a = "order_address settled"
  from assms(2) obtain tp token mint amount_in mid final where
    able: "order_settleable P prog now accs settled push"
    and tokens: "owning_token_program P accs (so_sell_token_account settled) = Inr tp"
      "read_token_account P [?a] tp (so_sell_token_account settled) accs = Inr token"
      "tka_owner token = ia_owner (order_intent_bytes (acc_data (accs ?a)))"
      "tka_mint token = ia_sell_mint (order_intent_bytes (acc_data (accs ?a)))"
    and pulls: "process_pulls P [?a] tp (so_sell_token_account settled) mint state signers
      (zip (so_destinations settled) (so_amounts settled)) 0 accs = Inr (amount_in, mid)"
    and accs': "accs' = set_data ?a (order_set_amounts final (acc_data (mid ?a))) mid"
    by (rule process_order_Inr)
  have "order_settled P prog now accs accs' settled push"
    by (rule process_order_settled(1) [OF assms])
  then have "unat (fa_withdrawn (order_filled_amounts (acc_data (accs' ?a)))) =
      unat (fa_withdrawn (order_filled_amounts (acc_data (accs ?a)))) + pulled settled"
    by (simp add: order_settled_def Let_def)
  moreover have "av_address (so_sell_token_account settled) = ia_sell_token_account (order_intent_bytes (acc_data (accs ?a)))"
    using able by (simp add: order_settleable_def Let_def)
  ultimately show ?thesis
    using tokens process_pulls_moves [OF pulls] accs'
    unfolding Let_def pulled_def by (intro exI [of _ tp] exI [of _ token] exI [of _ mid]) simp
qed

text \<open>
  When the \<open>FinalizeSettle\<close> that a successful \<open>BeginSettle\<close> names runs in the same
  transaction, it names that \<open>BeginSettle\<close> back, and the pushes it pays out are, one by one and in
  order, those the orders were settled against.
\<close>

theorem finalize_pays_what_begin_validated:
  assumes "invoke_frame P prog" and "process_begin_settle P prog views data accs = Inr accs'"
    and "data = ix_discriminator BeginSettle # to_le 2 (pf_current_index P') @ body"
    and "pf_instructions P' = pf_instructions P"
    and "ix = pf_instructions P ! unat (pf_current_index P')"
    and "map av_address views' = map am_pubkey (ix_accounts ix)"
    and "process_finalize_settle P' prog views' (ix_data ix) accs1 = Inr accs1'"
  shows "\<exists>input now orders.
    instruction_parse FinalizeSettle finalize_settle_parse_body (ix_data ix) views' = Inr input \<and>
    fsi_begin_ix_index input = pf_current_index P \<and>
    orders_settled P prog now orders (map paired_push (pushes_iter (fsi_pushes input))) accs accs' \<and>
    push_funds P' (fsi_state_pda_account input) [STATE_PDA_SIGNER_SEEDS P'] (fsi_pushes input) accs1 = Inr accs1'"
proof -
  from assms(2) obtain binput :: "account_view BeginSettleInput" and now pushes bdata where
    "data = ix_discriminator BeginSettle # bdata" and parse: "begin_settle_parse_body bdata views = Inr binput"
    and counterpart: "validate_counterpart prog (pf_instructions P) (pf_current_index P) (bsi_finalize_ix_index binput) FinalizeSettle = Inr ()"
    and pushes: "finalize_pushes (pf_instructions P ! unat (bsi_finalize_ix_index binput)) = Inr pushes"
    and loop: "settle_orders_loop P prog (bsi_state_pda_account binput) [STATE_PDA_SIGNER_SEEDS P] now
      (settled_orders_iter (bsi_orders binput)) None pushes accs = Inr accs'"
    by (rule process_begin_settle_Inr) blast
  with assms(3) have index: "bsi_finalize_ix_index binput = pf_current_index P'"
    using begin_settle_parse_body_index [OF parse] by (auto simp: u16_codec.enc_inj)
  from assms(7) obtain fdata input where fdata: "ix_data ix = ix_discriminator FinalizeSettle # fdata"
    and fparse: "finalize_settle_parse_body fdata views' = Inr input"
    and funds: "push_funds P' (fsi_state_pda_account input) [STATE_PDA_SIGNER_SEEDS P'] (fsi_pushes input) accs1 = Inr accs1'"
    by (rule process_finalize_settle_Inr) blast
  then have finput: "instruction_parse FinalizeSettle finalize_settle_parse_body (ix_data ix) views' = Inr input"
    by (auto simp only: instruction_parse_Inr_iff)
  moreover have "fsi_begin_ix_index input = pf_current_index P"
    using counterpart finalize_settle_parse_body_index [OF fparse] fdata
    by (auto simp: validate_counterpart_Inr_iff index assms(5) u16_codec.enc_inj)
  moreover have "pushes = map paired_push (pushes_iter (fsi_pushes input))"
    using finalize_pushes_parsed [OF finput assms(6)] pushes by (simp add: index assms(5))
  ultimately show ?thesis
    using settle_orders_loop_settled [OF assms(1) loop] funds by blast
qed

text \<open>
  C13: \<open>FinalizeSettle\<close> pays native SOL by debiting the native buffer exactly the sum of its
  native pushes and crediting every other destination exactly what is pushed to it, and it never
  leaves the buffer empty after paying from it.
\<close>

theorem finalize_settle_native_payments:
  assumes "process_finalize_settle P prog views data accs = Inr accs'"
  shows "\<exists>input mid.
    instruction_parse FinalizeSettle finalize_settle_parse_body data views = Inr input \<and>
    push_tokens_loop P (fsi_state_pda_account input) [STATE_PDA_SIGNER_SEEDS P] (pushes_iter (fsi_pushes input)) accs = Inr mid \<and>
    unat (acc_lamports (mid (NATIVE_SOL_BUFFER_PDA P))) = unat (acc_lamports (accs' (NATIVE_SOL_BUFFER_PDA P))) +
      (\<Sum>push\<leftarrow>native_pushes P (pushes_iter (fsi_pushes input)). unat (pu_amount push)) \<and>
    (\<forall>a. a \<noteq> NATIVE_SOL_BUFFER_PDA P \<longrightarrow> unat (acc_lamports (accs' a)) =
      unat (acc_lamports (mid a)) + native_paid P a (pushes_iter (fsi_pushes input))) \<and>
    ((\<exists>push \<in> set (pushes_iter (fsi_pushes input)). av_address (pu_source_buffer push) = NATIVE_SOL_BUFFER_PDA P) \<longrightarrow>
      acc_lamports (accs' (NATIVE_SOL_BUFFER_PDA P)) \<noteq> 0)"
proof -
  from assms obtain input and body where data: "data = ix_discriminator FinalizeSettle # body"
    and parse: "finalize_settle_parse_body body views = Inr input"
    and "push_funds P (fsi_state_pda_account input) [STATE_PDA_SIGNER_SEEDS P] (fsi_pushes input) accs = Inr accs'"
    by (rule process_finalize_settle_Inr) blast
  moreover from this(3) obtain mid used where
    tokens: "push_tokens_loop P (fsi_state_pda_account input) [STATE_PDA_SIGNER_SEEDS P] (pushes_iter (fsi_pushes input)) accs = Inr mid"
    and native: "push_native_loop P (pushes_iter (fsi_pushes input)) False mid = Inr (used, accs')"
    and "used \<Longrightarrow> acc_lamports (accs' (NATIVE_SOL_BUFFER_PDA P)) \<noteq> 0"
    by (rule push_funds_Inr) blast
  ultimately show ?thesis
    using push_native_loop_pays [OF native] push_native_loop_effect(2) [OF native]
    unfolding instruction_parse_Inr_iff by (intro exI [of _ input] exI [of _ mid]) blast
qed

end
