(* ===== verification/StateInvariant.thy ===== *)
theory StateInvariant
  imports OrderHandlers StateHandlers BufferHandlers Settle
begin

text \<open>
  The configuration invariant: every state account the program owns is well formed, its solver
  list strictly sorted and with room to grow. Each handler keeps it (contract
  \<open>state_preserving\<close>), and all but \<open>AddSolver\<close>, \<open>RemoveSolver\<close> and \<open>TransferAuthority\<close> leave the
  bytes of an existing state account alone (contract \<open>config_preserving\<close>, which extends the first).
\<close>

section \<open>The invariant\<close>

definition state_ok :: "bytes \<Rightarrow> bool" where
  "state_ok d \<longleftrightarrow> (state_attach d = Inr d \<longrightarrow> state_wf d \<and> state_room d)"

definition states_inv :: "pubkey \<Rightarrow> accounts \<Rightarrow> bool" where
  "states_inv prog accs \<longleftrightarrow> (\<forall>a. acc_owner (accs a) = prog \<longrightarrow> state_ok (acc_data (accs a)))"

abbreviation is_state :: "pubkey \<Rightarrow> accounts \<Rightarrow> pubkey \<Rightarrow> bool" where
  "is_state prog accs a \<equiv> acc_owner (accs a) = prog \<and> state_attach (acc_data (accs a)) = Inr (acc_data (accs a))"

definition config_kept :: "pubkey \<Rightarrow> accounts \<Rightarrow> accounts \<Rightarrow> bool" where
  "config_kept prog accs accs' \<longleftrightarrow>
     (\<forall>a. is_state prog accs a \<longrightarrow> acc_owner (accs' a) = prog \<and> acc_data (accs' a) = acc_data (accs a))"

locale state_preserving =
  fixes handle :: handler
  assumes keeps_states: "runtime_rules P prog \<Longrightarrow> states_inv prog accs \<Longrightarrow>
    handle P prog views data accs = Inr accs' \<Longrightarrow> states_inv prog accs'"

locale config_preserving = state_preserving +
  assumes keeps_config: "runtime_rules P prog \<Longrightarrow> states_inv prog accs \<Longrightarrow>
    handle P prog views data accs = Inr accs' \<Longrightarrow> config_kept prog accs accs'"
begin

lemma solvers_kept:
  "runtime_rules P prog \<Longrightarrow> states_inv prog accs \<Longrightarrow> handle P prog views data accs = Inr accs' \<Longrightarrow>
    is_state prog accs a \<Longrightarrow> state_solvers (acc_data (accs' a)) = state_solvers (acc_data (accs a)) \<and>
    state_authority (acc_data (accs' a)) r = state_authority (acc_data (accs a)) r"
  using keeps_config unfolding config_kept_def by metis

end

section \<open>Steps that keep the configuration\<close>

lemma state_ok_discriminator: "slice 0 1 d \<noteq> [STATE_DISCRIMINATOR] \<Longrightarrow> state_ok d"
  by (simp add: state_ok_def state_attach_Inr_iff)

lemma state_ok_order: "slice 0 1 d = [ORDER_DISCRIMINATOR] \<Longrightarrow> state_ok d"
  using state_discriminator_not_order by (simp add: state_ok_discriminator)

lemma order_no_state: "order_attach (acc_data (accs a)) = Inr x \<Longrightarrow> \<not> is_state prog accs a"
  using state_discriminator_not_order by (auto simp: order_attach_Inr_iff state_attach_Inr_iff)

lemma zeroed_no_state: "zeroed d \<Longrightarrow> slice 0 1 d \<noteq> [STATE_DISCRIMINATOR]"
  by (cases d) (auto simp: zeroed_def slice_def STATE_DISCRIMINATOR_def)

lemma states_inv_frame:
  "states_inv prog accs \<Longrightarrow> owned_frame prog accs accs' \<Longrightarrow> states_inv prog accs'"
  unfolding states_inv_def owned_frame_def by (metis state_ok_discriminator zeroed_no_state)

lemma config_kept_frame: "owned_frame prog accs accs' \<Longrightarrow> config_kept prog accs accs'"
  by (auto simp: config_kept_def dest: owned_frame_owned)

lemma config_kept_refl [simp]: "config_kept prog accs accs"
  by (simp add: config_kept_def)

lemma config_kept_trans: "config_kept prog a b \<Longrightarrow> config_kept prog b c \<Longrightarrow> config_kept prog a c"
  unfolding config_kept_def by metis

lemma lamports_keep_config:
  assumes "states_inv prog accs"
    and "\<And>a. acc_owner (accs' a) = acc_owner (accs a) \<and> acc_data (accs' a) = acc_data (accs a)"
  shows "states_inv prog accs' \<and> config_kept prog accs accs'"
  using assms by (simp add: states_inv_def config_kept_def)

text \<open>Writing an order over an account that holds no configuration.\<close>

lemma order_write_keeps_config:
  assumes inv: "states_inv prog accs" and frame: "owned_frame prog accs mid"
    and order: "slice 0 1 d = [ORDER_DISCRIMINATOR]" and no_state: "\<not> is_state prog mid a"
  shows "states_inv prog (set_data a d mid) \<and> config_kept prog accs (set_data a d mid)"
proof
  have "states_inv prog mid" using inv frame by (rule states_inv_frame)
  with order show "states_inv prog (set_data a d mid)"
    by (simp add: states_inv_def state_ok_order)
  have "config_kept prog mid (set_data a d mid)"
    using no_state by (auto simp: config_kept_def)
  with config_kept_frame [OF frame] show "config_kept prog accs (set_data a d mid)"
    by (rule config_kept_trans)
qed

section \<open>The order handlers\<close>

lemma process_new_onchain_order_keeps_config:
  assumes rules: "runtime_rules P prog" and inv: "states_inv prog accs"
    and len: "length intent = INTENT_SIZE"
    and run: "process_new_onchain_order P prog v intent expected by_v c accs = Inr accs'"
  shows "states_inv prog accs' \<and> config_kept prog accs accs'"
proof -
  from run obtain bump mid order where "check_bytes intent = Inr ()" "expected = ia_owner intent"
    and mid: "create_idempotent P \<lparr>cp_program_id = prog, cp_payer = by_v, cp_pda = v, cp_size = of_nat ORDER_SIZE,
          cp_owner = prog, cp_seeds = order_pda_seeds (hash_bytes P intent)\<rparr> accs = Inr (True, bump, mid)"
    and order: "order_initialize (acc_data (view_account mid v)) bump c 0 0 (av_address by_v) intent = Inr order"
    and accs': "accs' = set_data (av_address v) order mid"
    by (rule process_new_onchain_order_Inr)
  have frames: "invoke_frame P prog" "create_account_spec P" using rules by (simp_all add: runtime_rules_def)
  have "acc_data (view_account mid v) = replicate ORDER_SIZE 0"
    using created_was_no_order(3) [OF frames mid] by simp
  then have "\<not> is_state prog mid (av_address v)"
    using zeroed_no_state [of "replicate ORDER_SIZE 0"] by (simp add: state_attach_Inr_iff)
  moreover have "slice 0 1 order = [ORDER_DISCRIMINATOR]"
    using order_initialize_reads(2) [OF order len] by (simp add: order_attach_Inr_iff)
  ultimately show ?thesis
    unfolding accs' using inv create_idempotent_frame [OF frames(1) mid] by (intro order_write_keeps_config)
qed

interpretation create_order_config: config_preserving process_create_order
  by unfold_locales
    (auto simp: process_create_order_def bindE_Inr_iff instruction_parse_Inr_iff
      dest: process_new_onchain_order_keeps_config [OF _ _ length_create_order_intent] split: if_splits)

interpretation create_settlement_owned_order_config: config_preserving process_create_settlement_owned_order
  by unfold_locales
    (auto simp: process_create_settlement_owned_order_def bindE_Inr_iff instruction_parse_Inr_iff
      dest: process_new_onchain_order_keeps_config [OF _ _ length_create_settlement_owned_order_intent]
      split: if_splits)

lemma process_cancel_order_Inr:
  assumes "process_cancel_order P prog views data accs = Inr accs'"
  obtains (existing) v where "order_attach (acc_data (view_account accs v)) = Inr (acc_data (view_account accs v))"
      and "accs' = set_data (av_address v) (order_set_cancelled (acc_data (view_account accs v))) accs"
    | (created) v intent expected by_v where "length intent = INTENT_SIZE"
      and "process_new_onchain_order P prog v intent expected by_v True accs = Inr accs'"
proof -
  from assms obtain input where body: "cancel_order_parse_body (tl data) views = Inr input" "data \<noteq> []"
    by (auto simp: process_cancel_order_def bindE_Inr_iff instruction_parse_Inr_iff)
  show thesis
  proof (cases "acc_owner (view_account accs (cai_order_pda input)) = prog")
    case True
    with assms body existing [of "cai_order_pda input"] show thesis
      by (auto simp: process_cancel_order_def bindE_Inr_iff instruction_parse_Inr_iff Let_def
          order_load_from_pda_Inr_iff split: if_splits)
  next
    case False
    with assms body obtain bs expected where "cai_intent_bytes input = Some bs"
      and "process_new_onchain_order P prog (cai_order_pda input) bs expected (cai_created_by input) True accs = Inr accs'"
      by (auto simp: process_cancel_order_def bindE_Inr_iff instruction_parse_Inr_iff Let_def ok_or_Inr_iff
          split: if_splits)
    with created length_cancel_order_intent [OF body(1)] show thesis by blast
  qed
qed

lemma process_cancel_order_keeps_config:
  assumes rules: "runtime_rules P prog" and inv: "states_inv prog accs"
    and run: "process_cancel_order P prog views data accs = Inr accs'"
  shows "states_inv prog accs' \<and> config_kept prog accs accs'"
  using run
proof (cases rule: process_cancel_order_Inr)
  case (existing v)
  then have "slice 0 1 (order_set_cancelled (acc_data (view_account accs v))) = [ORDER_DISCRIMINATOR]"
    by (simp add: order_attach_Inr_iff order_set_cancelled_reads [unfolded One_nat_def])
  with existing order_no_state show ?thesis
    by (simp only:) (intro order_write_keeps_config [OF inv owned_frame_refl])
next
  case (created v intent expected by_v)
  then show ?thesis using process_new_onchain_order_keeps_config [OF rules inv] by blast
qed

interpretation cancel_order_config: config_preserving process_cancel_order
  by unfold_locales (simp_all add: process_cancel_order_keeps_config)

lemma process_reclaim_order_keeps_config:
  assumes rules: "runtime_rules P prog" and inv: "states_inv prog accs"
    and run: "process_reclaim_order P views data accs = Inr accs'"
  shows "states_inv prog accs' \<and> config_kept prog accs accs'"
proof -
  from run obtain order_v recipient rest credited closed where "views = order_v # recipient # rest"
    and reclaimable: "is_reclaimable P order_v recipient (first rest) accs = Inr True"
    and "unat credited = unat (acc_lamports (view_account accs recipient)) + unat (acc_lamports (view_account accs order_v))"
    and close: "pf_close P (set_lamports (av_address recipient) credited accs (av_address order_v)) = Inr closed"
    and accs': "accs' = (set_lamports (av_address recipient) credited accs)(av_address order_v := closed)"
    by (rule process_reclaim_order_Inr)
  have "closed = \<lparr>acc_owner = pf_system_program_id P, acc_lamports = 0, acc_data = []\<rparr>"
    using rules close unfolding runtime_rules_def close_spec_def by blast
  moreover have "\<not> is_state prog accs (av_address order_v)"
    using reclaimable by (auto simp: is_reclaimable_True Let_def order_load_from_pda_Inr_iff dest: order_no_state)
  moreover have "state_ok []" by (simp add: state_ok_discriminator slice_def)
  ultimately show ?thesis
    using inv by (auto simp: states_inv_def config_kept_def accs')
qed

interpretation reclaim_order_config: config_preserving "\<lambda>P prog. process_reclaim_order P"
  by unfold_locales (simp_all add: process_reclaim_order_keeps_config)

section \<open>The buffer handlers\<close>

interpretation create_buffer_config: config_preserving process_create_buffer
proof -
  have frame: "owned_frame prog accs accs'"
    if "runtime_rules P prog" "process_create_buffer P prog views data accs = Inr accs'" for P prog views data accs accs'
    using that by (auto simp: process_create_buffer_def bindE_Inr_iff runtime_rules_def
        intro: create_buffers_loop_frame)
  show "config_preserving process_create_buffer"
    by unfold_locales (blast intro: states_inv_frame config_kept_frame frame)+
qed

interpretation reclaim_buffer_config: config_preserving process_reclaim_buffer
proof -
  have frame: "owned_frame prog accs accs'"
    if "runtime_rules P prog" "process_reclaim_buffer P prog views data accs = Inr accs'" for P prog views data accs accs'
    using that by (auto simp: process_reclaim_buffer_def with_state_pda_signer_def bindE_Inr_iff runtime_rules_def
        intro: reclaim_buffers_loop_frame split: if_splits)
  show "config_preserving process_reclaim_buffer"
    by unfold_locales (blast intro: states_inv_frame config_kept_frame frame)+
qed

section \<open>The settlement handlers\<close>

lemma process_order_keeps_config:
  assumes frame: "invoke_frame P prog" and inv: "states_inv prog accs"
    and run: "process_order P prog settled push now state signers accs = Inr accs'"
  shows "states_inv prog accs' \<and> config_kept prog accs accs'"
proof -
  let ?a = "order_address settled"
  note step = process_order_settled [OF frame run]
  have order: "order_attach (acc_data (accs ?a)) = Inr (acc_data (accs ?a))"
    using step(1) by (simp add: order_settled_def order_settleable_def Let_def order_load_from_pda_Inr_iff)
  have "slice 0 1 (acc_data (accs' ?a)) = [ORDER_DISCRIMINATOR]"
    using order_evolves_attached [OF order_settled_evolves [OF step(1)]] by (simp add: order_attach_Inr_iff)
  then have "states_inv prog accs'"
    using inv step(3,5) unfolding states_inv_def
    by (metis state_ok_discriminator state_ok_order zeroed_no_state)
  moreover have "config_kept prog accs accs'"
    using step(3) order_no_state [of accs ?a, OF order] unfolding config_kept_def by blast
  ultimately show ?thesis by blast
qed

lemma settle_orders_loop_keeps_config:
  assumes frame: "invoke_frame P prog" and "states_inv prog accs"
    and "settle_orders_loop P prog state signers now items previous pushes accs = Inr accs'"
  shows "states_inv prog accs' \<and> config_kept prog accs accs'"
  using assms(2,3)
proof (induction items arbitrary: previous pushes accs)
  case (Cons item items)
  from Cons.prems obtain settled push rest mid where
    head: "process_order P prog settled push now state signers accs = Inr mid"
    and loop: "settle_orders_loop P prog state signers now items (Some (order_address settled)) rest mid = Inr accs'"
    by (auto simp: result_simps split: if_splits)
  from process_order_keeps_config [OF frame Cons.prems(1) head] Cons.IH [OF _ loop] show ?case
    using config_kept_trans by blast
qed (simp split: if_splits)

interpretation begin_settle_config: config_preserving process_begin_settle
  by unfold_locales
    (auto simp: runtime_rules_def dest: settle_orders_loop_keeps_config elim!: process_begin_settle_Inr)

lemma process_finalize_settle_keeps_config:
  assumes rules: "runtime_rules P prog" and inv: "states_inv prog accs"
    and run: "process_finalize_settle P prog views data accs = Inr accs'"
  shows "states_inv prog accs' \<and> config_kept prog accs accs'"
proof -
  from run obtain input :: "account_view FinalizeSettleInput" where
    "push_funds P (fsi_state_pda_account input) [STATE_PDA_SIGNER_SEEDS P] (fsi_pushes input) accs = Inr accs'"
    by (rule process_finalize_settle_Inr) blast
  then obtain mid used where
    tokens: "push_tokens_loop P (fsi_state_pda_account input) [STATE_PDA_SIGNER_SEEDS P] (pushes_iter (fsi_pushes input)) accs = Inr mid"
    and native: "push_native_loop P (pushes_iter (fsi_pushes input)) False mid = Inr (used, accs')"
    by (rule push_funds_Inr) blast
  have frame: "owned_frame prog accs mid"
    using push_tokens_loop_frame [OF _ tokens] rules by (simp add: runtime_rules_def)
  have "states_inv prog accs' \<and> config_kept prog mid accs'"
    using lamports_keep_config [OF states_inv_frame [OF inv frame]] push_native_loop_effect(1) [OF native] by blast
  then show ?thesis using config_kept_trans [OF config_kept_frame [OF frame]] by blast
qed

interpretation finalize_settle_config: config_preserving process_finalize_settle
  by unfold_locales (simp_all add: process_finalize_settle_keeps_config)

section \<open>The configuration handlers\<close>

interpretation withdraw_native_sol_config: config_preserving "\<lambda>P prog. process_withdraw_native_sol P"
proof -
  have same: "acc_owner (accs' a) = acc_owner (accs a) \<and> acc_data (accs' a) = acc_data (accs a)"
    if "process_withdraw_native_sol P views data accs = Inr accs'" for P views data accs accs' a
  proof -
    from that obtain source dest amount where "move_lamports source dest amount accs = Inr accs'"
      by (auto simp: process_withdraw_native_sol_def bindE_Inr_iff Let_def split: if_splits)
    from move_lamports_frame(1,2) [OF this] show ?thesis by blast
  qed
  show "config_preserving (\<lambda>P prog. process_withdraw_native_sol P)"
    by unfold_locales (use lamports_keep_config same in blast)+
qed

lemma process_initialize_keeps_config:
  assumes rules: "runtime_rules P prog" and inv: "states_inv prog accs"
    and run: "process_initialize P prog views data accs = Inr accs'"
  shows "states_inv prog accs' \<and> config_kept prog accs accs'"
proof -
  from run obtain payer state_v native_v rest input bump mid bump' mid' d where
    "views = payer # state_v # native_v # rest" "av_is_signer payer" "av_address payer = INITIALIZER"
    "initialize_parse_body (tl data) views = Inr input" and state: "av_address state_v = STATE_PDA P"
    and mid: "create_idempotent P \<lparr>cp_program_id = prog, cp_payer = payer, cp_pda = state_v,
        cp_size = of_nat WIDTH_HEADER, cp_owner = prog, cp_seeds = STATE_PDA_SEEDS\<rparr> accs = Inr (True, bump, mid)"
    and mid': "create_idempotent P \<lparr>cp_program_id = prog, cp_payer = payer, cp_pda = native_v,
        cp_size = 0, cp_owner = prog, cp_seeds = NATIVE_SOL_BUFFER_PDA_SEEDS\<rparr> mid = Inr (True, bump', mid')"
    and d: "state_initialize (acc_data (mid' (STATE_PDA P)))
       \<lparr>sia_manager = ini_manager input, sia_solver_authority = ini_solver_authority input,
        sia_reclaim_authority = ini_reclaim_authority input,
        sia_settlement_owned_order_authority = ini_settlement_owned_order_authority input\<rparr> = Inr d"
    and accs': "accs' = set_data (STATE_PDA P) d mid'"
    by (rule process_initialize_Inr)
  have frames: "invoke_frame P prog" "create_account_spec P" using rules by (simp_all add: runtime_rules_def)
  have frame1: "owned_frame prog accs mid" and frame2: "owned_frame prog mid mid'"
    using create_idempotent_frame [OF frames(1)] mid mid' by blast+
  have new: "acc_owner (mid (STATE_PDA P)) = prog" "acc_data (mid (STATE_PDA P)) = replicate WIDTH_HEADER 0"
    using created_was_no_order(2,3) [OF frames mid] state by simp_all
  then have new': "acc_data (mid' (STATE_PDA P)) = replicate WIDTH_HEADER 0"
    using owned_frame_owned [OF frame2] by simp
  then have len: "length (acc_data (mid' (STATE_PDA P))) = WIDTH_HEADER" by simp
  have "length d = WIDTH_HEADER \<and> state_wf d"
    using state_initialize_reads [OF len, of "\<lparr>sia_manager = ini_manager input,
        sia_solver_authority = ini_solver_authority input, sia_reclaim_authority = ini_reclaim_authority input,
        sia_settlement_owned_order_authority = ini_settlement_owned_order_authority input\<rparr>"] d by auto
  then have "state_ok d" by (simp add: state_ok_def state_room_def WIDTH_HEADER_def)
  moreover have "states_inv prog mid'" using inv frame1 frame2 by (blast intro: states_inv_frame)
  ultimately have "states_inv prog accs'" by (simp add: accs' states_inv_def)
  moreover have "\<not> is_state prog mid' (STATE_PDA P)"
    using new' zeroed_no_state [of "replicate WIDTH_HEADER 0"] by (simp add: state_attach_Inr_iff)
  then have "config_kept prog mid' accs'" by (auto simp: config_kept_def accs')
  ultimately show ?thesis
    using config_kept_trans [OF config_kept_frame [OF owned_frame_trans [OF frame1 frame2]]] by blast
qed

interpretation initialize_config: config_preserving process_initialize
  by unfold_locales (simp_all add: process_initialize_keeps_config)

text \<open>Replacing one account's content by one that is fine.\<close>

lemma states_inv_replace:
  assumes "states_inv prog mid" and "acc_owner (accs' a) = prog \<Longrightarrow> state_ok (acc_data (accs' a))"
    and "\<And>b. b \<noteq> a \<Longrightarrow> acc_owner (accs' b) = acc_owner (mid b) \<and> acc_data (accs' b) = acc_data (mid b)"
  shows "states_inv prog accs'"
  using assms unfolding states_inv_def by metis

interpretation transfer_authority_states: state_preserving "\<lambda>P prog. process_transfer_authority P"
proof
  fix P prog accs views data accs'
  assume inv: "states_inv prog accs" and run: "process_transfer_authority P views data accs = Inr accs'"
  from run obtain role new_authority where
    state: "state_attach (acc_data (accs (STATE_PDA P))) = Inr (acc_data (accs (STATE_PDA P)))"
    and accs': "accs' = set_data (STATE_PDA P) (state_set_authority role new_authority (acc_data (accs (STATE_PDA P)))) accs"
    by (rule process_transfer_authority_Inr) blast
  show "states_inv prog accs'"
  proof (rule states_inv_replace [OF inv])
    assume "acc_owner (accs' (STATE_PDA P)) = prog"
    then have "state_wf (acc_data (accs (STATE_PDA P)))" "state_room (acc_data (accs (STATE_PDA P)))"
      using inv state by (simp_all add: states_inv_def state_ok_def accs')
    then show "state_ok (acc_data (accs' (STATE_PDA P)))"
      using state by (simp add: accs' state_ok_def state_set_authority_wf state_room_def state_attach_Inr_iff)
  qed (simp add: accs')
qed

lemma add_solver_states:
  assumes rules: "runtime_rules P prog" and inv: "states_inv prog accs"
    and run: "process_add_solver P views data accs = Inr accs'"
  shows "states_inv prog accs'"
proof -
  let ?a = "STATE_PDA P" and ?d = "acc_data (accs (STATE_PDA P))"
  from run obtain authority payer state_v rest solver new_len mid acc d where
    "views = authority # payer # state_v # rest" "data = ix_discriminator AddSolver # to_bytes solver"
    "av_address state_v = STATE_PDA P" and state: "state_attach ?d = Inr ?d" and "av_is_signer authority"
    "av_address authority = state_authority ?d SolverAuthority" and len: "grown_len ?d = Inr new_len"
    and mid: "mid = accs \<or> (\<exists>lamports. pf_invoke P [] (SystemTransfer payer state_v lamports) accs = Inr mid)"
    and resize: "pf_resize P (mid ?a) new_len = Inr acc" and acc: "state_attach (acc_data acc) = Inr (acc_data acc)"
    and d: "insert_solver solver (acc_data acc) = Inr d" and accs': "accs' = set_data ?a d (mid(?a := acc))"
    by (rule process_add_solver_Inr)
  have frame: "owned_frame prog accs mid"
    using mid rules by (auto simp: runtime_rules_def intro: invoke_frameD)
  have new_len: "new_len = length ?d + 32"
    using len by (auto simp: grown_len_def usize_checked_add_def result_simps split: if_splits)
  have spec: "new_len \<le> MAX_PERMITTED_DATA_LENGTH"
    "acc = (mid ?a)\<lparr>acc_data := take new_len (acc_data (mid ?a) @ replicate (new_len - length (acc_data (mid ?a))) 0)\<rparr>"
    using rules resize unfolding runtime_rules_def resize_spec_def by blast+
  show ?thesis
  proof (rule states_inv_replace [OF states_inv_frame [OF inv frame]])
    assume "acc_owner (accs' ?a) = prog"
    then have owner: "acc_owner (mid ?a) = prog" by (simp add: accs' spec(2))
    show "state_ok (acc_data (accs' ?a))"
    proof (cases "acc_owner (accs ?a) = prog")
      case True
      then have wf: "state_wf ?d" and room: "state_room ?d"
        using inv state by (simp_all add: states_inv_def state_ok_def)
      have "acc_data (mid ?a) = ?d" using frame True by (simp add: owned_frame_owned)
      then have grown: "grow_and_insert solver ?d = Inr d"
        using spec(2) d len new_len by (simp add: grow_and_insert_def)
      have "length (acc_data acc) = new_len" by (simp add: spec(2))
      then have "length d = new_len"
        using d acc by (auto simp: insert_solver_def result_simps usize_checked_add_def usize_checked_mul_def
            copy_within_def length_splice length_slice split: sum.splits if_splits)
      then show ?thesis
        using state_solver_set.add_Inr(1) [OF wf room grown] spec(1)
        by (simp add: accs' state_ok_def state_room_def MAX_PERMITTED_DATA_LENGTH_def)
    next
      case False
      then have "zeroed (acc_data (mid ?a))" using frame owner by (simp add: owned_frame_fresh)
      then have "zeroed (acc_data acc)"
        by (auto simp: spec(2) zeroed_def dest!: in_set_takeD)
      with acc zeroed_no_state show ?thesis by (auto simp: state_attach_Inr_iff)
    qed
  qed (simp add: accs')
qed

interpretation add_solver_states: state_preserving "\<lambda>P prog. process_add_solver P"
  by unfold_locales (rule add_solver_states)

interpretation remove_solver_states: state_preserving "\<lambda>P prog. process_remove_solver P"
proof
  fix P prog accs views data accs'
  assume rules: "runtime_rules P prog" and inv: "states_inv prog accs"
    and run: "process_remove_solver P views data accs = Inr accs'"
  let ?d = "acc_data (accs (STATE_PDA P))"
  have "resize_spec P" using rules by (simp add: runtime_rules_def)
  then obtain solver where state: "state_attach ?d = Inr ?d"
    and cut: "remove_and_cut solver ?d = Inr (acc_data (accs' (STATE_PDA P)))"
    and len: "length (acc_data (accs' (STATE_PDA P))) \<le> length ?d"
    and owners: "\<forall>a. acc_owner (accs' a) = acc_owner (accs a)"
    and others: "\<forall>a. a \<noteq> STATE_PDA P \<longrightarrow> acc_data (accs' a) = acc_data (accs a)"
    using run by (rule process_remove_solver_cut)
  show "states_inv prog accs'"
  proof (rule states_inv_replace [OF inv])
    assume "acc_owner (accs' (STATE_PDA P)) = prog"
    then have wf: "state_wf ?d" and room: "state_room ?d"
      using inv state owners by (simp_all add: states_inv_def state_ok_def)
    from state_solver_set.rem_Inr(1) [OF wf room cut] room len show "state_ok (acc_data (accs' (STATE_PDA P)))"
      by (simp add: state_ok_def state_room_def)
  qed (simp add: owners others)
qed

end
