(* ===== verification/Processor.thy ===== *)
theory Processor
  imports StateInvariant
begin

text \<open>
  The dispatcher of the program (\<open>programs/settlement/src/processor/mod.rs\<close>) and the system it
  runs in. \<open>process_instruction\<close> reads the discriminator and calls the handler. \<open>step\<close> is
  the chain seen from the program: either an instruction of the program succeeds, under any
  platform that follows the runtime's rules (any clock, any transaction, any token program), or
  something else happens that respects the program's ownership of its accounts. A failed
  instruction leaves no trace, so it is no step. The theorems are invariants of every reachable
  state, by rule induction over the contract that all handlers share.
\<close>

section \<open>Dispatch\<close>

definition process_instruction :: handler where
  "process_instruction P program_id accounts instruction_data accs =
     bindE (recover_discriminator instruction_data) (\<lambda>(discriminator, _).
     case discriminator of
       BeginSettle \<Rightarrow> process_begin_settle P program_id accounts instruction_data accs
     | FinalizeSettle \<Rightarrow> process_finalize_settle P program_id accounts instruction_data accs
     | CancelOrder \<Rightarrow> process_cancel_order P program_id accounts instruction_data accs
     | CreateOrder \<Rightarrow> process_create_order P program_id accounts instruction_data accs
     | CreateSettlementOwnedOrder \<Rightarrow>
         process_create_settlement_owned_order P program_id accounts instruction_data accs
     | Initialize \<Rightarrow> process_initialize P program_id accounts instruction_data accs
     | CreateBuffer \<Rightarrow> process_create_buffer P program_id accounts instruction_data accs
     | ReclaimOrder \<Rightarrow> process_reclaim_order P accounts instruction_data accs
     | ReclaimBuffer \<Rightarrow> process_reclaim_buffer P program_id accounts instruction_data accs
     | TransferAuthority \<Rightarrow> process_transfer_authority P accounts instruction_data accs
     | AddSolver \<Rightarrow> process_add_solver P accounts instruction_data accs
     | RemoveSolver \<Rightarrow> process_remove_solver P accounts instruction_data accs
     | WithdrawNativeSol \<Rightarrow> process_withdraw_native_sol P accounts instruction_data accs)"

interpretation process_instruction_handler: order_preserving process_instruction
proof
  fix P prog accs views data accs'
  assume rules: "runtime_rules P prog" "orders_inv prog accs"
    and run: "process_instruction P prog views data accs = Inr accs'"
  then obtain i rest where "recover_discriminator data = Inr (i, rest)"
    by (auto simp: process_instruction_def bindE_Inr_iff)
  with run show "keeps_orders prog accs accs'"
    by (cases i)
      (auto simp: process_instruction_def
        intro: begin_settle_handler.keeps [OF rules] finalize_settle_handler.keeps [OF rules]
          cancel_order_handler.keeps [OF rules] create_order_handler.keeps [OF rules]
          create_settlement_owned_order_handler.keeps [OF rules] initialize_handler.keeps [OF rules]
          create_buffer_handler.keeps [OF rules] reclaim_order_handler.keeps [OF rules]
          reclaim_buffer_handler.keeps [OF rules] transfer_authority_handler.keeps [OF rules]
          add_solver_handler.keeps [OF rules] remove_solver_handler.keeps [OF rules]
          withdraw_native_sol_handler.keeps [OF rules])
qed

interpretation process_instruction_states: state_preserving process_instruction
proof
  fix P prog accs views data accs'
  assume rules: "runtime_rules P prog" "states_inv prog accs"
    and run: "process_instruction P prog views data accs = Inr accs'"
  then obtain i rest where "recover_discriminator data = Inr (i, rest)"
    by (auto simp: process_instruction_def bindE_Inr_iff)
  with run show "states_inv prog accs'"
    by (cases i)
      (auto simp: process_instruction_def
        intro: begin_settle_config.keeps_states [OF rules] finalize_settle_config.keeps_states [OF rules]
          cancel_order_config.keeps_states [OF rules] create_order_config.keeps_states [OF rules]
          create_settlement_owned_order_config.keeps_states [OF rules] initialize_config.keeps_states [OF rules]
          create_buffer_config.keeps_states [OF rules] reclaim_order_config.keeps_states [OF rules]
          reclaim_buffer_config.keeps_states [OF rules] transfer_authority_states.keeps_states [OF rules]
          add_solver_states.keeps_states [OF rules] remove_solver_states.keeps_states [OF rules]
          withdraw_native_sol_config.keeps_states [OF rules])
qed

section \<open>The chain seen from the program\<close>

inductive step :: "pubkey \<Rightarrow> accounts \<Rightarrow> accounts \<Rightarrow> bool" for prog where
  program_step: "runtime_rules P prog \<Longrightarrow> process_instruction P prog views data accs = Inr accs' \<Longrightarrow>
    step prog accs accs'"
| external_step: "owned_frame prog accs accs' \<Longrightarrow> step prog accs accs'"

inductive reachable :: "pubkey \<Rightarrow> accounts \<Rightarrow> bool" for prog where
  deployed: "\<forall>a. acc_owner (accs a) \<noteq> prog \<Longrightarrow> reachable prog accs"
| stepped: "reachable prog accs \<Longrightarrow> step prog accs accs' \<Longrightarrow> reachable prog accs'"

inductive_cases stepE: "step prog accs accs'"

lemma step_keeps: "step prog accs accs' \<Longrightarrow> orders_inv prog accs \<Longrightarrow> keeps_orders prog accs accs'"
  by (erule stepE) (blast intro: process_instruction_handler.keeps frame_keeps_orders)+

lemma reachable_orders_inv: "reachable prog accs \<Longrightarrow> orders_inv prog accs"
proof (induction rule: reachable.induct)
  case (stepped accs accs')
  then show ?case using step_keeps by (auto simp: keeps_orders_def)
qed (simp add: orders_inv_def)

lemma reachable_states_inv: "reachable prog accs \<Longrightarrow> states_inv prog accs"
proof (induction rule: reachable.induct)
  case (stepped accs accs')
  from stepped.hyps(2) show ?case
    by (cases rule: step.cases)
      (use stepped.IH in \<open>blast intro: process_instruction_states.keeps_states states_inv_frame\<close>)+
qed (simp add: states_inv_def)

lemma reachable_state_wf:
  "reachable prog accs \<Longrightarrow> is_state prog accs a \<Longrightarrow> state_wf (acc_data (accs a)) \<and> state_room (acc_data (accs a))"
  using reachable_states_inv by (simp add: states_inv_def state_ok_def)

lemma other_instructions_keep_config:
  assumes rules: "runtime_rules P prog" "states_inv prog accs"
    and "process_instruction P prog views (ix_discriminator i # body) accs = Inr accs'"
    and "i \<notin> {AddSolver, RemoveSolver, TransferAuthority}"
  shows "config_kept prog accs accs'"
  using assms(3,4)
  by (cases i)
    (auto simp: process_instruction_def recover_discriminator_def settlement_instruction_try_from_def
        settlement_instruction_all_def try_from_tag_def ok_or_def
      intro: begin_settle_config.keeps_config [OF rules] finalize_settle_config.keeps_config [OF rules]
        cancel_order_config.keeps_config [OF rules] create_order_config.keeps_config [OF rules]
        create_settlement_owned_order_config.keeps_config [OF rules] initialize_config.keeps_config [OF rules]
        create_buffer_config.keeps_config [OF rules] reclaim_order_config.keeps_config [OF rules]
        reclaim_buffer_config.keeps_config [OF rules] withdraw_native_sol_config.keeps_config [OF rules])

lemma begin_settle_solver:
  assumes "process_begin_settle P prog views data accs = Inr accs'"
  obtains "views \<noteq> []" and "state_attach (acc_data (accs (STATE_PDA P))) = Inr (acc_data (accs (STATE_PDA P)))"
    and "is_solver (acc_data (accs (STATE_PDA P))) (av_address (hd views))"
proof -
  from assms obtain input :: "account_view BeginSettleInput" and body where
    parse: "begin_settle_parse_body body views = Inr input"
    and "av_address (bsi_state_pda_account input) = STATE_PDA P"
    and "require_solver accs (bsi_state_pda_account input) (bsi_solver_account input) = Inr ()"
    by (rule process_begin_settle_Inr) blast
  moreover obtain rest where "views = bsi_solver_account input # rest"
    using parse by (auto simp: begin_settle_parse_body_def result_simps split: list.splits if_splits)
  ultimately show thesis using that by (simp add: require_solver_Inr_iff)
qed

text \<open>A run during which the account at \<open>a\<close> is never closed.\<close>

definition run_without_closing :: "pubkey \<Rightarrow> pubkey \<Rightarrow> accounts \<Rightarrow> accounts \<Rightarrow> bool" where
  "run_without_closing prog a = (\<lambda>accs accs'. step prog accs accs' \<and> acc_data (accs' a) \<noteq> [])\<^sup>*\<^sup>*"

lemma run_reachable:
  "run_without_closing prog a accs accs' \<Longrightarrow> reachable prog accs \<Longrightarrow> reachable prog accs'"
  unfolding run_without_closing_def by (induction rule: rtranclp_induct) (auto intro: reachable.intros)

lemma run_evolves:
  assumes "run_without_closing prog a accs accs'" and "reachable prog accs" and "is_order prog accs a"
  shows "acc_owner (accs' a) = prog \<and> order_evolves (acc_data (accs a)) (acc_data (accs' a))"
  using assms(1) unfolding run_without_closing_def
proof (induction rule: rtranclp_induct)
  case base
  then show ?case using assms(3) by simp
next
  case (step mid later)
  have "reachable prog mid"
    using run_reachable step.hyps(1) assms(2) by (simp add: run_without_closing_def)
  then have "orders_evolve prog mid later"
    using step.hyps(2) step_keeps reachable_orders_inv by (auto simp: keeps_orders_def)
  moreover have "is_order prog mid a"
    using step.IH order_evolves_attached by blast
  ultimately have "acc_owner (later a) = prog" "order_evolves (acc_data (mid a)) (acc_data (later a))"
    using step.hyps(2) by (auto simp: orders_evolve_def)
  then show ?case using step.IH order_evolves_trans by blast
qed

section \<open>Properties\<close>

text \<open>
  C1: in every reachable state, every order the program owns has withdrawn at most its
  sell amount, has received at least its limit price for what was withdrawn (as exact products),
  has not received more than its buy amount when it is a buy order, and has a valid
  cancelled flag.
\<close>

theorem reachable_orders_within_limits:
  assumes "reachable prog accs" and "is_order prog accs a"
    and "intent_try_from P (order_intent_bytes (acc_data (accs a))) = Inr i"
  shows "let fill = order_filled_amounts (acc_data (accs a)) in
    fa_withdrawn fill \<le> oi_sell_amount i \<and>
    unat (fa_withdrawn fill) * unat (oi_buy_amount i) \<le> unat (fa_received fill) * unat (oi_sell_amount i) \<and>
    (fl_kind (oi_flags i) = Buy \<longrightarrow> fa_received fill \<le> oi_buy_amount i) \<and>
    (order_cancelled (acc_data (accs a)) = Inr False \<or> order_cancelled (acc_data (accs a)) = Inr True)"
proof -
  note acc = accessor_agrees(5,6,8) [OF assms(3)]
  have "order_inv (acc_data (accs a))"
    using reachable_orders_inv [OF assms(1)] assms(2) by (simp add: orders_inv_def)
  with assms(2) have ok: "fill_ok (order_intent_bytes (acc_data (accs a))) (order_filled_amounts (acc_data (accs a)))"
    and "order_cancelled (acc_data (accs a)) \<in> {Inr False, Inr True}"
    by (simp_all add: order_inv_def)
  then show ?thesis
    using fill_ok_withdrawn_le [OF ok acc(1)] ok unfolding fill_ok_iff [OF acc] by (auto simp: Let_def)
qed

text \<open>
  C24: in every reachable state, every order the program owns carries an intent that
  decodes, so no later instruction fails on it for being malformed.
\<close>

theorem reachable_orders_decode:
  assumes "reachable prog accs" and "is_order prog accs a"
  shows "\<exists>i. intent_try_from P (order_intent_bytes (acc_data (accs a))) = Inr i"
proof -
  have "order_inv (acc_data (accs a))"
    using reachable_orders_inv [OF assms(1)] assms(2) by (simp add: orders_inv_def)
  then have "check_bytes (order_intent_bytes (acc_data (accs a))) = Inr ()"
    using assms(2) by (auto simp: order_inv_def intro: fill_ok_checked)
  then show ?thesis using check_bytes_iff_try_from by blast
qed

text \<open>
  C2: from a reachable state on, as long as an order is not closed, its intent, payer and
  bump never change and its counters never decrease; and once it is cancelled it stays
  cancelled and its counters are frozen.
\<close>

theorem orders_only_evolve:
  assumes "reachable prog accs" and "is_order prog accs a" and "run_without_closing prog a accs accs'"
  shows "is_order prog accs' a \<and>
    (let d = acc_data (accs a); d' = acc_data (accs' a) in
     order_intent_bytes d' = order_intent_bytes d \<and> order_created_by d' = order_created_by d \<and>
     order_bump_slice d' = order_bump_slice d \<and>
     fa_withdrawn (order_filled_amounts d) \<le> fa_withdrawn (order_filled_amounts d') \<and>
     fa_received (order_filled_amounts d) \<le> fa_received (order_filled_amounts d') \<and>
     (order_cancelled d = Inr True \<longrightarrow>
        order_cancelled d' = Inr True \<and> order_filled_amounts d' = order_filled_amounts d))"
  using run_evolves [OF assms(3,1,2)] by (simp add: order_evolves_def Let_def)

text \<open>
  Data that is empty or starts with a byte that is no discriminator is rejected before
  any handler runs.
\<close>

theorem process_instruction_rejects_unknown:
  assumes "data = [] \<or> (\<forall>i. hd data \<noteq> ix_discriminator i)"
  shows "process_instruction P prog views data accs = Inl InvalidInstructionData"
proof (cases data)
  case (Cons b rest)
  with assms have "try_from_tag ix_discriminator settlement_instruction_all b = None"
    by (auto simp: settlement_instruction.try_from_None_iff)
  then show ?thesis
    by (simp add: process_instruction_def recover_discriminator_def settlement_instruction_try_from_def Cons)
qed (simp add: process_instruction_def recover_discriminator_def)

text \<open>
  C16: in every reachable state, the solver list of the program's state account is strictly
  sorted, and so the binary search of \<open>is_solver\<close> decides membership in it.
\<close>

theorem reachable_solver_list_sorted:
  assumes "reachable prog accs" and "is_state prog accs a"
  shows "sorted_wrt (<) (state_solvers (acc_data (accs a))) \<and>
    (\<forall>s. is_solver (acc_data (accs a)) s \<longleftrightarrow> s \<in> set (state_solvers (acc_data (accs a))))"
proof -
  have "state_wf (acc_data (accs a))" using reachable_state_wf [OF assms] by blast
  then show ?thesis using is_solver_iff by (simp add: state_wf_def state_solvers_def)
qed

text \<open>
  C17: from a reachable state, an instruction other than \<open>AddSolver\<close>, \<open>RemoveSolver\<close> and
  \<open>TransferAuthority\<close> leaves every byte of an existing state account as it was.
\<close>

theorem only_three_instructions_change_configuration:
  assumes "reachable prog accs" and "runtime_rules P prog" and "is_state prog accs a"
    and "process_instruction P prog views (ix_discriminator i # body) accs = Inr accs'"
    and "i \<notin> {AddSolver, RemoveSolver, TransferAuthority}"
  shows "acc_owner (accs' a) = prog \<and> acc_data (accs' a) = acc_data (accs a)"
  using other_instructions_keep_config [OF assms(2) reachable_states_inv [OF assms(1)] assms(4,5)] assms(3)
  by (simp add: config_kept_def)

text \<open>
  After a \<open>RemoveSolver\<close> from a reachable state has removed a solver, no \<open>BeginSettle\<close>
  of that solver succeeds on the resulting state.
\<close>

theorem removed_solver_cannot_settle:
  assumes "reachable prog accs" and "runtime_rules P prog" and "acc_owner (accs (STATE_PDA P)) = prog"
    and "process_remove_solver P views (ix_discriminator RemoveSolver # to_bytes solver) accs = Inr accs'"
    and "STATE_PDA P' = STATE_PDA P" and "av_address (hd views') = solver"
  shows "process_begin_settle P' prog views' data accs' \<noteq> Inr accs''"
proof
  let ?d = "acc_data (accs (STATE_PDA P))" and ?d' = "acc_data (accs' (STATE_PDA P))"
  assume "process_begin_settle P' prog views' data accs' = Inr accs''"
  then have still: "is_solver ?d' solver"
    using assms(5,6) by (auto elim: begin_settle_solver)
  have "resize_spec P" using assms(2) by (simp add: runtime_rules_def)
  then obtain s where "ix_discriminator RemoveSolver # to_bytes solver = ix_discriminator RemoveSolver # to_bytes s"
    and "state_attach ?d = Inr ?d" and cut: "remove_and_cut s ?d = Inr ?d'"
    using assms(4) by (rule process_remove_solver_cut)
  then have "s = solver" and "state_wf ?d" and "state_room ?d"
    using reachable_state_wf [OF assms(1), of "STATE_PDA P"] assms(3) by auto
  with still state_solver_set.member_rem [OF _ _ cut] show False by blast
qed

end
