(* ===== verification/Client.thy ===== *)
theory Client
  imports SettleInstructions
begin

text \<open>
  The off-chain client (\<open>client/src\<close>): the parser for any settlement instruction
  (\<open>parse.rs\<close>), the owned snapshots of order and state accounts (\<open>pda\<close>), and the builders that
  derive the accounts of an instruction from intents and mints (\<open>instruction\<close>). The lemmas show
  that snapshots and account bytes determine each other, that the parser recovers every built
  instruction, and that \<open>BeginSettle\<close> and \<open>FinalizeSettle\<close> built from the same orders list them in
  the same order, each push going where its order asks.
\<close>

section \<open>Parsing any instruction\<close>

datatype 'a ParsedInstruction =
    ParsedInitialize "'a InitializeInput"
  | ParsedCreateOrder "'a CreateOrderInput"
  | ParsedCancelOrder "'a CancelOrderInput"
  | ParsedCreateSettlementOwnedOrder "'a CreateSettlementOwnedOrderInput"
  | ParsedCreateBuffer "'a CreateBufferInput"
  | ParsedBeginSettle "'a BeginSettleInput"
  | ParsedFinalizeSettle "'a FinalizeSettleInput"
  | ParsedReclaimOrder "'a ReclaimOrderInput"
  | ParsedReclaimBuffer "'a ReclaimBufferInput"
  | ParsedTransferAuthority "'a TransferAuthorityInput"
  | ParsedAddSolver "'a AddSolverInput"
  | ParsedRemoveSolver "'a RemoveSolverInput"
  | ParsedWithdrawNativeSol "'a WithdrawNativeSolInput"

definition parse_instruction :: "bytes \<Rightarrow> 'a list \<Rightarrow> 'a ParsedInstruction result" where
  "parse_instruction instruction_data accounts =
     bindE (recover_discriminator instruction_data) (\<lambda>(discriminator, remaining_data).
     case discriminator of
       Initialize \<Rightarrow> bindE (initialize_parse_body remaining_data accounts) (\<lambda>i. Inr (ParsedInitialize i))
     | CreateOrder \<Rightarrow> bindE (create_order_parse_body remaining_data accounts) (\<lambda>i. Inr (ParsedCreateOrder i))
     | CancelOrder \<Rightarrow> bindE (cancel_order_parse_body remaining_data accounts) (\<lambda>i. Inr (ParsedCancelOrder i))
     | CreateSettlementOwnedOrder \<Rightarrow>
         bindE (create_settlement_owned_order_parse_body remaining_data accounts)
           (\<lambda>i. Inr (ParsedCreateSettlementOwnedOrder i))
     | CreateBuffer \<Rightarrow> bindE (create_buffer_parse_body remaining_data accounts) (\<lambda>i. Inr (ParsedCreateBuffer i))
     | BeginSettle \<Rightarrow> bindE (begin_settle_parse_body remaining_data accounts) (\<lambda>i. Inr (ParsedBeginSettle i))
     | FinalizeSettle \<Rightarrow>
         bindE (finalize_settle_parse_body remaining_data accounts) (\<lambda>i. Inr (ParsedFinalizeSettle i))
     | ReclaimOrder \<Rightarrow> bindE (reclaim_order_parse_body remaining_data accounts) (\<lambda>i. Inr (ParsedReclaimOrder i))
     | ReclaimBuffer \<Rightarrow> bindE (reclaim_buffer_parse_body remaining_data accounts) (\<lambda>i. Inr (ParsedReclaimBuffer i))
     | TransferAuthority \<Rightarrow>
         bindE (transfer_authority_parse_body remaining_data accounts) (\<lambda>i. Inr (ParsedTransferAuthority i))
     | AddSolver \<Rightarrow> bindE (add_solver_parse_body remaining_data accounts) (\<lambda>i. Inr (ParsedAddSolver i))
     | RemoveSolver \<Rightarrow> bindE (remove_solver_parse_body remaining_data accounts) (\<lambda>i. Inr (ParsedRemoveSolver i))
     | WithdrawNativeSol \<Rightarrow>
         bindE (withdraw_native_sol_parse_body remaining_data accounts) (\<lambda>i. Inr (ParsedWithdrawNativeSol i)))"

section \<open>Snapshots of accounts\<close>

record DecodedOrderAccount =
  da_bump :: u8
  da_cancelled :: bool
  da_amount_withdrawn :: u64
  da_amount_received :: u64
  da_created_by :: pubkey
  da_intent :: OrderIntent

text \<open>The \<open>expect\<close> of the source is the error value \<open>Panic\<close>.\<close>

definition decoded_order_encode :: "platform \<Rightarrow> DecodedOrderAccount \<Rightarrow> bytes result" where
  "decoded_order_encode P o1 =
     map_err (\<lambda>_. Panic)
       (order_initialize (replicate ORDER_SIZE 0) (da_bump o1) (da_cancelled o1) (da_amount_withdrawn o1)
         (da_amount_received o1) (da_created_by o1) (intent_encode P (da_intent o1)))"

definition decoded_order_try_from :: "platform \<Rightarrow> bytes \<Rightarrow> DecodedOrderAccount result" where
  "decoded_order_try_from P bs =
     bindE (order_attach bs) (\<lambda>order.
     let filled = order_filled_amounts order in
     bindE (order_cancelled order) (\<lambda>cancelled.
     bindE (map_err (\<lambda>_. InvalidAccountData) (intent_try_from P (order_intent_bytes order))) (\<lambda>intent.
     Inr \<lparr>da_bump = order_bump order, da_cancelled = cancelled, da_amount_withdrawn = fa_withdrawn filled,
          da_amount_received = fa_received filled, da_created_by = order_created_by order,
          da_intent = intent\<rparr>)))"

record DecodedStateAccount =
  ds_manager :: pubkey
  ds_solver_authority :: pubkey
  ds_reclaim_authority :: pubkey
  ds_settlement_owned_order_authority :: pubkey

definition decoded_state_try_from :: "bytes \<Rightarrow> DecodedStateAccount result" where
  "decoded_state_try_from bs =
     bindE (state_attach bs) (\<lambda>state.
     Inr \<lparr>ds_manager = state_authority state Manager,
          ds_solver_authority = state_authority state SolverAuthority,
          ds_reclaim_authority = state_authority state ReclaimAuthority,
          ds_settlement_owned_order_authority = state_authority state SettlementOwnedOrderAuthority\<rparr>)"

section \<open>Builders\<close>

record ClientAddSolver =
  cas_program_id :: pubkey
  cas_authority :: pubkey
  cas_payer :: pubkey
  cas_solver :: pubkey

definition client_add_solver :: "platform \<Rightarrow> ClientAddSolver \<Rightarrow> instruction" where
  "client_add_solver P b = add_solver_instruction P
     \<lparr>as_program_id = cas_program_id b, as_authority = cas_authority b, as_payer = cas_payer b,
      as_state_pda = fst (find_state_pda P (cas_program_id b)), as_solver = cas_solver b\<rparr>"

record ClientRemoveSolver =
  crs_program_id :: pubkey
  crs_authority :: pubkey
  crs_rent_recipient :: pubkey
  crs_solver :: pubkey

definition client_remove_solver :: "platform \<Rightarrow> ClientRemoveSolver \<Rightarrow> instruction" where
  "client_remove_solver P b = remove_solver_instruction
     \<lparr>rs_program_id = crs_program_id b, rs_authority = crs_authority b,
      rs_rent_recipient = crs_rent_recipient b,
      rs_state_pda = fst (find_state_pda P (crs_program_id b)), rs_solver = crs_solver b\<rparr>"

record ClientTransferAuthority =
  cta_program_id :: pubkey
  cta_signer :: pubkey
  cta_role :: Role
  cta_new_authority :: pubkey

definition client_transfer_authority :: "platform \<Rightarrow> ClientTransferAuthority \<Rightarrow> instruction" where
  "client_transfer_authority P b = transfer_authority_instruction
     \<lparr>tab_program_id = cta_program_id b, tab_signer = cta_signer b,
      tab_state_pda = fst (find_state_pda P (cta_program_id b)), tab_role = cta_role b,
      tab_new_authority = cta_new_authority b\<rparr>"

record ClientWithdrawNativeSol =
  cwn_program_id :: pubkey
  cwn_authority :: pubkey
  cwn_recipient :: pubkey
  cwn_amount :: u64

definition client_withdraw_native_sol :: "platform \<Rightarrow> ClientWithdrawNativeSol \<Rightarrow> instruction" where
  "client_withdraw_native_sol P b = withdraw_native_sol_instruction
     \<lparr>wnb_program_id = cwn_program_id b, wnb_state_pda = fst (find_state_pda P (cwn_program_id b)),
      wnb_authority = cwn_authority b,
      wnb_native_sol_buffer = fst (find_native_sol_buffer_pda P (cwn_program_id b)),
      wnb_recipient = cwn_recipient b, wnb_amount = cwn_amount b\<rparr>"

record ClientInitialize =
  cin_program_id :: pubkey
  cin_payer :: pubkey
  cin_manager :: pubkey
  cin_solver_authority :: pubkey
  cin_reclaim_authority :: pubkey
  cin_settlement_owned_order_authority :: pubkey

definition client_initialize :: "platform \<Rightarrow> ClientInitialize \<Rightarrow> instruction" where
  "client_initialize P b = initialize_instruction P
     \<lparr>inb_program_id = cin_program_id b, inb_payer = cin_payer b,
      inb_state_pda = fst (find_state_pda P (cin_program_id b)),
      inb_native_sol_buffer = fst (find_native_sol_buffer_pda P (cin_program_id b)),
      inb_manager = cin_manager b, inb_solver_authority = cin_solver_authority b,
      inb_reclaim_authority = cin_reclaim_authority b,
      inb_settlement_owned_order_authority = cin_settlement_owned_order_authority b\<rparr>"

record ClientCreateBuffers =
  ccb_program_id :: pubkey
  ccb_payer :: pubkey
  ccb_token_program :: TokenProgram
  ccb_mints :: "pubkey list"

definition client_create_buffers :: "platform \<Rightarrow> ClientCreateBuffers \<Rightarrow> instruction" where
  "client_create_buffers P b = create_buffers_instruction P
     \<lparr>cbb_program_id = ccb_program_id b, cbb_payer = ccb_payer b,
      cbb_token_program = token_program_address P (ccb_token_program b),
      cbb_buffers = map (\<lambda>mint. (fst (find_buffer_pda P (ccb_program_id b) mint), mint)) (ccb_mints b)\<rparr>"

record ClientReclaimBuffer =
  crb_program_id :: pubkey
  crb_reclaim_authority :: pubkey
  crb_reclaim_recipient :: pubkey
  crb_token_program :: TokenProgram
  crb_mints :: "(pubkey \<times> u64) list"

definition client_reclaim_buffer :: "platform \<Rightarrow> ClientReclaimBuffer \<Rightarrow> instruction" where
  "client_reclaim_buffer P b = reclaim_buffer_instruction
     \<lparr>rbb_program_id = crb_program_id b, rbb_state_pda = fst (find_state_pda P (crb_program_id b)),
      rbb_reclaim_authority = crb_reclaim_authority b, rbb_reclaim_recipient = crb_reclaim_recipient b,
      rbb_token_program = token_program_address P (crb_token_program b),
      rbb_buffers = map (\<lambda>(mint, burn_limit).
        (fst (find_buffer_pda P (crb_program_id b) mint), mint, burn_limit)) (crb_mints b)\<rparr>"

text \<open>The builders for orders take the intent and derive the order's address from its UID.\<close>

record ClientCreateOrder =
  cco_program_id :: pubkey
  cco_owner :: pubkey
  cco_created_by :: pubkey
  cco_intent :: OrderIntent

definition client_create_order :: "platform \<Rightarrow> ClientCreateOrder \<Rightarrow> instruction" where
  "client_create_order P b =
     (let encoded = intent_encode P (cco_intent b);
          order_pda = fst (find_order_pda P (cco_program_id b) (hash_bytes P encoded)) in
      create_order_instruction P
        \<lparr>co_program_id = cco_program_id b, co_owner = cco_owner b, co_created_by = cco_created_by b,
         co_order_pda = order_pda, co_intent_bytes = encoded\<rparr>)"

record ClientCreateSettlementOwnedOrder =
  ccs_program_id :: pubkey
  ccs_authority :: pubkey
  ccs_created_by :: pubkey
  ccs_intent :: OrderIntent

definition client_create_settlement_owned_order ::
  "platform \<Rightarrow> ClientCreateSettlementOwnedOrder \<Rightarrow> instruction" where
  "client_create_settlement_owned_order P b =
     (let encoded = intent_encode P (ccs_intent b);
          order_pda = fst (find_order_pda P (ccs_program_id b) (hash_bytes P encoded)) in
      create_settlement_owned_order_instruction P
        \<lparr>csb_program_id = ccs_program_id b, csb_authority = ccs_authority b,
         csb_created_by = ccs_created_by b, csb_state_pda = fst (find_state_pda P (ccs_program_id b)),
         csb_order_pda = order_pda, csb_intent_bytes = encoded\<rparr>)"

record ClientCancelOrder =
  cca_program_id :: pubkey
  cca_owner :: pubkey
  cca_created_by :: pubkey
  cca_intent :: OrderIntent

definition client_cancel_order :: "platform \<Rightarrow> ClientCancelOrder \<Rightarrow> instruction" where
  "client_cancel_order P b =
     (let encoded = intent_encode P (cca_intent b);
          order_pda = fst (find_order_pda P (cca_program_id b) (hash_bytes P encoded)) in
      cancel_order_instruction P
        \<lparr>cab_program_id = cca_program_id b, cab_owner = cca_owner b, cab_created_by = cca_created_by b,
         cab_order_pda = order_pda, cab_intent_bytes = Some encoded, cab_state_pda = None\<rparr>)"

text \<open>\<open>CancelOutstandingOrder\<close> has the fields of \<open>CancelOrder\<close>.\<close>

definition client_cancel_outstanding_order :: "platform \<Rightarrow> ClientCancelOrder \<Rightarrow> instruction" where
  "client_cancel_outstanding_order P b =
     (let encoded = intent_encode P (cca_intent b);
          order_pda = fst (find_order_pda P (cca_program_id b) (hash_bytes P encoded)) in
      cancel_order_instruction P
        \<lparr>cab_program_id = cca_program_id b, cab_owner = cca_owner b, cab_created_by = cca_created_by b,
         cab_order_pda = order_pda, cab_intent_bytes = None, cab_state_pda = None\<rparr>)"

text \<open>Here the owner slot holds the settlement-owned-order authority.\<close>

definition client_cancel_settlement_owned_order :: "platform \<Rightarrow> ClientCreateSettlementOwnedOrder \<Rightarrow> instruction" where
  "client_cancel_settlement_owned_order P b =
     (let encoded = intent_encode P (ccs_intent b);
          order_pda = fst (find_order_pda P (ccs_program_id b) (hash_bytes P encoded)) in
      cancel_order_instruction P
        \<lparr>cab_program_id = ccs_program_id b, cab_owner = ccs_authority b, cab_created_by = ccs_created_by b,
         cab_order_pda = order_pda, cab_intent_bytes = Some encoded,
         cab_state_pda = Some (fst (find_state_pda P (ccs_program_id b)))\<rparr>)"

section \<open>Settlement builders\<close>

text \<open>The address of an intent's order.\<close>

definition client_order_address :: "platform \<Rightarrow> pubkey \<Rightarrow> OrderIntent \<Rightarrow> pubkey" where
  "client_order_address P program_id intent = fst (find_order_pda P program_id (intent_uid P intent))"

record InitializedIntent =
  ii_intent :: OrderIntent
  ii_pulls :: "Pull list"
  ii_use_transfer_checked :: bool

definition initialized_intent_sell_mint :: "InitializedIntent \<Rightarrow> pubkey option" where
  "initialized_intent_sell_mint o1 =
     (if ii_use_transfer_checked o1 then Some (ta_mint (oi_sell (ii_intent o1))) else None)"

record ClientBeginSettle =
  cbs_program_id :: pubkey
  cbs_solver :: pubkey
  cbs_finalize_ix_index :: u16
  cbs_auction_id :: "64 word"
  cbs_only_token_program :: "TokenProgram option"
  cbs_orders :: "InitializedIntent list"

definition client_begin_settle_builder :: "platform \<Rightarrow> ClientBeginSettle \<Rightarrow> BeginSettle" where
  "client_begin_settle_builder P b =
    \<lparr>bsb_program_id = cbs_program_id b,
     bsb_state_pda = fst (find_state_pda P (cbs_program_id b)),
     bsb_solver = cbs_solver b,
     bsb_finalize_ix_index = cbs_finalize_ix_index b,
     bsb_auction_id = cbs_auction_id b,
     bsb_only_token_program = cbs_only_token_program b,
     bsb_order_pdas = map (\<lambda>o1. client_order_address P (cbs_program_id b) (ii_intent o1)) (cbs_orders b),
     bsb_sell_token_accounts = map (\<lambda>o1. ta_token_account (oi_sell (ii_intent o1))) (cbs_orders b),
     bsb_sell_mints = map initialized_intent_sell_mint (cbs_orders b),
     bsb_pulls = map ii_pulls (cbs_orders b)\<rparr>"

definition client_begin_settle :: "platform \<Rightarrow> ClientBeginSettle \<Rightarrow> instruction result" where
  "client_begin_settle P b = begin_settle_instruction P (client_begin_settle_builder P b)"

record FinalizedIntent =
  fi_intent :: OrderIntent
  fi_amount :: u64
  fi_use_transfer_checked :: bool

record OrderPush =
  op_source_buffer :: pubkey
  op_destination :: pubkey
  op_mint :: "pubkey option"
  op_bump :: u8
  op_amount :: u64

definition finalized_intent_push :: "platform \<Rightarrow> FinalizedIntent \<Rightarrow> pubkey \<Rightarrow> OrderPush" where
  "finalized_intent_push P o1 program_id =
     (let (source_buffer, bump, destination, mint) =
        (case oi_buy (fi_intent o1) of
           Native account \<Rightarrow>
             (let (buffer, bump) = find_native_sol_buffer_pda P program_id in (buffer, bump, account, None))
         | AssetToken token \<Rightarrow>
             (let (buffer, bump) = find_buffer_pda P program_id (ta_mint token);
                  mint = (if fi_use_transfer_checked o1 then Some (ta_mint token) else None) in
              (buffer, bump, ta_token_account token, mint))) in
      \<lparr>op_source_buffer = source_buffer, op_destination = destination, op_mint = mint, op_bump = bump,
       op_amount = fi_amount o1\<rparr>)"

text \<open>The interface builder that \<open>instruction_from_pushes\<close> fills in, and the instruction it becomes.\<close>

definition pushes_builder ::
  "platform \<Rightarrow> pubkey \<Rightarrow> u16 \<Rightarrow> TokenProgram option \<Rightarrow> OrderPush list \<Rightarrow> FinalizeSettle" where
  "pushes_builder P program_id begin_ix_index only_token_program pushes =
    \<lparr>fsb_program_id = program_id, fsb_state_pda = fst (find_state_pda P program_id),
     fsb_begin_ix_index = begin_ix_index, fsb_only_token_program = only_token_program,
     fsb_source_buffers = map op_source_buffer pushes, fsb_destinations = map op_destination pushes,
     fsb_mints = map op_mint pushes, fsb_bumps = map op_bump pushes, fsb_amounts = map op_amount pushes\<rparr>"

definition instruction_from_pushes ::
  "platform \<Rightarrow> pubkey \<Rightarrow> u16 \<Rightarrow> TokenProgram option \<Rightarrow> OrderPush list \<Rightarrow> instruction" where
  "instruction_from_pushes P program_id begin_ix_index only_token_program pushes =
     finalize_settle_instruction P (pushes_builder P program_id begin_ix_index only_token_program pushes)"

record ClientFinalizeSettle =
  cfs_program_id :: pubkey
  cfs_begin_ix_index :: u16
  cfs_only_token_program :: "TokenProgram option"
  cfs_orders :: "FinalizedIntent list"

text \<open>The orders are sorted by their address, as \<open>BeginSettle\<close> sorts its own (a stable sort).\<close>

definition client_finalize_settle :: "platform \<Rightarrow> ClientFinalizeSettle \<Rightarrow> instruction" where
  "client_finalize_settle P b =
     (let orders = sort_key (\<lambda>o1. client_order_address P (cfs_program_id b) (fi_intent o1)) (cfs_orders b);
          pushes = map (\<lambda>o1. finalized_intent_push P o1 (cfs_program_id b)) orders in
      instruction_from_pushes P (cfs_program_id b) (cfs_begin_ix_index b) (cfs_only_token_program b) pushes)"

section \<open>Snapshots and bytes determine each other\<close>

lemma decoded_order_try_from_encode:
  assumes wf: "wf_intent P (da_intent d)" and encode: "decoded_order_encode P d = Inr bs"
  shows "decoded_order_try_from P bs = Inr d"
proof -
  have init: "order_initialize (replicate ORDER_SIZE 0) (da_bump d) (da_cancelled d) (da_amount_withdrawn d)
      (da_amount_received d) (da_created_by d) (intent_encode P (da_intent d)) = Inr bs"
    using encode by (simp add: decoded_order_encode_def map_err_Inr_iff)
  note reads = order_initialize_reads [OF init length_intent_encode]
  have "intent_try_from P (order_intent_bytes bs) = Inr (da_intent d)"
    using wf reads(8) by (simp add: intent_try_from_encode)
  then show ?thesis
    using reads by (simp add: decoded_order_try_from_def)
qed

lemma decoded_order_encode_total: "\<exists>bs. decoded_order_encode P d = Inr bs \<and> length bs = ORDER_SIZE"
  by (simp add: decoded_order_encode_def order_initialize_def INTENT_SIZE_def ORDER_SIZE_def)

lemma order_bytes_concat:
  assumes "length bs = ORDER_SIZE"
  shows "bs = slice 0 1 bs @ slice 1 1 bs @ slice 2 1 bs @ slice 3 8 bs @ slice 11 8 bs @ slice 19 32 bs @ slice 51 213 bs"
  using assms drop_slice [of 0 1 bs] drop_slice [of 1 1 bs] drop_slice [of 2 1 bs] drop_slice [of 3 8 bs]
    drop_slice [of 11 8 bs] drop_slice [of 19 32 bs] drop_slice [of 51 213 bs]
  by (simp add: ORDER_SIZE_def numeral_2_eq_2 numeral_3_eq_3)

lemma decoded_order_encode_try_from:
  assumes "decoded_order_try_from P bs = Inr d"
  shows "decoded_order_encode P d = Inr bs"
proof -
  from assms have len: "length bs = ORDER_SIZE" and disc: "slice 0 1 bs = [ORDER_DISCRIMINATOR]"
    and cancelled: "order_cancelled bs = Inr (da_cancelled d)"
    and intent: "intent_try_from P (order_intent_bytes bs) = Inr (da_intent d)"
    and fields: "da_bump d = order_bump bs" "da_amount_withdrawn d = fa_withdrawn (order_filled_amounts bs)"
      "da_amount_received d = fa_received (order_filled_amounts bs)" "da_created_by d = order_created_by bs"
    by (auto simp: decoded_order_try_from_def result_simps)
  have "intent_encode P (da_intent d) = slice 51 213 bs"
    using intent_encode_try_from [OF _ intent] length_order_intent_bytes [OF len]
    by (simp add: order_intent_bytes_def order_slots_def)
  moreover have "slice 2 1 bs = [if da_cancelled d then 1 else 0]"
    using cancelled by (auto simp: order_cancelled_def order_slots_def Let_def numeral_eq_Suc split: if_splits)
  moreover have "slice 1 1 bs = [da_bump d]"
    using len fields(1) length_slice [of 1 1 bs]
    by (cases "slice 1 1 bs") (auto simp: order_bump_def order_slots_def ORDER_SIZE_def)
  moreover have "to_le 8 (da_amount_withdrawn d) = slice 3 8 bs" "to_le 8 (da_amount_received d) = slice 11 8 bs"
    "to_bytes (da_created_by d) = slice 19 32 bs"
    using len fields(2-4)
    by (simp_all add: order_filled_amounts_def order_created_by_def order_slots_def length_slice ORDER_SIZE_def
        to_le_from_le numeral_3_eq_3)
  ultimately show ?thesis
    using disc by (subst order_bytes_concat [OF len]) (simp add: decoded_order_encode_def order_initialize_def)
qed

section \<open>Sorting by the same key\<close>

lemma insort_key_map: "insort_key f (g x) (map g xs) = map g (insort_key (\<lambda>x. f (g x)) x xs)"
  by (induction xs) simp_all

lemma sort_key_map: "sort_key f (map g xs) = map g (sort_key (\<lambda>x. f (g x)) xs)"
  by (induction xs) (simp_all add: insort_key_map)

lemma insort_key_cong: "f x = g x \<Longrightarrow> (\<And>y. y \<in> set xs \<Longrightarrow> f y = g y) \<Longrightarrow> insort_key f x xs = insort_key g x xs"
  by (induction xs) simp_all

lemma sort_key_cong: "(\<And>x. x \<in> set xs \<Longrightarrow> f x = g x) \<Longrightarrow> sort_key f xs = sort_key g xs"
proof (induction xs)
  case (Cons x xs)
  then have "sort_key f xs = sort_key g xs" by simp
  with Cons.prems show ?case using insort_key_cong [of f x g "sort_key g xs"] by simp
qed simp

lemma begin_settle_order_sorts:
  assumes "bsb_order_pdas b = map f xs"
  shows "map (\<lambda>i. xs ! i) (begin_settle_order b) = sort_key f xs"
proof -
  have keys: "bsb_order_pdas b ! i = f (xs ! i)" if "i \<in> set [0..<length xs]" for i
    using that by (simp add: assms)
  have "map (\<lambda>i. xs ! i) (begin_settle_order b) = map (\<lambda>i. xs ! i) (sort_key (\<lambda>i. f (xs ! i)) [0..<length xs])"
    unfolding begin_settle_order_def
    using sort_key_cong [of "[0..<length xs]" "\<lambda>i. bsb_order_pdas b ! i" "\<lambda>i. f (xs ! i)", OF keys]
    by (simp add: assms)
  also have "\<dots> = sort_key f (map (\<lambda>i. xs ! i) [0..<length xs])"
    by (rule sort_key_map [symmetric])
  finally show ?thesis by (simp only: map_nth)
qed

section \<open>What the settlement builders carry\<close>

lemma begin_settle_input_iter:
  "begin_settle_wf b \<Longrightarrow>
    settled_orders_iter (bsi_orders (begin_settle_input P b)) = map Inr (begin_settle_orders P b)"
  using settled_orders_from_layout [OF begin_settle_orders_lengths(1)]
  by (simp add: settled_orders_iter_def begin_settle_input_def)

definition client_settled_order :: "platform \<Rightarrow> pubkey \<Rightarrow> InitializedIntent \<Rightarrow> pubkey SettledOrder" where
  "client_settled_order P program_id o1 =
    \<lparr>so_order_pda = client_order_address P program_id (ii_intent o1),
     so_sell_token_account = ta_token_account (oi_sell (ii_intent o1)),
     so_sell_mint = (case initialized_intent_sell_mint o1 of None \<Rightarrow> MINT_PLACEHOLDER P | Some mint \<Rightarrow> mint),
     so_destinations = map pl_destination (ii_pulls o1),
     so_amounts = map (\<lambda>pull. to_le 8 (pl_amount pull)) (ii_pulls o1)\<rparr>"

lemma client_begin_settle_orders:
  "begin_settle_orders P (client_begin_settle_builder P b) =
    map (client_settled_order P (cbs_program_id b))
      (sort_key (\<lambda>o1. client_order_address P (cbs_program_id b) (ii_intent o1)) (cbs_orders b))"
proof -
  let ?b = "client_begin_settle_builder P b" and ?xs = "cbs_orders b"
  have "begin_settle_orders P ?b = map (\<lambda>i. client_settled_order P (cbs_program_id b) (?xs ! i)) (begin_settle_order ?b)"
    unfolding begin_settle_orders_def
    by (rule map_cong [OF refl]) (simp add: client_begin_settle_builder_def client_settled_order_def)
  also have "\<dots> = map (client_settled_order P (cbs_program_id b)) (map (\<lambda>i. ?xs ! i) (begin_settle_order ?b))"
    by simp
  also have "map (\<lambda>i. ?xs ! i) (begin_settle_order ?b) =
      sort_key (\<lambda>o1. client_order_address P (cbs_program_id b) (ii_intent o1)) ?xs"
    by (rule begin_settle_order_sorts) (simp add: client_begin_settle_builder_def)
  finally show ?thesis .
qed

lemma client_begin_settle_wf:
  assumes "length (cbs_orders b) < 256" and "\<forall>o1 \<in> set (cbs_orders b). length (ii_pulls o1) < 256"
  shows "begin_settle_wf (client_begin_settle_builder P b)"
  using assms by (simp add: begin_settle_wf_def client_begin_settle_builder_def)

lemma pushes_builder_wf: "finalize_settle_wf (pushes_builder P program_id i only pushes)"
  by (simp add: finalize_settle_wf_def pushes_builder_def)

lemma pushes_builder_iter:
  "pushes_iter (fsi_pushes (finalize_settle_input P (pushes_builder P program_id i only pushes))) =
    map (\<lambda>push. \<lparr>pu_source_buffer = op_source_buffer push, pu_destination = op_destination push,
      pu_mint = (case op_mint push of None \<Rightarrow> MINT_PLACEHOLDER P | Some mint \<Rightarrow> mint),
      pu_bump = op_bump push, pu_amount = op_amount push\<rparr>) pushes"
  by (induction pushes) (simp_all add: pushes_iter_def finalize_settle_input_def pushes_builder_def)

section \<open>Properties\<close>

text \<open>
  Decoding the bytes of an order account and encoding a snapshot are inverse to each
  other: a snapshot whose intent is well formed survives encoding and decoding, and bytes that
  decode are exactly those their snapshot encodes to.
\<close>

theorem order_snapshot_roundtrip:
  "(wf_intent P (da_intent d) \<longrightarrow> bindE (decoded_order_encode P d) (decoded_order_try_from P) = Inr d) \<and>
   (decoded_order_try_from P bs = Inr d \<longrightarrow> decoded_order_encode P d = Inr bs)"
proof (intro conjI impI)
  assume wf: "wf_intent P (da_intent d)"
  obtain bs' where "decoded_order_encode P d = Inr bs'" using decoded_order_encode_total by blast
  then show "bindE (decoded_order_encode P d) (decoded_order_try_from P) = Inr d"
    using decoded_order_try_from_encode [OF wf] by simp
qed (rule decoded_order_encode_try_from)

text \<open>
  C36: the client's parser for any instruction and the program's own parsers agree: an
  instruction parses to one of the thirteen variants exactly when the program's handler for that
  variant would parse it to the same input.
\<close>

theorem parse_instruction_agrees_with_program:
  "parse_instruction data accounts = Inr p \<longleftrightarrow>
    (case p of
       ParsedInitialize i \<Rightarrow> instruction_parse Initialize initialize_parse_body data accounts = Inr i
     | ParsedCreateOrder i \<Rightarrow> instruction_parse CreateOrder create_order_parse_body data accounts = Inr i
     | ParsedCancelOrder i \<Rightarrow> instruction_parse CancelOrder cancel_order_parse_body data accounts = Inr i
     | ParsedCreateSettlementOwnedOrder i \<Rightarrow>
         instruction_parse CreateSettlementOwnedOrder create_settlement_owned_order_parse_body data accounts = Inr i
     | ParsedCreateBuffer i \<Rightarrow> instruction_parse CreateBuffer create_buffer_parse_body data accounts = Inr i
     | ParsedBeginSettle i \<Rightarrow> instruction_parse BeginSettle begin_settle_parse_body data accounts = Inr i
     | ParsedFinalizeSettle i \<Rightarrow> instruction_parse FinalizeSettle finalize_settle_parse_body data accounts = Inr i
     | ParsedReclaimOrder i \<Rightarrow> instruction_parse ReclaimOrder reclaim_order_parse_body data accounts = Inr i
     | ParsedReclaimBuffer i \<Rightarrow> instruction_parse ReclaimBuffer reclaim_buffer_parse_body data accounts = Inr i
     | ParsedTransferAuthority i \<Rightarrow>
         instruction_parse TransferAuthority transfer_authority_parse_body data accounts = Inr i
     | ParsedAddSolver i \<Rightarrow> instruction_parse AddSolver add_solver_parse_body data accounts = Inr i
     | ParsedRemoveSolver i \<Rightarrow> instruction_parse RemoveSolver remove_solver_parse_body data accounts = Inr i
     | ParsedWithdrawNativeSol i \<Rightarrow>
         instruction_parse WithdrawNativeSol withdraw_native_sol_parse_body data accounts = Inr i)"
proof (cases "recover_discriminator data")
  case (Inr r)
  obtain discriminator rest where r: "r = (discriminator, rest)" by (cases r)
  show ?thesis
    by (cases discriminator; cases p)
      (auto simp: parse_instruction_def instruction_parse_def Inr r bindE_Inr_iff)
qed (simp add: parse_instruction_def instruction_parse_def split: ParsedInstruction.split)

text \<open>
  C37: when a client builds \<open>BeginSettle\<close> and \<open>FinalizeSettle\<close> from the same intents, in
  whatever order, the program parses both back and finds the k-th settled order and the k-th push
  to belong to the same intent: the orders are sorted by address, and each push is the one of its
  intent.
\<close>

theorem client_settlement_lists_align:
  assumes "length (cbs_orders b) < 256" and "\<forall>o1 \<in> set (cbs_orders b). length (ii_pulls o1) < 256"
    and "cfs_program_id f = cbs_program_id b" and "map fi_intent (cfs_orders f) = map ii_intent (cbs_orders b)"
    and "client_begin_settle P b = Inr begin_ix"
  shows "\<exists>begin_input finalize_input orders.
    instruction_parse BeginSettle begin_settle_parse_body (ix_data begin_ix) (instruction_addresses begin_ix) = Inr begin_input \<and>
    instruction_parse FinalizeSettle finalize_settle_parse_body (ix_data (client_finalize_settle P f))
      (instruction_addresses (client_finalize_settle P f)) = Inr finalize_input \<and>
    settled_orders_iter (bsi_orders begin_input) = map Inr orders \<and>
    (let intents = sort_key (client_order_address P (cbs_program_id b)) (map ii_intent (cbs_orders b)) in
     map so_order_pda orders = map (client_order_address P (cbs_program_id b)) intents \<and>
     map so_sell_token_account orders = map (\<lambda>i. ta_token_account (oi_sell i)) intents \<and>
     map pu_destination (pushes_iter (fsi_pushes finalize_input)) = map (\<lambda>i. snd (asset_encode P (oi_buy i))) intents)"
proof -
  let ?b = "client_begin_settle_builder P b" and ?key = "client_order_address P (cbs_program_id b)"
  let ?orders = "sort_key (\<lambda>o1. ?key (ii_intent o1)) (cbs_orders b)"
  let ?pushes = "map (\<lambda>o1. finalized_intent_push P o1 (cbs_program_id b)) (sort_key (\<lambda>o1. ?key (fi_intent o1)) (cfs_orders f))"
  let ?f = "pushes_builder P (cbs_program_id b) (cfs_begin_ix_index f) (cfs_only_token_program f) ?pushes"
  have begin_ix: "begin_ix = begin_settle_layout P ?b"
    using assms(5) by (auto simp: client_begin_settle_def begin_settle_instruction_def result_simps)
  have finalize: "client_finalize_settle P f = finalize_settle_instruction P ?f"
    by (simp add: client_finalize_settle_def instruction_from_pushes_def assms(3))
  note wf = client_begin_settle_wf [OF assms(1,2), of P]
  have intents: "map ii_intent ?orders = sort_key ?key (map ii_intent (cbs_orders b))"
    "map fi_intent (sort_key (\<lambda>o1. ?key (fi_intent o1)) (cfs_orders f)) = sort_key ?key (map ii_intent (cbs_orders b))"
    by (simp only: sort_key_map) (simp only: assms(4) [symmetric] sort_key_map)
  have destination: "op_destination (finalized_intent_push P o1 prog) = snd (asset_encode P (oi_buy (fi_intent o1)))" for o1 prog
    by (cases "oi_buy (fi_intent o1)") (simp_all add: finalized_intent_push_def Let_def case_prod_beta)
  have "map pu_destination (pushes_iter (fsi_pushes (finalize_settle_input P ?f))) =
      map (\<lambda>i. snd (asset_encode P (oi_buy i))) (map fi_intent (sort_key (\<lambda>o1. ?key (fi_intent o1)) (cfs_orders f)))"
    by (simp add: pushes_builder_iter comp_def destination)
  moreover have "map so_order_pda (begin_settle_orders P ?b) = map ?key (map ii_intent ?orders)"
    "map so_sell_token_account (begin_settle_orders P ?b) = map (\<lambda>i. ta_token_account (oi_sell i)) (map ii_intent ?orders)"
    by (simp_all add: client_begin_settle_orders client_settled_order_def comp_def)
  ultimately show ?thesis
    unfolding begin_ix finalize intents Let_def
    by (intro exI [of _ "begin_settle_input P ?b"] exI [of _ "finalize_settle_input P ?f"]
        exI [of _ "begin_settle_orders P ?b"])
      (simp add: begin_settle_codec.parse_build [OF wf] finalize_settle_codec.parse_build [OF pushes_builder_wf]
        begin_settle_input_iter [OF wf])
qed

text \<open>
  The push a client builds for a well-formed intent names the intent's buy account
  as destination and a source that \<open>BeginSettle\<close> accepts as the canonical buffer of the buy mint.
\<close>

theorem client_push_accepted:
  assumes "derive_agrees P" and "find_agrees P" and "KNOWN_BUFFER_MULTIPLIER P = Inr m"
    and "wf_intent P (fi_intent o1)"
  shows "let push = finalized_intent_push P o1 (program_ID P); intent = intent_encode P (fi_intent o1) in
    op_destination push = ia_buy_token_account intent \<and> op_amount push = fi_amount o1 \<and>
    validate_buffer_pda P (op_source_buffer push) (ia_buy_mint intent) (op_bump push) = Inr ()"
proof -
  have decode: "intent_try_from P (intent_encode P (fi_intent o1)) = Inr (fi_intent o1)"
    using assms(4) by (rule intent_try_from_encode)
  have buy: "(ia_buy_mint (intent_encode P (fi_intent o1)), ia_buy_token_account (intent_encode P (fi_intent o1))) =
      asset_encode P (oi_buy (fi_intent o1))"
    by (rule accessor_agrees(4) [OF decode])
  show ?thesis
  proof (cases "oi_buy (fi_intent o1)")
    case (Native account)
    obtain known where known: "find (\<lambda>k. kb_mint k = ENCODED_NATIVE_SOL_TRANSFER P) (KNOWN_BUFFERS P) = Some known"
      using native_marker_known [of P] by blast
    have "kb_address known = fst (find_native_sol_buffer_pda P (program_ID P))"
      using known_buffers_canonical [OF assms(1,3) known] assms(1)
      by (simp add: canonical_buffer_def NATIVE_SOL_BUFFER_PDA_def NATIVE_SOL_BUFFER_PDA_AND_BUMP_def
          find_native_sol_buffer_pda_def derive_agrees_def)
    then show ?thesis
      using buy Native known
      by (simp add: finalized_intent_push_def Let_def case_prod_beta validate_buffer_pda_Inr_iff [OF assms(3)])
  next
    case (AssetToken token)
    then have mint: "ta_mint token \<noteq> ENCODED_NATIVE_SOL_TRANSFER P"
      using assms(4) by (simp add: wf_intent_def)
    show ?thesis
      using buy AssetToken validate_buffer_pda_canonical [OF assms(1-3) refl, of "fst (find_buffer_pda P (program_ID P) (ta_mint token))" "ta_mint token"] mint
      by (simp add: finalized_intent_push_def Let_def case_prod_beta canonical_buffer_def)
  qed
qed

end
