(* ===== verification/Scenario.thy ===== *)
theory Scenario
  imports Processor Client "HOL-Library.Char_ord"
begin

text \<open>
  A concrete deployment, run end to end: a small platform that follows the runtime's rules, a
  deployment initialised on it, one solver added, one order created, settled and paid out. The
  properties of the other theories are applied to the steps of this run, which shows that their
  hypotheses hold together. Addresses are 32 equal bytes; addresses derived from a hash or a mint
  are that byte plus 100.
\<close>

section \<open>A platform\<close>

abbreviation addr :: "u8 \<Rightarrow> pubkey" where "addr b \<equiv> fill32 b"

abbreviation program :: pubkey where "program \<equiv> addr 101"
abbreviation system_program :: pubkey where "system_program \<equiv> addr 200"
abbreviation spl_token :: pubkey where "spl_token \<equiv> addr 201"

fun toy_address :: "bytes list \<Rightarrow> pubkey" where
  "toy_address [_] = addr 102"
| "toy_address [_, _] = addr 103"
| "toy_address (_ # k # _) = addr (hd k + 100)"
| "toy_address [] = addr 104"

lemma hd_addr [simp]: "hd (to_bytes (addr b)) = b"
  by simp

definition toy_find :: "bytes list \<Rightarrow> pubkey \<Rightarrow> pubkey \<times> u8" where
  "toy_find seeds prog = (toy_address seeds, 255)"

definition toy_create :: "bytes list \<Rightarrow> pubkey \<Rightarrow> pubkey option" where
  "toy_create seeds prog = (if last seeds = [255] then Some (toy_address (butlast seeds)) else None)"

text \<open>The i-th known mint decodes to the address of byte i; the slot multiplier keeps the low bits.\<close>

definition toy_decode :: "string \<Rightarrow> pubkey" where
  "toy_decode s = addr (of_nat (length (takeWhile (\<lambda>t. t \<noteq> s) KNOWN_MINTS)))"

definition toy_multiplier :: u64 where
  "toy_multiplier = 2 ^ 55"

definition toy_token_account :: "account \<Rightarrow> (pubkey \<times> pubkey \<times> u64) result" where
  "toy_token_account a =
     (if length (acc_data a) = 72
      then Inr (new_from_array (slice 0 32 (acc_data a)), new_from_array (slice 32 32 (acc_data a)),
        from_le (slice 64 8 (acc_data a)))
      else Inl InvalidAccountData)"

text \<open>
  A transfer moves tokens between two accounts of the token program that hold the same mint and are
  not borrowed, if the balance allows it.
\<close>

definition toy_transfer :: "pubkey list \<Rightarrow> pubkey \<Rightarrow> pubkey \<Rightarrow> u64 \<Rightarrow> accounts \<Rightarrow> accounts result" where
  "toy_transfer borrowed from to amount accs =
     (let source = acc_data (accs from); dest = acc_data (accs to); debited = from_le (slice 64 8 source) - amount;
          credited = from_le (slice 64 8 dest) + amount in
      if {from, to} \<inter> set borrowed = {} \<and> from \<noteq> to \<and> acc_owner (accs from) = spl_token \<and> acc_owner (accs to) = spl_token \<and>
         length source = 72 \<and> length dest = 72 \<and> take 32 source = take 32 dest \<and>
         amount \<le> from_le (slice 64 8 source) \<and> amount \<le> credited
      then Inr (accs(from := (accs from)\<lparr>acc_data := take 64 source @ to_le 8 debited\<rparr>,
                     to := (accs to)\<lparr>acc_data := take 64 dest @ to_le 8 credited\<rparr>))
      else Inl InvalidAccountData)"

text \<open>
  Account creation works on empty system accounts that sign, or that the program signs for with the
  seeds they derive from; the other invocations change nothing.
\<close>

fun toy_invoke :: "pubkey list \<Rightarrow> cpi \<Rightarrow> accounts \<Rightarrow> accounts result" where
  "toy_invoke borrowed (CreateAccountAllowPrefund payer v n owner signers) accs =
     (if acc_owner (view_account accs v) = system_program \<and> acc_data (view_account accs v) = [] \<and>
         av_address v \<notin> set borrowed \<and>
         (av_is_signer v \<or> Some (av_address v) \<in> set (map (\<lambda>seeds. toy_create seeds program) signers))
      then Inr (accs(av_address v := \<lparr>acc_owner = owner, acc_lamports = 10, acc_data = replicate (unat n) 0\<rparr>))
      else Inl AccountAlreadyInitialized)"
| "toy_invoke borrowed (TokenTransfer _ from to _ amount _) accs =
     toy_transfer borrowed (av_address from) (av_address to) amount accs"
| "toy_invoke borrowed (TokenTransferChecked _ from _ to _ amount _ _) accs =
     toy_transfer borrowed (av_address from) (av_address to) amount accs"
| "toy_invoke borrowed c accs = Inr accs"

definition toy_resize :: "account \<Rightarrow> nat \<Rightarrow> account result" where
  "toy_resize a n =
     (if n \<le> MAX_PERMITTED_DATA_LENGTH
      then Inr (a\<lparr>acc_data := take n (acc_data a @ replicate (n - length (acc_data a)) 0)\<rparr>)
      else Inl InvalidRealloc)"

text \<open>The platform while instruction \<open>i\<close> of the transaction \<open>ixs\<close> runs at time \<open>now\<close>.\<close>

definition toy_at :: "int \<Rightarrow> instruction list \<Rightarrow> u16 \<Rightarrow> platform" where
  "toy_at now ixs i =
    \<lparr>pf_build_program_id = Some program, pf_feature_barn = False,
     pf_system_program_id = system_program, pf_instructions_sysvar_id = addr 203,
     pf_spl_token_id = spl_token, pf_token_2022_id = addr 202,
     pf_sha256 = (\<lambda>bs. addr (hd bs)), pf_create_program_address = toy_create,
     pf_find_program_address = toy_find, pf_derive_program_address = toy_find,
     pf_const_sha256 = (\<lambda>_. new_from_array (to_le 8 toy_multiplier @ replicate 24 0)),
     pf_decode_pubkey = toy_decode, pf_stack_height = 1, pf_clock = Inr now,
     pf_rent_minimum = (\<lambda>_. Inr 10), pf_instructions = ixs, pf_current_index = i,
     pf_spl_account = toy_token_account, pf_token_2022_account = toy_token_account,
     pf_spl_mint_decimals = (\<lambda>_. Inr 6), pf_token_2022_mint_decimals = (\<lambda>_. Inr 6),
     pf_invoke = toy_invoke, pf_return_data = (\<lambda>_ _. None), pf_resize = toy_resize,
     pf_close = (\<lambda>_. Inr \<lparr>acc_owner = system_program, acc_lamports = 0, acc_data = []\<rparr>)\<rparr>"

abbreviation toy :: platform where "toy \<equiv> toy_at 100 [] 0"

lemma toy_frame:
  assumes "toy_invoke borrowed c accs = Inr accs'" and "prog \<noteq> system_program" and "prog \<noteq> spl_token"
  shows "owned_frame prog accs accs'" and "a \<in> set borrowed \<Longrightarrow> accs' a = accs a"
  using assms by (cases c; auto simp: owned_frame_def zeroed_def toy_transfer_def Let_def split: if_splits)+

lemma toy_rules: "prog \<noteq> system_program \<Longrightarrow> prog \<noteq> spl_token \<Longrightarrow> runtime_rules (toy_at now ixs i) prog"
  using toy_frame
  by (auto simp: runtime_rules_def invoke_frame_def create_account_spec_def resize_spec_def close_spec_def
      toy_at_def toy_resize_def split: if_splits)

lemma toy_program_rules [simp]: "runtime_rules (toy_at now ixs i) program"
  by (rule toy_rules) simp_all

lemma toy_program_frame [simp]: "invoke_frame (toy_at now ixs i) program"
  using toy_program_rules by (simp add: runtime_rules_def)

lemma toy_agrees [simp]: "find_agrees (toy_at now ixs i)" "derive_agrees (toy_at now ixs i)"
  by (simp_all add: find_agrees_def derive_agrees_def toy_at_def toy_create_def toy_find_def)

lemma toy_signer_rule [simp]: "create_signer_rule (toy_at now ixs i) program"
  by (auto simp: create_signer_rule_def toy_at_def split: if_splits)

lemma toy_ID [simp]: "program_ID (toy_at now ixs i) = program"
  by (simp add: program_ID_def toy_at_def)

lemma toy_STATE_PDA [simp]: "STATE_PDA (toy_at now ixs i) = addr 102"
  by (simp add: STATE_PDA_def STATE_PDA_AND_BUMP_def STATE_PDA_SEEDS_def toy_at_def toy_find_def)

lemma toy_NATIVE [simp]: "NATIVE_SOL_BUFFER_PDA (toy_at now ixs i) = addr 103"
  by (simp add: NATIVE_SOL_BUFFER_PDA_def NATIVE_SOL_BUFFER_PDA_AND_BUMP_def NATIVE_SOL_BUFFER_PDA_SEEDS_def
      toy_at_def toy_find_def)

lemma toy_order_address [simp]:
  "pf_find_program_address (toy_at now ixs i) (order_pda_seeds (addr b)) prog = (addr (b + 100), 255)"
  "pf_create_program_address (toy_at now ixs i) (order_pda_seeds (addr b) @ [[255]]) prog = Some (addr (b + 100))"
  by (simp_all add: order_pda_seeds_def toy_at_def toy_find_def toy_create_def)

lemma toy_buffer_address [simp]:
  "find_buffer_pda (toy_at now ixs i) prog (addr b) = (addr (b + 100), 255)"
  "pf_create_program_address (toy_at now ixs i) (buffer_pda_seeds (addr b) @ [[255]]) prog = Some (addr (b + 100))"
  by (simp_all add: find_buffer_pda_def buffer_pda_seeds_def toy_at_def toy_find_def toy_create_def)

section \<open>Its known buffers\<close>

lemma distinct_KNOWN_MINTS: "distinct KNOWN_MINTS"
proof -
  have "successively (<) KNOWN_MINTS"
    by (simp add: KNOWN_MINTS_def less_char_def)
  then have "sorted_wrt (<) KNOWN_MINTS"
    by (simp add: successively_conv_sorted_wrt)
  then show ?thesis
    by (simp add: strict_sorted_iff)
qed

lemma length_KNOWN_MINTS: "length KNOWN_MINTS = 63"
  by (simp add: KNOWN_MINTS_def)

lemma positions_distinct:
  "distinct xs \<Longrightarrow> map (\<lambda>s. length (takeWhile (\<lambda>t. t \<noteq> s) xs)) xs = [0..<length xs]"
proof (rule nth_equalityI)
  fix i assume "distinct xs" and "i < length (map (\<lambda>s. length (takeWhile (\<lambda>t. t \<noteq> s) xs)) xs)"
  then have "takeWhile (\<lambda>t. t \<noteq> xs ! i) xs = take i xs"
    by (intro takeWhile_eq_take_P_nth) (auto simp: nth_eq_iff_index_eq)
  with \<open>i < _\<close> show "map (\<lambda>s. length (takeWhile (\<lambda>t. t \<noteq> s) xs)) xs ! i = [0..<length xs] ! i" by simp
qed simp

lemma toy_known_mints:
  "map kb_mint (KNOWN_BUFFERS (toy_at now ixs i)) = map (\<lambda>k. addr (of_nat k)) [0..<63] @ [system_program]"
proof -
  have "map toy_decode KNOWN_MINTS = map (\<lambda>k. addr (of_nat k)) (map (\<lambda>s. length (takeWhile (\<lambda>t. t \<noteq> s) KNOWN_MINTS)) KNOWN_MINTS)"
    by (simp add: toy_decode_def comp_def)
  also have "\<dots> = map (\<lambda>k. addr (of_nat k)) [0..<63]"
    unfolding positions_distinct [OF distinct_KNOWN_MINTS] length_KNOWN_MINTS ..
  finally show ?thesis
    by (simp add: KNOWN_BUFFERS_def Let_def comp_def toy_at_def ENCODED_NATIVE_SOL_TRANSFER_def)
qed

lemma toy_slot_byte: "slot (addr b) toy_multiplier mod 256 = unat b"
proof -
  define key :: u64 where "key = from_le (slice 0 8 (to_bytes (addr b)))"
  have key: "unat key = le_nat (replicate 8 b)"
    using le_nat_less [of "replicate 8 b"]
    by (simp add: key_def from_le_def slice_def unsigned_of_nat take_bit_nat_eq_self)
  have "unat (key * 2 ^ 55) = unat key * 2 ^ 55 mod (2 ^ 9 * 2 ^ 55)"
    by (simp add: unat_word_ariths)
  also have "\<dots> = (unat key mod 2 ^ 9) * 2 ^ 55"
    by (rule mult_mod_left [symmetric])
  finally have "unat (drop_bit 55 (key * 2 ^ 55)) = unat key mod 2 ^ 9"
    by (simp add: drop_bit_eq_div unat_div)
  then have "slot (addr b) toy_multiplier = unat key mod 2 ^ 9"
    unfolding slot_def Let_def key_def SLOT_BITS_def toy_multiplier_def by simp
  also have "\<dots> mod 256 = unat key mod 256"
    by (simp add: mod_mod_cancel)
  also have "\<dots> = unat b"
  proof -
    have "replicate 8 b = b # replicate 7 b" by (simp flip: replicate_Suc)
    then show ?thesis using unat_u8_lt [of b] unfolding key by simp
  qed
  finally show ?thesis .
qed

lemma toy_slots:
  "distinct (map (\<lambda>mint. slot mint toy_multiplier) (map (\<lambda>k. addr (of_nat k)) [0..<63] @ [system_program]))"
proof -
  let ?mints = "map (\<lambda>k. addr (of_nat k)) [0..<63] @ [system_program]"
  have "map (\<lambda>s. s mod 256) (map (\<lambda>mint. slot mint toy_multiplier) ?mints) =
      map (\<lambda>k. unat (of_nat k :: u8)) [0..<63] @ [200]"
    by (simp only: map_map comp_def map_append list.map toy_slot_byte) simp
  also have "\<dots> = [0..<63] @ [200]"
    by (simp only: append_same_eq, rule map_idI) simp
  finally have "distinct (map (\<lambda>s. s mod 256) (map (\<lambda>mint. slot mint toy_multiplier) ?mints))"
    by simp
  then show ?thesis by (simp only: distinct_map)
qed

lemma toy_multiplier_eq: "KNOWN_BUFFER_MULTIPLIER (toy_at now ixs i) = Inr toy_multiplier"
proof -
  have multiplier: "slot_multiplier_of (toy_at now ixs i) 0 = toy_multiplier"
    by (simp add: slot_multiplier_of_def toy_at_def layout_simps)
  have "has_distinct_slots (KNOWN_BUFFERS (toy_at now ixs i)) toy_multiplier"
  proof -
    have "map (\<lambda>b. slot (kb_mint b) toy_multiplier) (KNOWN_BUFFERS (toy_at now ixs i)) =
        map (\<lambda>mint. slot mint toy_multiplier) (map kb_mint (KNOWN_BUFFERS (toy_at now ixs i)))"
      by (simp only: map_map comp_def)
    then show ?thesis
      unfolding has_distinct_slots_iff toy_known_mints using toy_slots by (simp only:)
  qed
  then show ?thesis
    by (simp add: KNOWN_BUFFER_MULTIPLIER_def find_slot_multiplier_def slot_multiplier_from.simps [of _ _ 0]
        multiplier SLOT_ATTEMPTS_def)
qed

text \<open>A mint that is none of the known ones has its derived buffer.\<close>

lemma toy_unknown_mint:
  assumes "63 \<le> unat b" and "b \<noteq> 200"
  shows "validate_buffer_pda (toy_at now ixs i) (addr (b + 100)) (addr b) 255 = Inr ()"
proof -
  have "addr b \<notin> set (map kb_mint (KNOWN_BUFFERS (toy_at now ixs i)))"
    unfolding toy_known_mints using assms by (auto simp: unsigned_of_nat take_bit_nat_eq_self)
  then have "find (\<lambda>k. kb_mint k = addr b) (KNOWN_BUFFERS (toy_at now ixs i)) = None"
    by (auto simp: find_None_iff image_iff dest: sym)
  then show ?thesis by (simp add: validate_buffer_pda_Inr_iff [OF toy_multiplier_eq])
qed

end
