(* ===== verification/Run.thy ===== *)
theory Run
  imports Scenario
begin

text \<open>
  The run itself: the accounts after \<open>Initialize\<close>, \<open>AddSolver\<close> and \<open>CreateOrder\<close>, that each
  instruction produces the next ones, and the other instructions that start from them.
\<close>

section \<open>The actors\<close>

abbreviation signing :: "pubkey \<Rightarrow> account_view" where
  "signing a \<equiv> \<lparr>av_address = a, av_is_signer = True, av_is_writable = True\<rparr>"

abbreviation plain :: "pubkey \<Rightarrow> account_view" where
  "plain a \<equiv> \<lparr>av_address = a, av_is_signer = False, av_is_writable = True\<rparr>"

abbreviation state_pda :: pubkey where "state_pda \<equiv> addr 102"
abbreviation native_buffer :: pubkey where "native_buffer \<equiv> addr 103"
abbreviation solver :: pubkey where "solver \<equiv> addr 150"
abbreviation trader :: pubkey where "trader \<equiv> addr 70"
abbreviation order_pda :: pubkey where "order_pda \<equiv> addr 170"
abbreviation sell_account :: pubkey where "sell_account \<equiv> addr 80"
abbreviation buy_account :: pubkey where "buy_account \<equiv> addr 81"
abbreviation pull_account :: pubkey where "pull_account \<equiv> addr 82"
abbreviation sell_mint :: pubkey where "sell_mint \<equiv> addr 90"
abbreviation buy_mint :: pubkey where "buy_mint \<equiv> addr 91"
abbreviation buy_buffer :: pubkey where "buy_buffer \<equiv> addr 191"

section \<open>Before the program runs\<close>

text \<open>Token accounts exist; every other account is an empty system account.\<close>

definition token_data :: "pubkey \<Rightarrow> pubkey \<Rightarrow> u64 \<Rightarrow> bytes" where
  "token_data mint owner amount = to_bytes mint @ to_bytes owner @ to_le 8 amount"

definition chain0 :: accounts where
  "chain0 = (\<lambda>a. \<lparr>acc_owner = system_program, acc_lamports = 0, acc_data = []\<rparr>)
     (sell_account := \<lparr>acc_owner = spl_token, acc_lamports = 5, acc_data = token_data sell_mint trader 1000\<rparr>,
      buy_account := \<lparr>acc_owner = spl_token, acc_lamports = 5, acc_data = token_data buy_mint trader 0\<rparr>,
      buy_buffer := \<lparr>acc_owner = spl_token, acc_lamports = 5, acc_data = token_data buy_mint state_pda 70\<rparr>,
      pull_account := \<lparr>acc_owner = spl_token, acc_lamports = 5, acc_data = token_data sell_mint state_pda 0\<rparr>,
      buy_mint := \<lparr>acc_owner = spl_token, acc_lamports = 5, acc_data = [1]\<rparr>)"

lemma toy_token_account_data:
  "acc_data a = token_data mint owner amount \<Longrightarrow> toy_token_account a = Inr (mint, owner, amount)"
  by (simp add: toy_token_account_def token_data_def layout_simps)

text \<open>What a transfer leaves in the two accounts.\<close>

lemma toy_transfers:
  assumes "accs from = \<lparr>acc_owner = spl_token, acc_lamports = l1, acc_data = token_data mint o1 x\<rparr>"
    and "accs to = \<lparr>acc_owner = spl_token, acc_lamports = l2, acc_data = token_data mint o2 y\<rparr>"
    and "from \<noteq> to" and "{from, to} \<inter> set borrowed = {}" and "amount \<le> x" and "amount \<le> y + amount"
  shows "toy_transfer borrowed from to amount accs = Inr (accs
    (from := \<lparr>acc_owner = spl_token, acc_lamports = l1, acc_data = token_data mint o1 (x - amount)\<rparr>,
     to := \<lparr>acc_owner = spl_token, acc_lamports = l2, acc_data = token_data mint o2 (y + amount)\<rparr>))"
  using assms by (simp add: toy_transfer_def token_data_def layout_simps)

text \<open>Creating an account that does not exist yet.\<close>

lemma toy_creates:
  assumes "acc_owner (view_account accs (cp_pda c)) = system_program" "acc_data (view_account accs (cp_pda c)) = []"
    and "cp_owner c \<noteq> system_program" and "toy_address (cp_seeds c) = av_address (cp_pda c)"
  shows "create_new (toy_at now ixs i) c accs = Inr (255, accs(av_address (cp_pda c) :=
    \<lparr>acc_owner = cp_owner c, acc_lamports = 10, acc_data = replicate (unat (cp_size c)) 0\<rparr>))"
  using assms by (auto simp: create_new_def create_idempotent_def toy_at_def toy_find_def toy_create_def Let_def)

lemma parse_Cons [simp]:
  "instruction_parse own parse_body (ix_discriminator own # rest) accounts = parse_body rest accounts"
  by (simp add: instruction_parse_def)

section \<open>Initialize\<close>

definition header :: bytes where
  "header = [STATE_DISCRIMINATOR] @ to_bytes (addr 10) @ to_bytes (addr 11) @ to_bytes (addr 12) @ to_bytes (addr 13)"

definition chain1 :: accounts where
  "chain1 = chain0(
      state_pda := \<lparr>acc_owner = program, acc_lamports = 10, acc_data = header\<rparr>,
      native_buffer := \<lparr>acc_owner = program, acc_lamports = 10, acc_data = []\<rparr>)"

abbreviation initialize_views :: "account_view list" where
  "initialize_views \<equiv> [signing INITIALIZER, plain state_pda, plain native_buffer, plain system_program]"

abbreviation initialize_data :: bytes where
  "initialize_data \<equiv> ix_discriminator Initialize # to_bytes (addr 10) @ to_bytes (addr 11) @ to_bytes (addr 12) @
     to_bytes (addr 13)"

lemma length_header [simp]: "length header = WIDTH_HEADER"
  by (simp add: header_def WIDTH_HEADER_def)

lemma run_initialize: "process_initialize toy program initialize_views initialize_data chain0 = Inr chain1"
proof -
  have parse: "initialize_parse_body (to_bytes (addr 10) @ to_bytes (addr 11) @ to_bytes (addr 12) @ to_bytes (addr 13))
      initialize_views = Inr \<lparr>ini_payer = signing INITIALIZER, ini_state_pda = plain state_pda,
        ini_native_sol_buffer = plain native_buffer, ini_manager = addr 10, ini_solver_authority = addr 11,
        ini_reclaim_authority = addr 12, ini_settlement_owned_order_authority = addr 13\<rparr>"
    by (simp add: initialize_parse_body_def layout_simps del: to_bytes_fill32)
  show ?thesis
    unfolding process_initialize_def parse_Cons parse
    by (simp add: toy_creates STATE_PDA_SEEDS_def NATIVE_SOL_BUFFER_PDA_SEEDS_def validate_is_state_pda_def
        STATE_PDA_def [symmetric] chain0_def chain1_def
        state_initialize_def header_def WIDTH_HEADER_def set_data_def fun_upd_twist splice_def fun_eq_iff
        del: to_bytes_fill32)
qed

text \<open>What the state account holds.\<close>

lemma header_reads:
  "state_wf header" "state_solvers header = []" "state_authority header Manager = addr 10"
  "state_authority header SolverAuthority = addr 11" "state_authority header ReclaimAuthority = addr 12"
  "state_authority header SettlementOwnedOrderAuthority = addr 13"
proof -
  let ?args = "\<lparr>sia_manager = addr 10, sia_solver_authority = addr 11, sia_reclaim_authority = addr 12,
    sia_settlement_owned_order_authority = addr 13\<rparr>"
  have init: "state_initialize (replicate WIDTH_HEADER 0) ?args = Inr header"
    by (simp add: state_initialize_def header_def splice_def WIDTH_HEADER_def del: to_bytes_fill32)
  obtain d where "state_initialize (replicate WIDTH_HEADER 0) ?args = Inr d" and "state_wf d"
    and "state_solvers d = []" and "\<forall>r. state_authority d r = init_holder ?args r"
    using state_initialize_reads [of "replicate WIDTH_HEADER 0" ?args] by auto
  with init show "state_wf header" "state_solvers header = []" "state_authority header Manager = addr 10"
    "state_authority header SolverAuthority = addr 11" "state_authority header ReclaimAuthority = addr 12"
    "state_authority header SettlementOwnedOrderAuthority = addr 13"
    by auto
qed

lemma header_attach [simp]: "state_attach (header @ xs) = Inr (header @ xs)"
  by (simp add: state_attach_Inr_iff) (simp add: header_def slice_def)

lemma header_attach_Nil [simp]: "state_attach header = Inr header"
  using header_attach [of "[]"] by simp

lemma header_authority: "state_authority (header @ xs) r = state_authority header r"
  by (simp add: state_authority_def)

section \<open>AddSolver and RemoveSolver\<close>

definition one_solver :: bytes where
  "one_solver = header @ to_bytes solver"

definition chain2 :: accounts where
  "chain2 = chain1(state_pda := \<lparr>acc_owner = program, acc_lamports = 10, acc_data = one_solver\<rparr>)"

abbreviation solver_views :: "account_view list" where
  "solver_views \<equiv> [signing (addr 11), signing (addr 60), plain state_pda, plain system_program]"

lemma one_solver_reads:
  "state_wf one_solver" "state_room one_solver" "state_solvers one_solver = [solver]"
  "length one_solver = WIDTH_HEADER + 32" "state_attach one_solver = Inr one_solver"
  "state_authority one_solver r = state_authority header r" "is_solver one_solver s \<longleftrightarrow> s = solver"
proof -
  have header: "slice 0 1 header = [STATE_DISCRIMINATOR]"
    by (simp add: header_def slice_def)
  show wf: "state_wf one_solver"
    using state_wfI [OF length_header header, of "[solver]"] by (simp add: one_solver_def)
  show solvers: "state_solvers one_solver = [solver]"
    using solver_region_append [of header "[solver]"]
    by (simp add: one_solver_def state_solvers_def)
  show "length one_solver = WIDTH_HEADER + 32" "state_room one_solver"
    by (simp_all add: one_solver_def state_room_def WIDTH_HEADER_def)
  show "state_attach one_solver = Inr one_solver" "state_authority one_solver r = state_authority header r"
    by (simp_all add: one_solver_def header_authority)
  show "is_solver one_solver s \<longleftrightarrow> s = solver"
    using is_solver_iff [OF wf] solvers by simp
qed

lemma run_add_solver:
  "process_add_solver toy solver_views (ix_discriminator AddSolver # to_bytes solver) chain1 = Inr chain2"
proof -
  have grown: "grown_len header = Inr (WIDTH_HEADER + 32)"
    by (simp add: grown_len_def usize_checked_add_def WIDTH_HEADER_def)
  have "grow_and_insert solver header = Inr one_solver"
    using grow_and_insert_entries [of header "[]" header solver]
    by (simp add: one_solver_def binary_search_def WIDTH_HEADER_def)
  then have insert: "insert_solver solver (header @ replicate 32 0) = Inr one_solver"
    by (simp add: grow_and_insert_def grown)
  have state: "chain1 state_pda = \<lparr>acc_owner = program, acc_lamports = 10, acc_data = header\<rparr>"
    by (simp add: chain1_def)
  have platform: "pf_rent_minimum toy n = Inr 10" "pf_resize toy = toy_resize" for n
    by (simp_all add: toy_at_def)
  show ?thesis
    unfolding process_add_solver_def parse_Cons
    by (simp add: add_solver_parse_body_def validate_is_state_pda_def STATE_PDA_def [symmetric] state header_reads
        grown platform saturating_sub_def resize_account_def toy_resize_def insert MAX_PERMITTED_DATA_LENGTH_def
        WIDTH_HEADER_def chain2_def set_data_def del: to_bytes_fill32)
qed

text \<open>Removing the only solver gives back the header, and no rent is above the minimum.\<close>

abbreviation remove_views :: "account_view list" where
  "remove_views \<equiv> [signing (addr 11), plain (addr 61), plain state_pda]"

lemma run_remove_solver:
  "process_remove_solver toy remove_views (ix_discriminator RemoveSolver # to_bytes solver) chain2 = Inr chain1"
proof -
  have "solver_region one_solver = [solver]"
    using one_solver_reads(3) by (simp add: state_solvers_def)
  then have remove: "remove_solver solver one_solver = Inr (one_solver, WIDTH_HEADER)"
    by (simp add: remove_solver_def binary_search_def binary_search_loop.simps Let_def usize_checked_mul_def
        usize_checked_add_def usize_checked_sub_def copy_within_def one_solver_reads(4) WIDTH_HEADER_def
        splice_def slice_def)
  have cut: "take WIDTH_HEADER one_solver = header" by (simp add: one_solver_def)
  have platform: "pf_rent_minimum toy n = Inr 10" "pf_resize toy = toy_resize" for n
    by (simp_all add: toy_at_def)
  have state: "chain2 state_pda = \<lparr>acc_owner = program, acc_lamports = 10, acc_data = one_solver\<rparr>"
    by (simp add: chain2_def)
  have same: "(chain2(state_pda := \<lparr>acc_owner = program, acc_lamports = 10, acc_data = header\<rparr>)) = chain1"
    by (simp add: chain2_def chain1_def fun_eq_iff)
  have "WIDTH_HEADER \<le> MAX_PERMITTED_DATA_LENGTH"
    by (simp add: WIDTH_HEADER_def MAX_PERMITTED_DATA_LENGTH_def)
  then have resized: "resize_account toy state_pda WIDTH_HEADER (set_data state_pda one_solver chain2) = Inr chain1"
    using same by (simp add: resize_account_def platform toy_resize_def state set_data_def cut one_solver_reads(4))
  have move: "move_lamports (plain state_pda) (plain (addr 61)) 0 chain1 = Inr chain1"
    by (auto simp: move_lamports_def checked_sub_def checked_add_def set_lamports_def chain1_def chain0_def
        fun_eq_iff)
  show ?thesis
    unfolding process_remove_solver_def parse_Cons
    by (simp add: remove_solver_parse_body_def validate_is_state_pda_def STATE_PDA_def [symmetric] state
        one_solver_reads header_reads remove resized platform checked_sub_def chain1_def move [unfolded chain1_def]
        del: to_bytes_fill32)
qed

section \<open>CreateOrder\<close>

definition trade :: OrderIntent where
  "trade = \<lparr>oi_owner = trader, oi_sell = \<lparr>ta_mint = sell_mint, ta_token_account = sell_account\<rparr>,
     oi_buy = AssetToken \<lparr>ta_mint = buy_mint, ta_token_account = buy_account\<rparr>, oi_sell_amount = 100,
     oi_buy_amount = 50, oi_valid_to = 1000, oi_flags = \<lparr>fl_kind = Sell, fl_partially_fillable = True\<rparr>,
     oi_app_data = addr 0\<rparr>"

definition trade_bytes :: bytes where
  "trade_bytes = intent_encode toy trade"

lemma trade_wf [simp]: "wf_intent (toy_at now ixs i) trade"
  by (simp add: wf_intent_def trade_def ENCODED_NATIVE_SOL_TRANSFER_def toy_at_def)

lemma trade_encode [simp]: "intent_encode (toy_at now ixs i) trade = trade_bytes"
  by (simp add: trade_bytes_def intent_encode_def trade_def)

lemma trade_decode [simp]: "intent_try_from (toy_at now ixs i) trade_bytes = Inr trade"
  using intent_try_from_encode [OF trade_wf, of now ixs i] by simp

lemma trade_checked [simp]: "check_bytes trade_bytes = Inr ()"
  using check_bytes_encode [OF trade_wf, of 100 "[]" 0] by simp

lemma length_trade_bytes [simp]: "length trade_bytes = INTENT_SIZE"
  unfolding trade_bytes_def by (rule length_intent_encode)

lemma trade_reads:
  "ia_owner trade_bytes = trader" "ia_sell_token_account trade_bytes = sell_account"
  "ia_sell_mint trade_bytes = sell_mint" "ia_buy_mint trade_bytes = buy_mint"
  "ia_buy_token_account trade_bytes = buy_account" "ia_sell_amount trade_bytes = Inr 100"
  "ia_buy_amount trade_bytes = Inr 50" "ia_valid_to trade_bytes = 1000"
  "ia_flags trade_bytes = Inr \<lparr>fl_kind = Sell, fl_partially_fillable = True\<rparr>"
  using accessor_agrees [OF trade_decode] by (simp_all add: trade_def)

lemma trade_uid [simp]: "hash_bytes (toy_at now ixs i) trade_bytes = addr 70"
  by (simp add: hash_bytes_def toy_at_def trade_bytes_def intent_encode_def trade_def)

text \<open>The order account, with its counters and its cancelled flag.\<close>

definition order_bytes :: "bool \<Rightarrow> u64 \<Rightarrow> u64 \<Rightarrow> bytes" where
  "order_bytes c w r = [ORDER_DISCRIMINATOR] @ [255] @ [if c then 1 else 0] @ to_le 8 w @ to_le 8 r @
     to_bytes (addr 62) @ trade_bytes"

lemma order_bytes_init:
  "length bs = ORDER_SIZE \<Longrightarrow> order_initialize bs 255 c w r (addr 62) trade_bytes = Inr (order_bytes c w r)"
  by (simp add: order_initialize_def order_bytes_def)

lemmas order_bytes_reads =
  order_initialize_reads [OF order_bytes_init [of "replicate ORDER_SIZE 0", simplified] length_trade_bytes]

definition with_order :: "bool \<Rightarrow> u64 \<Rightarrow> u64 \<Rightarrow> accounts \<Rightarrow> accounts" where
  "with_order c w r accs = accs(order_pda := \<lparr>acc_owner = program, acc_lamports = 10, acc_data = order_bytes c w r\<rparr>)"

definition chain3 :: accounts where
  "chain3 = with_order False 0 0 chain2"

abbreviation create_order_views :: "account_view list" where
  "create_order_views \<equiv> [signing trader, signing (addr 62), plain order_pda, plain system_program]"

lemma run_new_order:
  assumes "acc_owner (accs order_pda) = system_program" "acc_data (accs order_pda) = []"
  shows "process_new_onchain_order (toy_at now ixs i) program (plain order_pda) trade_bytes trader
    (signing (addr 62)) c accs = Inr (with_order c 0 0 accs)"
proof -
  have uid: "ia_uid (toy_at now ixs i) trade_bytes = addr 70"
    by (simp add: ia_uid_def)
  show ?thesis
    using assms
    by (simp add: process_new_onchain_order_def ia_attach_def trade_reads toy_creates order_pda_seeds_def uid order_bytes_init
        with_order_def set_data_def del: to_bytes_fill32)
qed

lemma chain2_order_pda: "acc_owner (chain2 order_pda) = system_program" "acc_data (chain2 order_pda) = []"
  by (simp_all add: chain2_def chain1_def chain0_def)

lemma run_create_order:
  "process_create_order (toy_at now ixs i) program create_order_views (ix_discriminator CreateOrder # trade_bytes) chain2 =
    Inr chain3"
  unfolding process_create_order_def parse_Cons
  by (simp add: create_order_parse_body_def run_new_order chain2_order_pda chain3_def)

section \<open>TransferAuthority and WithdrawNativeSol\<close>

abbreviation transfer_data :: bytes where
  "transfer_data \<equiv> ix_discriminator TransferAuthority # role_discriminator ReclaimAuthority # to_bytes (addr 14)"

lemma run_transfer_authority:
  "process_transfer_authority toy [signing (addr 10), plain state_pda] transfer_data chain1 =
    Inr (set_data state_pda (state_set_authority ReclaimAuthority (addr 14) header) chain1)"
proof -
  have state: "chain1 state_pda = \<lparr>acc_owner = program, acc_lamports = 10, acc_data = header\<rparr>"
    by (simp add: chain1_def)
  have role: "role_try_from (role_discriminator r) = Inr r" for r
    by (cases r) (simp_all add: role_try_from_def role_all_def try_from_tag_def)
  have new: "slice 1 32 (b # to_bytes (addr 14)) = to_bytes (addr 14)" for b
    by (simp add: slice_def del: to_bytes_fill32)
  show ?thesis
    unfolding process_transfer_authority_def parse_Cons
    by (simp add: transfer_authority_parse_body_def validate_is_state_pda_def STATE_PDA_def [symmetric] role new
        state header_reads del: to_bytes_fill32 role_discriminator.simps One_nat_def)
qed

text \<open>The native buffer with some lamports in it.\<close>

definition funded :: "u64 \<Rightarrow> accounts" where
  "funded l = chain1(native_buffer := \<lparr>acc_owner = program, acc_lamports = l, acc_data = []\<rparr>)"

abbreviation withdraw_views :: "account_view list" where
  "withdraw_views \<equiv> [plain state_pda, signing (addr 13), plain native_buffer, plain (addr 65)]"

lemma native_payment:
  "move_lamports (plain native_buffer) (plain (addr 65)) 30 (funded 40) =
    Inr ((funded 10)(addr 65 := \<lparr>acc_owner = system_program, acc_lamports = 30, acc_data = []\<rparr>))"
proof -
  have "funded 40 (addr 65) = \<lparr>acc_owner = system_program, acc_lamports = 0, acc_data = []\<rparr>"
    and "funded 40 native_buffer = \<lparr>acc_owner = program, acc_lamports = 40, acc_data = []\<rparr>"
    by (simp_all add: funded_def chain1_def chain0_def)
  then show ?thesis
    by (simp add: move_lamports_def checked_sub_def checked_add_def set_lamports_def)
      (simp add: funded_def fun_eq_iff)
qed

lemma run_withdraw:
  "process_withdraw_native_sol toy withdraw_views (ix_discriminator WithdrawNativeSol # to_le 8 (50 :: u64)) (funded 40) =
    Inr ((funded 10)(addr 65 := \<lparr>acc_owner = system_program, acc_lamports = 30, acc_data = []\<rparr>))"
proof -
  have state: "funded 40 state_pda = \<lparr>acc_owner = program, acc_lamports = 10, acc_data = header\<rparr>"
    and buffer: "funded 40 native_buffer = \<lparr>acc_owner = program, acc_lamports = 40, acc_data = []\<rparr>"
    by (simp_all add: funded_def chain1_def)
  have rent: "pf_rent_minimum toy n = Inr 10" for n
    by (simp add: toy_at_def)
  show ?thesis
    unfolding process_withdraw_native_sol_def parse_Cons
    by (simp add: withdraw_native_sol_parse_body_def validate_is_state_pda_def STATE_PDA_def [symmetric]
        state_from_account_def state header_reads buffer rent saturating_sub_def native_payment layout_simps)
qed

section \<open>CancelOrder and ReclaimOrder\<close>

lemma load_order:
  "order_load_from_pda (toy_at now ixs i) (with_order c w r accs) (plain order_pda) program = Inr (order_bytes c w r)"
  by (simp add: order_load_from_pda_Inr_iff order_check_pda_def with_order_def order_bytes_reads
      is_pda_with_signer_seeds_def order_pda_signer_seeds_def order_intent_uid_def)

lemma with_order_owner: "acc_owner (with_order c w r accs order_pda) = program"
  by (simp add: with_order_def)

lemma with_order_cancelled: "set_data order_pda bs (with_order c w r accs) =
    accs(order_pda := \<lparr>acc_owner = program, acc_lamports = 10, acc_data = bs\<rparr>)"
  by (simp add: with_order_def set_data_def)

abbreviation cancel_views :: "account_view list" where
  "cancel_views \<equiv> [signing trader, plain (addr 62), plain order_pda, plain system_program]"

lemma run_cancel_order:
  "process_cancel_order toy program cancel_views [ix_discriminator CancelOrder] chain3 =
    Inr (with_order True 0 0 chain2)"
proof -
  have "order_set_cancelled (order_bytes False 0 0) = order_bytes True 0 0"
    by (simp add: order_set_cancelled_def order_bytes_def splice_def)
  then show ?thesis
    unfolding process_cancel_order_def parse_Cons chain3_def
    by (simp add: cancel_order_parse_body_def Let_def with_order_owner load_order ia_from_order_def ia_attach_def
        order_bytes_reads trade_reads with_order_cancelled) (simp add: with_order_def)
qed

lemma run_reclaim_order:
  "process_reclaim_order (toy_at 2000 [] 0) [plain order_pda, plain (addr 62)] [ix_discriminator ReclaimOrder] chain3 =
    Inr (chain2(addr 62 := \<lparr>acc_owner = system_program, acc_lamports = 10, acc_data = []\<rparr>))"
proof -
  have "is_reclaimable (toy_at 2000 [] 0) (plain order_pda) (plain (addr 62)) None chain3 = Inr True"
    unfolding is_reclaimable_def chain3_def toy_ID load_order
    by (simp add: order_bytes_reads ia_from_order_def ia_attach_def fill_progress_def trade_reads) 
      (simp add: toy_at_def)
  moreover have "chain3 order_pda = \<lparr>acc_owner = program, acc_lamports = 10, acc_data = order_bytes False 0 0\<rparr>"
    by (simp add: chain3_def with_order_def)
  moreover have "chain3 (addr 62) = \<lparr>acc_owner = system_program, acc_lamports = 0, acc_data = []\<rparr>"
    by (simp add: chain3_def with_order_def chain2_def chain1_def chain0_def)
  moreover have "pf_close (toy_at 2000 [] 0) a = Inr \<lparr>acc_owner = system_program, acc_lamports = 0, acc_data = []\<rparr>" for a
    by (simp add: toy_at_def)
  ultimately show ?thesis
    unfolding process_reclaim_order_def parse_Cons
    by (simp add: reclaim_order_parse_body_def first_def checked_add_def set_lamports_def)
      (auto simp: chain3_def with_order_def chain2_def chain1_def chain0_def fun_eq_iff)
qed

section \<open>Buffers\<close>

lemma as_chunks_one: "length xs = n \<Longrightarrow> 0 < n \<Longrightarrow> as_chunks n xs = ([xs], [])"
  using as_chunks_concat [of n "[xs]" "[]"] by simp

abbreviation create_buffer_views :: "account_view list" where
  "create_buffer_views \<equiv> [signing (addr 63), plain system_program, plain spl_token, plain buy_buffer, plain buy_mint]"

lemma create_buffer_parses:
  "instruction_parse CreateBuffer create_buffer_parse_body [ix_discriminator CreateBuffer] create_buffer_views =
    Inr \<lparr>cbi_payer = signing (addr 63), cbi_buffer_pairs = [[plain buy_buffer, plain buy_mint]]\<rparr>"
  unfolding parse_Cons by (simp add: create_buffer_parse_body_def as_chunks_one)

abbreviation reclaim_buffer_views :: "account_view list" where
  "reclaim_buffer_views \<equiv>
    [plain state_pda, signing (addr 12), plain (addr 64), plain spl_token, plain buy_buffer, plain buy_mint]"

definition reclaim_input :: "u64 \<Rightarrow> account_view ReclaimBufferInput" where
  "reclaim_input limit =
    \<lparr>rbi_state_pda = plain state_pda, rbi_reclaim_authority = signing (addr 12), rbi_reclaim_recipient = plain (addr 64),
     rbi_buffers = \<lparr>bs_accounts = [[plain buy_buffer, plain buy_mint]], bs_burn_limits = [to_le 8 limit]\<rparr>\<rparr>"

lemma reclaim_buffer_parses:
  "instruction_parse ReclaimBuffer reclaim_buffer_parse_body (ix_discriminator ReclaimBuffer # to_le 8 limit)
     reclaim_buffer_views = Inr (reclaim_input limit)"
  unfolding parse_Cons by (simp add: reclaim_buffer_parse_body_def reclaim_input_def ACCOUNTS_PER_BUFFER_def as_chunks_one)

lemma toy_tokens:
  "acc_owner (view_account accs v) = spl_token \<Longrightarrow> owning_token_program (toy_at now ixs i) accs v = Inr SplToken"
  by (simp add: owning_token_program_def token_program_try_from_def token_program_all_def toy_at_def)

lemma toy_reads_token:
  "acc_data (view_account accs v) = token_data mint owner amount \<Longrightarrow> av_address v \<notin> set borrowed \<Longrightarrow>
    read_token_account (toy_at now ixs i) borrowed SplToken v accs =
      Inr \<lparr>tka_mint = mint, tka_owner = owner, tka_amount = amount\<rparr>"
  by (simp add: read_token_account_def try_borrow_def toy_at_def toy_token_account_data)

lemma chain1_buffer: "chain1 buy_buffer = \<lparr>acc_owner = spl_token, acc_lamports = 5, acc_data = token_data buy_mint state_pda 70\<rparr>"
  by (simp add: chain1_def chain0_def)

lemma run_reclaim_buffer:
  "process_reclaim_buffer toy program reclaim_buffer_views (ix_discriminator ReclaimBuffer # to_le 8 (70 :: u64)) chain1 =
    Inr chain1"
proof -
  have state: "chain1 state_pda = \<lparr>acc_owner = program, acc_lamports = 10, acc_data = header\<rparr>"
    by (simp add: chain1_def)
  have invoke: "pf_invoke toy = toy_invoke" by (simp add: toy_at_def)
  have iter: "buffers_iter (rbi_buffers (reclaim_input 70)) =
      [\<lparr>bu_buffer_pda = plain buy_buffer, bu_mint = plain buy_mint, bu_burn_limit = 70\<rparr>]"
    by (simp add: buffers_iter_def reclaim_input_def)
  show ?thesis
    unfolding process_reclaim_buffer_def reclaim_buffer_parses
    by (simp add: iter [unfolded reclaim_input_def, simplified] reclaim_input_def validate_is_state_pda_def STATE_PDA_def [symmetric]
        with_state_pda_signer_def state_from_account_def state header_reads toy_tokens toy_reads_token chain1_buffer invoke)
qed

end
