(* ===== verification/SettleRun.thy ===== *)
theory SettleRun
  imports Run
begin

text \<open>
  The rest of the run: a transaction of \<open>BeginSettle\<close> and \<open>FinalizeSettle\<close> that settles the order, a
  payment in native SOL, and an order that the program itself owns.
\<close>

section \<open>BeginSettle\<close>

text \<open>One order, one pull of 100 to an account of the state, one push of 60 to the trader.\<close>

abbreviation begin_data :: bytes where
  "begin_data \<equiv> ix_discriminator BeginSettle # to_le 2 (1 :: u16) @ to_le 8 (9 :: u64) @ [1] @ [1] @ to_le 8 (100 :: u64)"

abbreviation begin_views :: "account_view list" where
  "begin_views \<equiv> [signing solver, plain (addr 203), plain state_pda, plain spl_token, plain (addr 202),
     plain order_pda, plain sell_account, plain (addr 203), plain pull_account]"

abbreviation finalize_data :: bytes where
  "finalize_data \<equiv> ix_discriminator FinalizeSettle # to_le 2 (0 :: u16) @ [255] @ to_le 8 (60 :: u64)"

abbreviation finalize_views :: "account_view list" where
  "finalize_views \<equiv> [plain (addr 203), plain state_pda, plain spl_token, plain (addr 202),
     plain buy_buffer, plain buy_account, plain (addr 203)]"

definition settle_ixs :: "instruction list" where
  "settle_ixs =
    [\<lparr>ix_program_id = program, ix_accounts = map (\<lambda>v. meta_new (av_address v) (av_is_signer v)) begin_views,
      ix_data = begin_data\<rparr>,
     \<lparr>ix_program_id = program, ix_accounts = map (\<lambda>v. meta_new (av_address v) (av_is_signer v)) finalize_views,
      ix_data = finalize_data\<rparr>]"

definition settled_trade :: "account_view SettledOrder" where
  "settled_trade = \<lparr>so_order_pda = plain order_pda, so_sell_token_account = plain sell_account,
     so_sell_mint = plain (addr 203), so_destinations = [plain pull_account], so_amounts = [to_le 8 (100 :: u64)]\<rparr>"

definition trade_push :: PairedPush where
  "trade_push = \<lparr>pp_source_buffer = buy_buffer, pp_destination = buy_account, pp_bump = 255, pp_amount = 60\<rparr>"

definition begin_input :: "account_view BeginSettleInput" where
  "begin_input = \<lparr>bsi_finalize_ix_index = 1, bsi_auction_id = 9, bsi_solver_account = signing solver,
     bsi_instructions_sysvar_account = plain (addr 203), bsi_state_pda_account = plain state_pda,
     bsi_orders = \<lparr>sos_order_accounts = [plain order_pda, plain sell_account, plain (addr 203), plain pull_account],
       sos_counts = [1], sos_amounts = [to_le 8 (100 :: u64)]\<rparr>\<rparr>"

lemma begin_parses: "instruction_parse BeginSettle begin_settle_parse_body begin_data begin_views = Inr begin_input"
  unfolding parse_Cons
  by (simp add: begin_settle_parse_body_def begin_input_def as_chunks_one usize_checked_mul_def usize_checked_add_def)

lemma begin_orders: "settled_orders_iter (bsi_orders begin_input) = [Inr settled_trade]"
  by (simp add: begin_input_def settled_orders_iter_def settled_trade_def)

lemma finalize_pushes_settle: "finalize_pushes (settle_ixs ! 1) = Inr [trade_push]"
proof -
  have "finalize_push_data finalize_data = Inr ([255], [to_le 8 (60 :: u64)])"
    unfolding finalize_push_data_def recover_discriminator_Cons
    by (simp add: split_push_bytes_def as_chunks_one)
  moreover have "push_accounts (settle_ixs ! 1) = [(buy_buffer, buy_account)]"
    by (simp add: push_accounts_def settle_ixs_def meta_new_def FINALIZE_FIXED_ACCOUNTS_def FINALIZE_PUSH_ACCOUNTS_def
        upt_rec_numeral)
  ultimately show ?thesis
    by (simp add: finalize_pushes_def trade_push_def settle_ixs_def del: ix_discriminator.simps)
qed

definition chain4 :: accounts where
  "chain4 = (with_order False 100 60 chain2)
     (sell_account := \<lparr>acc_owner = spl_token, acc_lamports = 5, acc_data = token_data sell_mint trader 900\<rparr>,
      pull_account := \<lparr>acc_owner = spl_token, acc_lamports = 5, acc_data = token_data sell_mint state_pda 100\<rparr>)"

text \<open>After the pull, before the order is updated.\<close>

definition chain3_pulled :: accounts where
  "chain3_pulled = chain3
     (sell_account := \<lparr>acc_owner = spl_token, acc_lamports = 5, acc_data = token_data sell_mint trader 900\<rparr>,
      pull_account := \<lparr>acc_owner = spl_token, acc_lamports = 5, acc_data = token_data sell_mint state_pda 100\<rparr>)"

text \<open>After the payment.\<close>

definition chain5 :: accounts where
  "chain5 = chain4
     (buy_buffer := \<lparr>acc_owner = spl_token, acc_lamports = 5, acc_data = token_data buy_mint state_pda 10\<rparr>,
      buy_account := \<lparr>acc_owner = spl_token, acc_lamports = 5, acc_data = token_data buy_mint trader 60\<rparr>)"

lemma run_process_order:
  "process_order (toy_at 100 ixs i) program settled_trade trade_push 100 state signers chain3 = Inr chain4"
proof -
  have order: "chain3 order_pda = \<lparr>acc_owner = program, acc_lamports = 10, acc_data = order_bytes False 0 0\<rparr>"
    by (simp add: chain3_def with_order_def)
  have sell: "chain3 sell_account = \<lparr>acc_owner = spl_token, acc_lamports = 5, acc_data = token_data sell_mint trader 1000\<rparr>"
    by (simp add: chain3_def with_order_def chain2_def chain1_def chain0_def)
  have price: "validate_limit_price trade_bytes \<lparr>fa_withdrawn = 100, fa_received = 60\<rparr> = Inr ()"
    by (simp add: validate_limit_price_def trade_reads checked_mul_def)
  have amounts: "validated_final_amounts trade_bytes \<lparr>fa_withdrawn = 0, fa_received = 0\<rparr>
      \<lparr>fa_withdrawn = 100, fa_received = 60\<rparr> = Inr \<lparr>fa_withdrawn = 100, fa_received = 60\<rparr>"
    by (simp add: validated_final_amounts_def trade_reads checked_add_def)
  have set_amounts: "order_set_amounts \<lparr>fa_withdrawn = 100, fa_received = 60\<rparr> (order_bytes False 0 0) = order_bytes False 100 60"
    by (simp add: order_set_amounts_def order_bytes_def splice_def)
  have buffer: "validate_buffer_pda (toy_at 100 ixs i) buy_buffer buy_mint 255 = Inr ()"
    using toy_unknown_mint [of 91 100 ixs i] by simp
  have mint: "read_mint_decimals (toy_at 100 ixs i) borrowed tp (plain (addr 203)) accs = Inr None" for borrowed tp accs
    by (simp add: read_mint_decimals_def maybe_mint_get_def MINT_PLACEHOLDER_def toy_at_def)
  have pull: "chain3 pull_account = \<lparr>acc_owner = spl_token, acc_lamports = 5, acc_data = token_data sell_mint state_pda 0\<rparr>"
    by (simp add: chain3_def with_order_def chain2_def chain1_def chain0_def)
  have "toy_transfer [order_pda] sell_account pull_account 100 chain3 = Inr chain3_pulled"
    using toy_transfers [OF sell pull, of "[order_pda]" 100] by (simp add: chain3_pulled_def)
  then have pulls: "process_pulls (toy_at 100 ixs i) [order_pda] tp (plain sell_account) None state signers
      [(plain pull_account, to_le 8 (100 :: u64))] 0 chain3 = Inr (100, chain3_pulled)" for tp
    by (simp add: checked_add_def) (simp add: toy_at_def)
  have load: "order_load_from_pda (toy_at 100 ixs i) chain3 (plain order_pda) program = Inr (order_bytes False 0 0)"
    by (simp add: chain3_def load_order)
  have "chain3_pulled order_pda = chain3 order_pda" by (simp add: chain3_pulled_def)
  moreover have "set_data order_pda (order_bytes False 100 60) chain3_pulled = chain4"
    by (simp add: chain3_pulled_def chain3_def chain4_def with_order_def set_data_def fun_upd_twist)
  ultimately show ?thesis
    unfolding process_order_def settled_trade_def trade_push_def
    by (simp add: Let_def load order_bytes_reads
        ia_from_order_def ia_attach_def trade_reads buffer toy_tokens sell toy_reads_token mint pulls order price amounts
        set_amounts del: process_pulls.simps)
qed

lemma run_begin_settle:
  "process_begin_settle (toy_at 100 settle_ixs 0) program begin_views begin_data chain3 = Inr chain4"
proof -
  have index: "unat (1 :: u16) = 1" by simp
  have counterpart: "validate_counterpart program settle_ixs 0 1 FinalizeSettle = Inr ()"
    unfolding validate_counterpart_def load_instruction_at_def
    by (simp add: settle_ixs_def del: ix_discriminator.simps)
  have nested: "validate_no_nested_settlement program settle_ixs 0 1 = Inr ()"
    by (simp add: validate_no_nested_settlement_def checked_add_def)
  have state: "chain3 state_pda = \<lparr>acc_owner = program, acc_lamports = 10, acc_data = one_solver\<rparr>"
    by (simp add: chain3_def with_order_def chain2_def)
  have platform: "pf_stack_height (toy_at 100 settle_ixs 0) = 1" "pf_current_index (toy_at 100 settle_ixs 0) = 0"
      "pf_instructions (toy_at 100 settle_ixs 0) = settle_ixs" "pf_instructions_sysvar_id (toy_at 100 settle_ixs 0) = addr 203"
      "pf_clock (toy_at 100 settle_ixs 0) = Inr 100"
    by (simp_all add: toy_at_def)
  have "length settle_ixs = 2" by (simp add: settle_ixs_def)
  then have settled: "settle_orders (toy_at 100 settle_ixs 0) program (plain state_pda) signers (bsi_orders begin_input)
      (settle_ixs ! 1) chain3 = Inr chain4" for signers
    by (simp add: settle_orders_def platform finalize_pushes_settle [unfolded One_nat_def] begin_orders run_process_order)
  show ?thesis
    unfolding process_begin_settle_def begin_parses
    by (simp add: is_cpi_call_def TRANSACTION_LEVEL_STACK_HEIGHT_def platform settled [unfolded begin_input_def, simplified] begin_input_def
        require_solver_def state one_solver_reads instructions_try_from_def counterpart nested load_instruction_at_def
        with_state_pda_signer_def validate_is_state_pda_def STATE_PDA_def [symmetric] \<open>length settle_ixs = 2\<close>)
qed

section \<open>FinalizeSettle\<close>

text \<open>A push of \<open>amount\<close> from \<open>source\<close> to \<open>destination\<close>; the first is that of the run.\<close>

definition push_input :: "account_view \<Rightarrow> account_view \<Rightarrow> u64 \<Rightarrow> account_view FinalizeSettleInput" where
  "push_input source destination amount = \<lparr>fsi_begin_ix_index = 0, fsi_instructions_sysvar_account = plain (addr 203),
     fsi_state_pda_account = plain state_pda,
     fsi_pushes = \<lparr>ps_push_accounts = [[source, destination, plain (addr 203)]], ps_bumps = [255],
       ps_amounts = [to_le 8 amount]\<rparr>\<rparr>"

lemma finalize_parses:
  "instruction_parse FinalizeSettle finalize_settle_parse_body
     (ix_discriminator FinalizeSettle # to_le 2 (0 :: u16) @ [255] @ to_le 8 amount)
     [plain (addr 203), plain state_pda, plain spl_token, plain (addr 202), source, destination, plain (addr 203)] =
   Inr (push_input source destination amount)"
  unfolding parse_Cons
  by (simp add: finalize_settle_parse_body_def split_push_bytes_def as_chunks_one push_input_def FINALIZE_PUSH_ACCOUNTS_def)

lemma push_input_iter:
  "pushes_iter (fsi_pushes (push_input source destination amount)) =
    [\<lparr>pu_source_buffer = source, pu_destination = destination, pu_mint = plain (addr 203), pu_bump = 255,
      pu_amount = amount\<rparr>]"
  by (simp add: pushes_iter_def push_input_def)

lemma run_finalize:
  assumes "push_funds (toy_at 100 settle_ixs 1) (plain state_pda) [STATE_PDA_SIGNER_SEEDS (toy_at 100 settle_ixs 1)]
      (fsi_pushes (push_input source destination amount)) accs = Inr accs'"
  shows "process_finalize_settle (toy_at 100 settle_ixs 1) program
     [plain (addr 203), plain state_pda, plain spl_token, plain (addr 202), source, destination, plain (addr 203)]
     (ix_discriminator FinalizeSettle # to_le 2 (0 :: u16) @ [255] @ to_le 8 amount) accs = Inr accs'"
proof -
  have counterpart: "validate_counterpart program settle_ixs 1 0 BeginSettle = Inr ()"
    unfolding validate_counterpart_def load_instruction_at_def
    by (simp add: settle_ixs_def del: ix_discriminator.simps)
  have platform: "pf_stack_height (toy_at 100 settle_ixs 1) = 1" "pf_current_index (toy_at 100 settle_ixs 1) = 1"
      "pf_instructions (toy_at 100 settle_ixs 1) = settle_ixs" "pf_instructions_sysvar_id (toy_at 100 settle_ixs 1) = addr 203"
    by (simp_all add: toy_at_def)
  show ?thesis
    unfolding process_finalize_settle_def finalize_parses
    by (simp add: is_cpi_call_def TRANSACTION_LEVEL_STACK_HEIGHT_def platform counterpart instructions_try_from_def
        with_state_pda_signer_def validate_is_state_pda_def STATE_PDA_def [symmetric] assms [unfolded push_input_def, simplified]
        push_input_def)
qed

lemma run_finalize_settle:
  "process_finalize_settle (toy_at 100 settle_ixs 1) program finalize_views finalize_data chain4 = Inr chain5"
proof (rule run_finalize)
  have destination: "acc_owner (chain4 buy_account) = spl_token"
    by (simp add: chain4_def with_order_def chain2_def chain1_def chain0_def)
  have mint: "read_mint_decimals (toy_at 100 settle_ixs 1) [] tp (plain (addr 203)) accs = Inr None" for tp accs
    by (simp add: read_mint_decimals_def maybe_mint_get_def MINT_PLACEHOLDER_def toy_at_def)
  have invoke: "pf_invoke (toy_at 100 settle_ixs 1) = toy_invoke" by (simp add: toy_at_def)
  have accounts: "chain4 buy_buffer = \<lparr>acc_owner = spl_token, acc_lamports = 5, acc_data = token_data buy_mint state_pda 70\<rparr>"
    "chain4 buy_account = \<lparr>acc_owner = spl_token, acc_lamports = 5, acc_data = token_data buy_mint trader 0\<rparr>"
    by (simp_all add: chain4_def with_order_def chain2_def chain1_def chain0_def)
  have pay: "toy_transfer [] buy_buffer buy_account 60 chain4 = Inr chain5"
    using toy_transfers [OF accounts, of "[]" 60] by (simp add: chain5_def)
  show "push_funds (toy_at 100 settle_ixs 1) (plain state_pda) [STATE_PDA_SIGNER_SEEDS (toy_at 100 settle_ixs 1)]
      (fsi_pushes (push_input (plain buy_buffer) (plain buy_account) 60)) chain4 = Inr chain5"
    by (simp add: push_funds_def push_input_iter toy_tokens destination mint invoke pay)
qed

lemma run_finalize_native:
  "process_finalize_settle (toy_at 100 settle_ixs 1) program
     [plain (addr 203), plain state_pda, plain spl_token, plain (addr 202), plain native_buffer, plain (addr 65),
      plain (addr 203)]
     (ix_discriminator FinalizeSettle # to_le 2 (0 :: u16) @ [255] @ to_le 8 (30 :: u64)) (funded 40) =
   Inr ((funded 10)(addr 65 := \<lparr>acc_owner = system_program, acc_lamports = 30, acc_data = []\<rparr>))"
proof (rule run_finalize)
  show "push_funds (toy_at 100 settle_ixs 1) (plain state_pda) [STATE_PDA_SIGNER_SEEDS (toy_at 100 settle_ixs 1)]
      (fsi_pushes (push_input (plain native_buffer) (plain (addr 65)) 30)) (funded 40) =
    Inr ((funded 10)(addr 65 := \<lparr>acc_owner = system_program, acc_lamports = 30, acc_data = []\<rparr>))"
    by (simp add: push_funds_def push_input_iter native_payment) (simp add: funded_def)
qed

section \<open>CreateSettlementOwnedOrder\<close>

definition fee_bytes :: bytes where
  "fee_bytes = intent_encode toy (trade\<lparr>oi_owner := state_pda\<rparr>)"

definition fee_order :: bytes where
  "fee_order = [ORDER_DISCRIMINATOR] @ [255] @ [0] @ to_le 8 (0 :: u64) @ to_le 8 (0 :: u64) @ to_bytes (addr 62) @ fee_bytes"

lemma fee_reads: "length fee_bytes = INTENT_SIZE" "check_bytes fee_bytes = Inr ()" "ia_owner fee_bytes = state_pda"
  "hash_bytes toy fee_bytes = state_pda"
proof -
  have wf: "wf_intent toy (trade\<lparr>oi_owner := state_pda\<rparr>)"
    by (simp add: wf_intent_def trade_def ENCODED_NATIVE_SOL_TRANSFER_def toy_at_def)
  show "length fee_bytes = INTENT_SIZE"
    unfolding fee_bytes_def by (rule length_intent_encode)
  show "check_bytes fee_bytes = Inr ()"
    unfolding fee_bytes_def by (rule check_bytes_encode [OF wf])
  show "ia_owner fee_bytes = state_pda"
    using accessor_agrees(1) [OF intent_try_from_encode [OF wf]] by (simp add: fee_bytes_def)
  show "hash_bytes toy fee_bytes = state_pda"
    by (simp add: fee_bytes_def hash_bytes_def toy_at_def intent_encode_def split: prod.split)
qed

abbreviation fee_views :: "account_view list" where
  "fee_views \<equiv> [signing (addr 13), signing (addr 62), plain state_pda, plain (addr 202), plain system_program]"

lemma run_create_settlement_owned_order:
  "process_create_settlement_owned_order toy program fee_views (ix_discriminator CreateSettlementOwnedOrder # fee_bytes) chain2 =
    Inr (chain2(addr 202 := \<lparr>acc_owner = program, acc_lamports = 10, acc_data = fee_order\<rparr>))"
proof -
  have state: "chain2 state_pda = \<lparr>acc_owner = program, acc_lamports = 10, acc_data = one_solver\<rparr>"
    by (simp add: chain2_def)
  have empty: "acc_owner (chain2 (addr 202)) = system_program" "acc_data (chain2 (addr 202)) = []"
    by (simp_all add: chain2_def chain1_def chain0_def)
  have init: "length bs = ORDER_SIZE \<Longrightarrow> order_initialize bs 255 False 0 0 (addr 62) fee_bytes = Inr fee_order" for bs
    by (simp add: order_initialize_def fee_order_def)
  have create: "process_new_onchain_order toy program (plain (addr 202)) fee_bytes state_pda (signing (addr 62)) False chain2 =
      Inr (chain2(addr 202 := \<lparr>acc_owner = program, acc_lamports = 10, acc_data = fee_order\<rparr>))"
    by (simp add: process_new_onchain_order_def ia_attach_def ia_uid_def fee_reads toy_creates order_pda_seeds_def init empty
        set_data_def del: to_bytes_fill32)
  show ?thesis
    unfolding process_create_settlement_owned_order_def parse_Cons
    by (simp add: create_settlement_owned_order_parse_body_def fee_reads validate_is_state_pda_def STATE_PDA_def [symmetric]
        state_from_account_def state one_solver_reads header_reads create)
qed

end
