(* ===== verification/NoPanic.thy ===== *)
theory NoPanic
  imports Processor
begin

text \<open>
  Every instruction returns: the \<open>expect\<close>, \<open>unreachable!\<close>, indexing and slicing of the program, all
  of which are the error value \<open>Panic\<close> of the model, are never reached, whatever the accounts hold
  and whatever the instruction data is. The rules below say which operations return; a handler is
  a chain of them.
\<close>

section \<open>Chains that return\<close>

definition returns :: "'a result \<Rightarrow> bool" where
  "returns r \<longleftrightarrow> r \<noteq> Inl Panic"

named_theorems returning

lemma returns_Inr [simp]: "returns (Inr x)"
  by (simp add: returns_def)

lemma returns_Inl [simp]: "returns (Inl e) \<longleftrightarrow> e \<noteq> Panic"
  by (simp add: returns_def)

lemma returns_bindE [returning]: "returns m \<Longrightarrow> (\<And>x. m = Inr x \<Longrightarrow> returns (f x)) \<Longrightarrow> returns (bindE m f)"
  by (auto simp: returns_def bindE_Inl_iff)

lemma returns_ok_or [simp]: "returns (ok_or m e) \<longleftrightarrow> e \<noteq> Panic \<or> m \<noteq> None"
  by (auto simp: returns_def ok_or_Inl_iff)

lemma returns_ensure [simp]: "returns (ensure b e) \<longleftrightarrow> e \<noteq> Panic \<or> b"
  by (auto simp: returns_def ensure_Inl_iff)

lemma returns_map_err [returning]: "(\<And>e. m = Inl e \<Longrightarrow> f e \<noteq> Panic) \<Longrightarrow> returns (map_err f m)"
  by (auto simp: returns_def map_err_Inl_iff)

lemma returns_if [returning]: "(b \<Longrightarrow> returns m) \<Longrightarrow> (\<not> b \<Longrightarrow> returns n) \<Longrightarrow> returns (if b then m else n)"
  by simp

lemma returns_case_prod [returning]: "(\<And>a b. p = (a, b) \<Longrightarrow> returns (f a b)) \<Longrightarrow> returns (case p of (a, b) \<Rightarrow> f a b)"
  by (cases p) simp

lemma returns_case_list [returning]:
  "(xs = [] \<Longrightarrow> returns m) \<Longrightarrow> (\<And>y ys. xs = y # ys \<Longrightarrow> returns (f y ys)) \<Longrightarrow>
    returns (case xs of [] \<Rightarrow> m | y # ys \<Rightarrow> f y ys)"
  by (cases xs) simp_all

lemma returns_case_option [returning]:
  "(x = None \<Longrightarrow> returns m) \<Longrightarrow> (\<And>y. x = Some y \<Longrightarrow> returns (f y)) \<Longrightarrow>
    returns (case x of None \<Rightarrow> m | Some y \<Rightarrow> f y)"
  by (cases x) simp_all

lemma returns_case_sum [returning]:
  "(\<And>y. x = Inl y \<Longrightarrow> returns (f y)) \<Longrightarrow> (\<And>y. x = Inr y \<Longrightarrow> returns (g y)) \<Longrightarrow>
    returns (case x of Inl y \<Rightarrow> f y | Inr y \<Rightarrow> g y)"
  by (cases x) simp_all

lemma returns_Let [returning]: "returns (f x) \<Longrightarrow> returns (let y = x in f y)"
  by simp

text \<open>What the platform answers: an error of its own, but no panic of the program.\<close>

definition platform_returns :: "platform \<Rightarrow> bool" where
  "platform_returns P \<longleftrightarrow>
     (\<forall>borrowed c accs. returns (pf_invoke P borrowed c accs)) \<and>
     (\<forall>a. returns (pf_spl_account P a)) \<and> (\<forall>a. returns (pf_token_2022_account P a)) \<and>
     (\<forall>a n. returns (pf_resize P a n)) \<and> (\<forall>a. returns (pf_close P a)) \<and>
     (\<forall>n. returns (pf_rent_minimum P n)) \<and> returns (pf_clock P)"

lemma platform_returnsD:
  assumes "platform_returns P"
  shows "returns (pf_invoke P borrowed c accs)" "returns (pf_spl_account P a)" "returns (pf_token_2022_account P a)"
    "returns (pf_resize P a n)" "returns (pf_close P a)" "returns (pf_rent_minimum P n)" "returns (pf_clock P)"
  using assms by (simp_all add: platform_returns_def)

section \<open>Parsing\<close>

lemma recover_discriminator_returns [simp]: "returns (recover_discriminator data)"
  by (auto simp: recover_discriminator_def settlement_instruction_try_from_def intro!: returning)

lemma instruction_parse_returns [returning]:
  "(\<And>rest. returns (parse_body rest accounts)) \<Longrightarrow> returns (instruction_parse own parse_body data accounts)"
  by (auto simp: instruction_parse_def intro!: returning)

lemma recover_counterpart_returns [simp]: "returns (recover_counterpart data)"
  by (auto simp: recover_counterpart_def split: list.splits)

lemma split_push_bytes_returns [simp]: "returns (split_push_bytes data)"
  by (auto simp: split_push_bytes_def intro!: returning)

lemma parse_bodies_return [simp]:
  "returns (initialize_parse_body data accounts)" "returns (create_order_parse_body data accounts)"
  "returns (create_settlement_owned_order_parse_body data accounts)" "returns (cancel_order_parse_body data accounts)"
  "returns (reclaim_order_parse_body data accounts)" "returns (add_solver_parse_body data accounts)"
  "returns (remove_solver_parse_body data accounts)" "returns (withdraw_native_sol_parse_body data accounts)"
  by (auto simp: initialize_parse_body_def create_order_parse_body_def create_settlement_owned_order_parse_body_def
      cancel_order_parse_body_def reclaim_order_parse_body_def add_solver_parse_body_def
      remove_solver_parse_body_def withdraw_native_sol_parse_body_def intro!: returning)

lemma transfer_authority_parse_body_returns [simp]: "returns (transfer_authority_parse_body data accounts)"
  by (auto simp: transfer_authority_parse_body_def role_try_from_def intro!: returning)

lemma buffer_parse_bodies_return [simp]:
  "returns (create_buffer_parse_body data accounts)" "returns (reclaim_buffer_parse_body data accounts)"
  by (auto simp: create_buffer_parse_body_def reclaim_buffer_parse_body_def intro!: returning)

lemma settle_parse_bodies_return [simp]:
  "returns (begin_settle_parse_body data accounts)" "returns (finalize_settle_parse_body data accounts)"
  by (auto simp: begin_settle_parse_body_def finalize_settle_parse_body_def intro!: returning)

section \<open>Accounts\<close>

lemma account_operations_return [simp]:
  "returns (validate_is_state_pda P a)" "returns (state_attach d)" "returns (try_borrow borrowed accs v)"
  "returns (order_attach d)" "returns (order_cancelled d)" "returns (order_load_from_pda P accs v prog)"
  "returns (order_initialize d bump c w r payer intent)" "returns (state_initialize d args)"
  "returns (move_lamports from_v to_v n accs)" "returns (owning_token_program P accs v)"
  "returns (instructions_try_from P v)" "returns (load_instruction_at ixs k)"
  "returns (ia_from_order d)" "returns (require_solver accs v signer)"
  by (auto simp: validate_is_state_pda_def state_attach_def try_borrow_def order_attach_def order_cancelled_def
      order_load_from_pda_def order_check_pda_def order_initialize_def state_initialize_def move_lamports_def
      owning_token_program_def token_program_try_from_def instructions_try_from_def load_instruction_at_def
      ia_from_order_def require_solver_def intro!: returning)

lemma state_from_account_returns [simp]: "returns (state_from_account a)"
  by (simp add: state_from_account_def)

lemma check_bytes_returns:
  assumes "length bs = INTENT_SIZE"
  shows "returns (check_bytes bs)"
proof -
  have "length (is_flags (intent_slots bs)) = 1"
    using assms by (simp add: intent_slots_def slice_def INTENT_SIZE_def)
  then obtain b where "is_flags (intent_slots bs) = [b]"
    by (auto simp: length_Suc_conv)
  then show ?thesis
    by (auto simp: check_bytes_def flags_try_from_def intro!: returning)
qed

lemma ia_attach_returns: "length bs = INTENT_SIZE \<Longrightarrow> returns (ia_attach bs)"
  by (auto simp: ia_attach_def check_bytes_returns intro!: returning)

lemma ia_from_order_checked: "ia_from_order order = Inr intent \<Longrightarrow> check_bytes intent = Inr ()"
  by (auto simp: ia_from_order_def result_simps)

lemma accessors_return:
  assumes "check_bytes intent = Inr ()"
  shows "returns (ia_sell_amount intent)" "returns (ia_buy_amount intent)" "returns (ia_flags intent)"
  using accessor_total [OF assms] by (metis returns_Inr)+

lemma fill_progress_returns: "check_bytes intent = Inr () \<Longrightarrow> returns (fill_progress intent fill)"
  by (auto simp: fill_progress_def accessors_return intro!: returning split: OrderKind.split)

lemma create_returns:
  assumes "platform_returns P"
  shows "returns (create_idempotent P c accs)" "returns (create_new P c accs)"
  using platform_returnsD [OF assms] by (auto simp: create_new_def create_idempotent_def intro!: returning)

lemma token_operations_return:
  assumes "platform_returns P"
  shows "returns (read_token_account P borrowed tp v accs)" "returns (read_mint_decimals P borrowed tp v accs)"
    "returns (token_account_len P tp v accs)"
  using platform_returnsD [OF assms]
  by (auto simp: read_token_account_def read_mint_decimals_def token_account_len_def intro!: returning
      split: TokenProgram.split)

section \<open>The solver list\<close>

text \<open>The search stays inside the list, sorted or not.\<close>

lemma binary_search_loop_less:
  "0 < sz \<Longrightarrow> base + sz \<le> length xs \<Longrightarrow> binary_search_loop xs x sz base < length xs"
proof (induction xs x sz base rule: binary_search_loop.induct)
  case (1 xs x sz base)
  show ?case
  proof (cases "1 < sz")
    case True
    let ?half = "sz div 2"
    have "binary_search_loop xs x (sz - ?half) (if x < xs ! (base + ?half) then base else base + ?half) < length xs"
      using "1.IH" [OF True refl refl] "1.prems"(2) True by auto
    then show ?thesis
      using True by (subst binary_search_loop.simps) (simp only: Let_def if_True)
  next
    case False
    with "1.prems" show ?thesis by (subst binary_search_loop.simps) simp
  qed
qed

lemma binary_search_bounds:
  shows "binary_search xs x = Inr i \<Longrightarrow> i < length xs" and "binary_search xs x = Inl i \<Longrightarrow> i \<le> length xs"
  using binary_search_loop_less [of "length xs" 0 xs x]
  by (auto simp: binary_search_def Let_def split: if_splits)

lemma length_solver_region: "WIDTH_HEADER + 32 * length (solver_region d) \<le> max WIDTH_HEADER (length d)"
proof -
  obtain cs r where chunks: "as_chunks 32 (drop WIDTH_HEADER d) = (cs, r)" by fastforce
  then have "drop WIDTH_HEADER d = concat cs @ r" and "\<forall>c \<in> set cs. length c = 32"
    using as_chunks_inverse(1,2) [OF _ chunks] by simp_all
  then have "length d - WIDTH_HEADER = 32 * length cs + length r"
    using length_concat_chunks [of cs 32] by (metis length_append length_drop)
  then show ?thesis by (simp add: solver_region_def chunks)
qed

lemma insert_solver_returns:
  assumes "WIDTH_HEADER + 32 \<le> length d" and "length d < 2 ^ 63"
  shows "returns (insert_solver s d)"
proof -
  have region: "solver_region d \<noteq> []"
    using assms(1) unfolding solver_region_def by (subst as_chunks.simps) (simp split: prod.split)
  show ?thesis
  proof (cases "binary_search (butlast (solver_region d)) s")
    case (Inl index)
    have "index < length (solver_region d)"
      using binary_search_bounds(2) [OF Inl] region by (auto simp: Suc_le_eq [symmetric] neq_Nil_conv split: if_splits)
    then have "WIDTH_HEADER + 32 * Suc index \<le> length d"
      using length_solver_region [of d] assms(1) by simp
    with Inl region assms(2) show ?thesis
      by (auto simp: insert_solver_def usize_checked_mul_def usize_checked_add_def usize_checked_sub_def
          copy_within_def splice_def slice_def intro!: returning)
  qed (simp add: insert_solver_def region)
qed

lemma remove_solver_returns:
  assumes "WIDTH_HEADER \<le> length d" and "length d < 2 ^ 63"
  shows "returns (remove_solver s d)"
proof (cases "binary_search (solver_region d) s")
  case (Inr index)
  then have "WIDTH_HEADER + 32 * Suc index \<le> length d"
    using binary_search_bounds(1) length_solver_region [of d] assms(1) by fastforce
  with Inr assms(2) show ?thesis
    by (auto simp: remove_solver_def usize_checked_mul_def usize_checked_add_def usize_checked_sub_def
        copy_within_def intro!: returning)
qed (simp add: remove_solver_def)

section \<open>The handlers\<close>

lemma process_new_onchain_order_returns:
  assumes "platform_returns P" and "length intent = INTENT_SIZE"
  shows "returns (process_new_onchain_order P prog v intent owner by_v c accs)"
  using create_returns [OF assms(1)] ia_attach_returns [OF assms(2)]
  by (auto simp: process_new_onchain_order_def intro!: returning)

lemma create_order_returns: "platform_returns P \<Longrightarrow> returns (process_create_order P prog views data accs)"
  by (auto simp: process_create_order_def instruction_parse_Inr_iff
      intro!: returning process_new_onchain_order_returns dest: length_create_order_intent)

lemma create_settlement_owned_order_returns:
  "platform_returns P \<Longrightarrow> returns (process_create_settlement_owned_order P prog views data accs)"
  by (auto simp: process_create_settlement_owned_order_def instruction_parse_Inr_iff
      intro!: returning process_new_onchain_order_returns dest: length_create_settlement_owned_order_intent)

lemma check_settlement_owned_order_authority_returns [simp]:
  "returns (check_settlement_owned_order_authority P borrowed v state accs)"
  by (auto simp: check_settlement_owned_order_authority_def intro!: returning)

lemma cancel_order_returns: "platform_returns P \<Longrightarrow> returns (process_cancel_order P prog views data accs)"
  by (auto simp: process_cancel_order_def instruction_parse_Inr_iff ok_or_Inr_iff
      intro!: returning process_new_onchain_order_returns dest: length_cancel_order_intent)

lemma reclaim_order_returns:
  assumes "platform_returns P"
  shows "returns (process_reclaim_order P views data accs)"
proof -
  have "returns (is_reclaimable P v recipient owner accs)" for v recipient owner
    using platform_returnsD [OF assms]
    by (auto simp: is_reclaimable_def intro!: returning fill_progress_returns dest: ia_from_order_checked)
  then show ?thesis
    using platform_returnsD [OF assms] by (auto simp: process_reclaim_order_def intro!: returning)
qed

lemma initialize_returns: "platform_returns P \<Longrightarrow> returns (process_initialize P prog views data accs)"
  by (auto simp: process_initialize_def intro!: returning create_returns)

lemma resize_account_returns: "platform_returns P \<Longrightarrow> returns (resize_account P a n accs)"
  by (auto simp: resize_account_def platform_returnsD intro!: returning)

lemma resize_account_length:
  assumes "resize_spec P" and "resize_account P a n accs = Inr accs'"
  shows "length (acc_data (accs' a)) = n" and "n \<le> MAX_PERMITTED_DATA_LENGTH"
  using assms by (fastforce simp: resize_account_def resize_spec_def bindE_Inr_iff)+

lemma grown_len_small: "length d \<le> MAX_PERMITTED_DATA_LENGTH \<Longrightarrow> grown_len d = Inr (length d + 32)"
  by (simp add: grown_len_def usize_checked_add_def MAX_PERMITTED_DATA_LENGTH_def)

lemma permitted_length: "n \<le> MAX_PERMITTED_DATA_LENGTH \<Longrightarrow> n < 2 ^ 63"
  by (simp add: MAX_PERMITTED_DATA_LENGTH_def)

lemma add_solver_returns:
  assumes platform: "platform_returns P" and resize: "resize_spec P"
    and small: "\<forall>a. length (acc_data (accs a)) \<le> MAX_PERMITTED_DATA_LENGTH"
  shows "returns (process_add_solver P views data accs)"
proof -
  have insert: "returns (insert_solver s (acc_data (accs' a)))"
    if "resize_account P a (length d + 32) mid = Inr accs'" and "WIDTH_HEADER \<le> length d" for s a d mid accs'
    using insert_solver_returns permitted_length resize_account_length [OF resize that(1)] that(2) by simp
  show ?thesis
    using platform_returnsD [OF platform] small
    by (auto simp: process_add_solver_def state_attach_Inr_iff grown_len_small
        intro!: returning resize_account_returns [OF platform] insert)
qed

lemma remove_solver_handler_returns:
  assumes platform: "platform_returns P"
    and small: "\<forall>a. length (acc_data (accs a)) \<le> MAX_PERMITTED_DATA_LENGTH"
  shows "returns (process_remove_solver P views data accs)"
  using platform_returnsD [OF platform] small permitted_length
  by (auto simp: process_remove_solver_def state_attach_Inr_iff
      intro!: returning resize_account_returns [OF platform] remove_solver_returns)

lemma transfer_authority_returns: "returns (process_transfer_authority P views data accs)"
  by (auto simp: process_transfer_authority_def intro!: returning)

lemma withdraw_native_sol_returns: "platform_returns P \<Longrightarrow> returns (process_withdraw_native_sol P views data accs)"
  by (auto simp: process_withdraw_native_sol_def platform_returnsD intro!: returning)

lemma create_buffer_returns:
  assumes "platform_returns P"
  shows "returns (process_create_buffer P prog views data accs)"
proof -
  have "returns (create_buffers_loop P prog payer buffers accs)" for payer buffers accs
    using platform_returnsD [OF assms] create_returns [OF assms] token_operations_return [OF assms]
    by (induction buffers arbitrary: accs) (auto intro!: returning)
  then show ?thesis by (auto simp: process_create_buffer_def intro!: returning)
qed

lemma reclaim_buffer_returns:
  assumes "platform_returns P"
  shows "returns (process_reclaim_buffer P prog views data accs)"
proof -
  have "returns (reclaim_buffers_loop P prog state recipient signers buffers any_reclaimed accs)"
    for state recipient signers buffers any_reclaimed accs
    using platform_returnsD [OF assms] token_operations_return [OF assms]
    by (induction buffers arbitrary: any_reclaimed accs) (auto intro!: returning)
  then show ?thesis by (auto simp: process_reclaim_buffer_def with_state_pda_signer_def intro!: returning)
qed

section \<open>Settlements\<close>

lemma push_funds_returns:
  assumes "platform_returns P"
  shows "returns (push_funds P state signers pushes accs)"
proof -
  have "returns (push_tokens_loop P state signers ps accs)" for ps accs
    using platform_returnsD [OF assms] token_operations_return [OF assms]
    by (induction ps arbitrary: accs) (auto intro!: returning)
  moreover have "returns (push_native_loop P ps used accs)" for ps used accs
    by (induction ps arbitrary: used accs) (auto intro!: returning)
  ultimately show ?thesis by (auto simp: push_funds_def intro!: returning)
qed

lemma validate_counterpart_returns [simp]: "returns (validate_counterpart prog ixs i j own)"
  by (auto simp: validate_counterpart_def intro!: returning)

lemma finalize_settle_returns:
  assumes "platform_returns P"
  shows "returns (process_finalize_settle P prog views data accs)"
  using push_funds_returns [OF assms]
  by (auto simp: process_finalize_settle_def with_state_pda_signer_def intro!: returning)

lemma validate_no_nested_settlement_returns [simp]: "returns (validate_no_nested_settlement prog ixs i j)"
proof -
  have "returns (no_nested_loop prog ixs ks)" for ks
    by (induction ks) (auto intro!: returning)
  moreover have "checked_add i 1 \<noteq> None" if "i < j"
    using that unsigned_less [of j, where ?'a = nat] by (simp add: checked_add_def word_less_nat_alt)
  ultimately show ?thesis
    by (auto simp: validate_no_nested_settlement_def intro!: returning)
qed

lemma process_order_returns:
  assumes platform: "platform_returns P" and table: "KNOWN_BUFFER_MULTIPLIER P = Inr m"
  shows "returns (process_order P prog settled push now state signers accs)"
proof -
  have pulls: "returns (process_pulls P borrowed tp v mint state signers ps n accs)" for borrowed tp v mint ps n accs
    using platform_returnsD [OF platform] by (induction ps arbitrary: n accs) (auto intro!: returning)
  have buffer: "returns (validate_buffer_pda P a mint bump)" for a mint bump
    by (auto simp: validate_buffer_pda_def known_buffer_eq_find [OF table] intro!: returning)
  have price: "returns (validate_limit_price intent fill)" if "check_bytes intent = Inr ()" for intent fill
    using validate_limit_price_Inl [OF that, of fill Panic] by (auto simp: returns_def serr_def)
  have amounts: "returns (validated_final_amounts intent prior fill)" if "check_bytes intent = Inr ()" for intent prior fill
    using accessors_return [OF that]
    by (auto simp: validated_final_amounts_def intro!: returning split: OrderKind.split)
  show ?thesis
    using token_operations_return [OF platform]
    by (auto simp: process_order_def intro!: returning pulls buffer price amounts dest: ia_from_order_checked)
qed

lemma begin_settle_returns:
  assumes "platform_returns P" and "KNOWN_BUFFER_MULTIPLIER P = Inr m"
  shows "returns (process_begin_settle P prog views data accs)"
proof -
  have loop: "returns (settle_orders_loop P prog state signers now (map Inr orders) previous pushes accs)"
    for state signers now orders previous pushes accs
    using process_order_returns [OF assms]
    by (induction orders arbitrary: previous pushes accs) (auto intro!: returning)
  have settle: "returns (settle_orders P prog state signers (bsi_orders input) ix accs)"
    if parsed: "begin_settle_parse_body body views = Inr input" for state signers ix body and input :: "account_view BeginSettleInput"
  proof -
    obtain orders where "settled_orders_iter (bsi_orders input) = map Inr orders"
      using settled_orders_from_total begin_settle_parse_body_orders(1,2) [OF parsed]
      unfolding settled_orders_iter_def by blast
    then show ?thesis
      using loop platform_returnsD(7) [OF assms(1)]
      by (auto simp: settle_orders_def finalize_pushes_def finalize_push_data_def intro!: returning)
  qed
  show ?thesis
    by (auto simp: process_begin_settle_def with_state_pda_signer_def instruction_parse_Inr_iff
        intro!: returning intro: settle)
qed

section \<open>Property\<close>

text \<open>
  C9: no instruction panics, whatever its data and accounts are: when the platform itself answers
  with results, resizes as documented and keeps accounts within the permitted length, and the build
  found its slot multiplier, every instruction returns the accounts or an error of its own.
\<close>

theorem instructions_never_panic:
  assumes "platform_returns P" and "resize_spec P" and "KNOWN_BUFFER_MULTIPLIER P = Inr m"
    and "\<forall>a. length (acc_data (accs a)) \<le> MAX_PERMITTED_DATA_LENGTH"
  shows "process_instruction P prog views data accs \<noteq> Inl Panic"
proof -
  have "returns (process_instruction P prog views data accs)"
    unfolding process_instruction_def
    using begin_settle_returns [OF assms(1,3)] finalize_settle_returns [OF assms(1)] cancel_order_returns [OF assms(1)]
      create_order_returns [OF assms(1)] create_settlement_owned_order_returns [OF assms(1)] initialize_returns [OF assms(1)]
      create_buffer_returns [OF assms(1)] reclaim_order_returns [OF assms(1)] reclaim_buffer_returns [OF assms(1)]
      transfer_authority_returns add_solver_returns [OF assms(1,2,4)] remove_solver_handler_returns [OF assms(1,4)]
      withdraw_native_sol_returns [OF assms(1)]
    by (auto intro!: returning split: SettlementInstruction.split)
  then show ?thesis by (simp add: returns_def)
qed

end
