(* ===== verification/Refinement.thy ===== *)
theory Refinement
  imports Processor
begin

text \<open>
  The configuration of the protocol as an abstract machine, and that the program refines it. The
  abstract state is who holds each role and which solvers are registered, with no bytes, no sorted
  list and no account; the program's thirteen instructions act on it as three requests.
\<close>

section \<open>The specification\<close>

record config =
  cf_authority :: "Role \<Rightarrow> pubkey"
  cf_solvers :: "pubkey set"

datatype config_request =
    RequestAdd pubkey
  | RequestRemove pubkey
  | RequestTransfer Role pubkey

fun config_spec :: "config_request \<Rightarrow> pubkey \<Rightarrow> config \<Rightarrow> config option" where
  "config_spec (RequestAdd s) signer c =
     (if signer = cf_authority c SolverAuthority \<and> s \<notin> cf_solvers c
      then Some (c\<lparr>cf_solvers := insert s (cf_solvers c)\<rparr>) else None)"
| "config_spec (RequestRemove s) signer c =
     (if signer = cf_authority c SolverAuthority \<and> s \<in> cf_solvers c
      then Some (c\<lparr>cf_solvers := cf_solvers c - {s}\<rparr>) else None)"
| "config_spec (RequestTransfer r new) signer c =
     (if signer = cf_authority c Manager \<or> signer = cf_authority c r
      then Some (c\<lparr>cf_authority := (cf_authority c)(r := new)\<rparr>) else None)"

text \<open>How a request is written on the wire, and the configuration that account bytes hold.\<close>

fun request_data :: "config_request \<Rightarrow> bytes" where
  "request_data (RequestAdd s) = ix_discriminator AddSolver # to_bytes s"
| "request_data (RequestRemove s) = ix_discriminator RemoveSolver # to_bytes s"
| "request_data (RequestTransfer r new) = ix_discriminator TransferAuthority # role_discriminator r # to_bytes new"

definition config_of :: "bytes \<Rightarrow> config" where
  "config_of d = \<lparr>cf_authority = state_authority d, cf_solvers = set (state_solvers d)\<rparr>"

text \<open>A request that the signer was entitled to, and its effect.\<close>

definition serves :: "account_view \<Rightarrow> config_request \<Rightarrow> bytes \<Rightarrow> bytes \<Rightarrow> bool" where
  "serves signer request d d' \<longleftrightarrow>
     av_is_signer signer \<and> config_spec request (av_address signer) (config_of d) = Some (config_of d')"

section \<open>The three requests\<close>

lemma add_solver_serves:
  assumes rules: "runtime_rules P prog" and owned: "acc_owner (accs (STATE_PDA P)) = prog"
    and wf: "state_wf (acc_data (accs (STATE_PDA P)))" and room: "state_room (acc_data (accs (STATE_PDA P)))"
    and run: "process_add_solver P views data accs = Inr accs'"
  shows "\<exists>s. data = request_data (RequestAdd s) \<and>
    serves (views ! 0) (RequestAdd s) (acc_data (accs (STATE_PDA P))) (acc_data (accs' (STATE_PDA P)))"
proof -
  let ?d = "acc_data (accs (STATE_PDA P))"
  from run obtain authority payer state_v rest solver new_len mid acc d where
    views: "views = authority # payer # state_v # rest" and data: "data = ix_discriminator AddSolver # to_bytes solver"
    and "av_address state_v = STATE_PDA P" "state_attach ?d = Inr ?d"
    and auth: "av_is_signer authority" "av_address authority = state_authority ?d SolverAuthority"
    and len: "grown_len ?d = Inr new_len"
    and mid: "mid = accs \<or> (\<exists>lamports. pf_invoke P [] (SystemTransfer payer state_v lamports) accs = Inr mid)"
    and resize: "pf_resize P (mid (STATE_PDA P)) new_len = Inr acc"
    and "state_attach (acc_data acc) = Inr (acc_data acc)"
    and d: "insert_solver solver (acc_data acc) = Inr d"
    and accs': "accs' = set_data (STATE_PDA P) d (mid(STATE_PDA P := acc))"
    by (rule process_add_solver_Inr)
  have "grow_and_insert solver ?d = Inr d"
    by (rule add_solver_grows [OF rules owned mid len resize d])
  note added = state_solver_set.add_Inr [OF wf room this]
  have "config_of d = (config_of ?d)\<lparr>cf_solvers := insert solver (cf_solvers (config_of ?d))\<rparr>"
    using added state_authority_header [OF added(3)] by (simp add: config_of_def fun_eq_iff)
  then show ?thesis
    using views data auth added(4) by (auto simp: serves_def accs' config_of_def)
qed

lemma remove_solver_serves:
  assumes rules: "runtime_rules P prog"
    and wf: "state_wf (acc_data (accs (STATE_PDA P)))" and room: "state_room (acc_data (accs (STATE_PDA P)))"
    and run: "process_remove_solver P views data accs = Inr accs'"
  shows "\<exists>s. data = request_data (RequestRemove s) \<and>
    serves (views ! 0) (RequestRemove s) (acc_data (accs (STATE_PDA P))) (acc_data (accs' (STATE_PDA P)))"
proof -
  let ?d = "acc_data (accs (STATE_PDA P))" and ?d' = "acc_data (accs' (STATE_PDA P))"
  have "resize_spec P" using rules by (simp add: runtime_rules_def)
  then obtain s where data: "data = ix_discriminator RemoveSolver # to_bytes s"
    and cut: "remove_and_cut s ?d = Inr ?d'"
    using run by (rule process_remove_solver_cut)
  have auth: "av_is_signer (views ! 0)" "av_address (views ! 0) = state_authority ?d SolverAuthority"
    using run by (rule process_remove_solver_Inr, simp)+
  note removed = state_solver_set.rem_Inr [OF wf room cut]
  have "config_of ?d' = (config_of ?d)\<lparr>cf_solvers := cf_solvers (config_of ?d) - {s}\<rparr>"
    using removed state_authority_header [OF removed(3)] by (simp add: config_of_def fun_eq_iff)
  then show ?thesis
    using data auth removed(4) by (auto simp: serves_def config_of_def)
qed

lemma transfer_authority_serves:
  assumes "process_transfer_authority P views data accs = Inr accs'"
  shows "\<exists>r new. data = request_data (RequestTransfer r new) \<and>
    serves (views ! 0) (RequestTransfer r new) (acc_data (accs (STATE_PDA P))) (acc_data (accs' (STATE_PDA P)))"
proof -
  let ?d = "acc_data (accs (STATE_PDA P))"
  from assms obtain signer state_v rest role new_authority where
    views: "views = signer # state_v # rest"
    and data: "data = ix_discriminator TransferAuthority # role_discriminator role # to_bytes new_authority"
    and "av_address state_v = STATE_PDA P" and signer: "av_is_signer signer"
    and state: "state_attach ?d = Inr ?d"
    and auth: "av_address signer \<in> {state_authority ?d Manager, state_authority ?d role}"
    and accs': "accs' = set_data (STATE_PDA P) (state_set_authority role new_authority ?d) accs"
    by (rule process_transfer_authority_Inr)
  have len: "WIDTH_HEADER \<le> length ?d" using state by (simp add: state_attach_Inr_iff)
  have "config_of (state_set_authority role new_authority ?d) =
      (config_of ?d)\<lparr>cf_authority := (cf_authority (config_of ?d))(role := new_authority)\<rparr>"
    using state_set_authority_reads(1) [OF len] state_set_authority_solvers [OF len]
    by (simp add: config_of_def fun_eq_iff)
  then show ?thesis
    using views data signer auth
    by (intro exI [of _ role] exI [of _ new_authority]) (auto simp: serves_def accs' config_of_def set_data_def)
qed

section \<open>Property\<close>

text \<open>
  C8: the program refines the abstract configuration machine: from a reachable state, a successful
  instruction either is one of the three requests, signed by an account the specification entitles
  to it, and takes the configuration where the specification says, or it leaves the
  configuration as it was.
\<close>

theorem configuration_refines_spec:
  assumes "reachable prog accs" and "runtime_rules P prog" and "is_state prog accs (STATE_PDA P)"
    and "process_instruction P prog views data accs = Inr accs'"
  shows "let c = config_of (acc_data (accs (STATE_PDA P))); c' = config_of (acc_data (accs' (STATE_PDA P))) in
    (\<exists>request. data = request_data request \<and> av_is_signer (views ! 0) \<and>
       config_spec request (av_address (views ! 0)) c = Some c') \<or> c' = c"
proof -
  let ?a = "STATE_PDA P"
  note wf = reachable_state_wf [OF assms(1,3)]
  have owned: "acc_owner (accs ?a) = prog" using assms(3) by simp
  obtain i body where data: "data = ix_discriminator i # body"
    using assms(4) by (auto simp: process_instruction_def bindE_Inr_iff recover_discriminator_Inr_iff)
  consider "i = AddSolver" | "i = RemoveSolver" | "i = TransferAuthority" | "i \<notin> {AddSolver, RemoveSolver, TransferAuthority}"
    by blast
  then have "(\<exists>request. data = request_data request \<and> serves (views ! 0) request (acc_data (accs ?a)) (acc_data (accs' ?a))) \<or>
      acc_data (accs' ?a) = acc_data (accs ?a)"
  proof cases
    case 4
    then show ?thesis
      using other_instructions_keep_config [OF assms(2) reachable_states_inv [OF assms(1)] assms(4) [unfolded data]] assms(3)
      by (simp add: config_kept_def)
  next
    case 1
    then have "process_add_solver P views data accs = Inr accs'"
      using assms(4) unfolding data process_instruction_def recover_discriminator_Cons by simp
    then show ?thesis using add_solver_serves [where accs = accs, OF assms(2) owned] wf by blast
  next
    case 2
    then have "process_remove_solver P views data accs = Inr accs'"
      using assms(4) unfolding data process_instruction_def recover_discriminator_Cons by simp
    then show ?thesis using remove_solver_serves [OF assms(2)] wf by blast
  next
    case 3
    then have "process_transfer_authority P views data accs = Inr accs'"
      using assms(4) unfolding data process_instruction_def recover_discriminator_Cons by simp
    then show ?thesis using transfer_authority_serves by blast
  qed
  then show ?thesis by (auto simp: serves_def Let_def)
qed

end
