(* ===== verification/Liveness.thy ===== *)
theory Liveness
  imports Processor
begin

text \<open>
  What users can count on: the owner of an order can always cancel it, alone and at once, and the
  rent of an expired order can always be claimed. Nothing here depends on solvers, on the roles or
  on a token program.
\<close>

section \<open>Cancelling\<close>

lemma reachable_order_checked:
  assumes "reachable prog accs" and "is_order prog accs a"
  shows "ia_from_order (acc_data (accs a)) = Inr (order_intent_bytes (acc_data (accs a)))"
proof -
  have "order_inv (acc_data (accs a))"
    using reachable_orders_inv [OF assms(1)] assms(2) by (simp add: orders_inv_def)
  then have "check_bytes (order_intent_bytes (acc_data (accs a))) = Inr ()"
    using assms(2) by (auto simp: order_inv_def intro: fill_ok_checked)
  then show ?thesis by (simp add: ia_from_order_def ia_attach_def)
qed

lemma fill_progress_total:
  assumes "check_bytes intent = Inr ()"
  shows "\<exists>p. fill_progress intent fill = Inr p"
proof -
  obtain sell buy flags where "ia_sell_amount intent = Inr sell" "ia_buy_amount intent = Inr buy"
    "ia_flags intent = Inr flags"
    using assms by (rule accessor_total)
  then show ?thesis by (cases "fl_kind flags") (simp_all add: fill_progress_def)
qed

text \<open>A cancelled order still loads, and every attempt to settle it is refused.\<close>

lemma load_cancelled:
  assumes "order_load_from_pda P accs v prog = Inr order"
  shows "order_load_from_pda P (set_data (av_address v) (order_set_cancelled order) accs) v prog =
    Inr (order_set_cancelled order)"
proof -
  have len: "length order = ORDER_SIZE" and order: "order_attach order = Inr order" "order_check_pda P order (av_address v) prog = Inr ()"
    using assms by (auto simp: order_load_from_pda_Inr_iff order_attach_Inr_iff)
  then have "order_attach (order_set_cancelled order) = Inr (order_set_cancelled order)"
    using order_set_cancelled_reads(7) [OF len] by (simp add: order_attach_Inr_iff order_set_cancelled_def length_splice ORDER_SIZE_def)
  moreover have "order_check_pda P (order_set_cancelled order) (av_address v) prog = Inr ()"
    using order(2) order_set_cancelled_reads [OF len] by (simp add: order_check_pda_def order_intent_uid_def)
  ultimately show ?thesis by (simp add: order_load_from_pda_Inr_iff)
qed

lemma cancelled_order_refused:
  assumes "order_load_from_pda P accs (so_order_pda settled) prog = Inr order" and "order_cancelled order = Inr True"
  shows "process_order P prog settled push now state signers accs = Inl (serr OrderCancelled)"
  using assms by (simp add: process_order_def Let_def)

section \<open>Properties\<close>

text \<open>
  C10: in every reachable state, the owner of an order that loads can cancel it with nothing but their
  own signature; afterwards every attempt to settle it, with any push and any pulls, is refused
  with \<open>OrderCancelled\<close>.
\<close>

theorem owner_can_always_cancel:
  assumes "reachable prog accs" and "is_order prog accs (av_address v)"
    and "order_load_from_pda P accs v prog = Inr order"
    and "av_is_signer owner" and "av_address owner = ia_owner (order_intent_bytes order)"
    and "ia_owner (order_intent_bytes order) \<noteq> STATE_PDA P"
  shows "\<exists>accs'. process_cancel_order P prog [owner, payer, v, system] [ix_discriminator CancelOrder] accs = Inr accs' \<and>
    order_cancelled (acc_data (accs' (av_address v))) = Inr True \<and>
    (\<forall>settled push now state signers. so_order_pda settled = v \<longrightarrow>
       process_order P prog settled push now state signers accs' = Inl (serr OrderCancelled))"
proof -
  have order: "order = acc_data (accs (av_address v))" and len: "length order = ORDER_SIZE"
    using assms(3) by (auto simp: order_load_from_pda_Inr_iff order_attach_Inr_iff)
  let ?accs = "set_data (av_address v) (order_set_cancelled order) accs"
  have "process_cancel_order P prog [owner, payer, v, system] [ix_discriminator CancelOrder] accs = Inr ?accs"
    unfolding process_cancel_order_def
    using assms(2-6) reachable_order_checked [OF assms(1,2)]
    by (simp add: instruction_parse_def cancel_order_parse_body_def order del: ix_discriminator.simps)
  moreover have "order_cancelled (order_set_cancelled order) = Inr True"
    by (rule order_set_cancelled_reads(2) [OF len])
  ultimately show ?thesis
    using cancelled_order_refused load_cancelled [OF assms(3)] by auto
qed

text \<open>
  C20: in every reachable state, anyone can close an order that has expired and send its rent to the
  account that paid for it, whatever was filled and whether or not it was cancelled, as long as
  the two balances fit a \<open>u64\<close> and the runtime closes accounts. Afterwards the order's account is
  empty and gone, its whole balance has been added to that of the recipient, whose data and owner
  stay as they were, and no other account has changed.
\<close>

theorem expired_order_can_be_reclaimed:
  assumes "reachable (program_ID P) accs" and "is_order (program_ID P) accs (av_address v)"
    and "order_load_from_pda P accs v (program_ID P) = Inr order"
    and "av_address recipient = order_created_by order"
    and "pf_clock P = Inr now" and "int (unat (ia_valid_to (order_intent_bytes order))) < now"
    and "unat (acc_lamports (view_account accs recipient)) + unat (acc_lamports (view_account accs v)) < 2 ^ 64"
    and "\<forall>a. pf_close P a = Inr \<lparr>acc_owner = pf_system_program_id P, acc_lamports = 0, acc_data = []\<rparr>"
  shows "\<exists>accs'. process_reclaim_order P [v, recipient] [ix_discriminator ReclaimOrder] accs = Inr accs' \<and>
    accs' (av_address v) = \<lparr>acc_owner = pf_system_program_id P, acc_lamports = 0, acc_data = []\<rparr> \<and>
    (av_address recipient \<noteq> av_address v \<longrightarrow>
      unat (acc_lamports (view_account accs' recipient)) =
        unat (acc_lamports (view_account accs recipient)) + unat (acc_lamports (view_account accs v)) \<and>
      acc_data (view_account accs' recipient) = acc_data (view_account accs recipient) \<and>
      acc_owner (view_account accs' recipient) = acc_owner (view_account accs recipient)) \<and>
    (\<forall>b. b \<notin> {av_address v, av_address recipient} \<longrightarrow> accs' b = accs b)"
proof -
  have order: "order = acc_data (accs (av_address v))"
    using assms(3) by (simp add: order_load_from_pda_Inr_iff)
  have intent: "ia_from_order order = Inr (order_intent_bytes order)"
    using reachable_order_checked [OF assms(1,2)] by (simp add: order)
  then have "check_bytes (order_intent_bytes order) = Inr ()"
    by (auto simp: ia_from_order_def result_simps)
  then obtain p where progress: "fill_progress (order_intent_bytes order) (order_filled_amounts order) = Inr p"
    using fill_progress_total by blast
  have "is_reclaimable P v recipient None accs = Inr True"
    using assms(3-6) intent progress by (cases p) (simp add: is_reclaimable_def)
  moreover obtain credited where "checked_add (acc_lamports (view_account accs recipient)) (acc_lamports (view_account accs v)) = Some credited"
    and "unat credited = unat (acc_lamports (view_account accs recipient)) + unat (acc_lamports (view_account accs v))"
    using assms(7) by (simp add: checked_add_def unat_word_ariths(1))
  ultimately show ?thesis
    using assms(8)
    by (simp add: process_reclaim_order_def instruction_parse_def reclaim_order_parse_body_def first_def Let_def
        set_lamports_def del: ix_discriminator.simps)
qed

end
