(* ===== verification/Witnesses.thy ===== *)
theory Witnesses
  imports SettleRun NoPanic Refinement Liveness
begin

text \<open>
  The properties of the other theories at the steps of the run: each theorem here applies one
  property to accounts, instruction data and a platform at which all its hypotheses hold.
\<close>

section \<open>The states of the run are reachable\<close>

lemma chain0_reachable: "reachable program chain0"
  by (rule reachable.deployed) (simp add: chain0_def)

lemma run_reachable_step:
  "reachable program accs \<Longrightarrow> process_instruction (toy_at now ixs i) program views data accs = Inr accs' \<Longrightarrow>
    reachable program accs'"
  using reachable.stepped step.program_step toy_program_rules by metis

lemma chain1_reachable: "reachable program chain1"
  using run_reachable_step [OF chain0_reachable, of 100 "[]" 0 initialize_views initialize_data]
  by (simp add: process_instruction_def run_initialize del: ix_discriminator.simps to_bytes_fill32)

lemma add_solver_instruction_runs:
  "process_instruction toy program solver_views (ix_discriminator AddSolver # to_bytes solver) chain1 = Inr chain2"
  by (simp add: process_instruction_def run_add_solver del: ix_discriminator.simps to_bytes_fill32)

lemma chain2_reachable: "reachable program chain2"
  by (rule run_reachable_step [OF chain1_reachable add_solver_instruction_runs])

lemma create_order_instruction_runs:
  "process_instruction (toy_at now ixs i) program create_order_views (ix_discriminator CreateOrder # trade_bytes) chain2 =
    Inr chain3"
  by (simp add: process_instruction_def run_create_order del: ix_discriminator.simps)

lemma chain3_reachable: "reachable program chain3"
  by (rule run_reachable_step [OF chain2_reachable create_order_instruction_runs])

section \<open>Configuration\<close>

theorem initialize_sets_roles_witness:
  "process_initialize toy program initialize_views initialize_data chain0 = Inr chain1 \<and>
   acc_owner (chain1 state_pda) = program \<and> state_wf (acc_data (chain1 state_pda)) \<and>
   state_solvers (acc_data (chain1 state_pda)) = []"
  using initialize_sets_roles [OF toy_program_rules run_initialize] run_initialize
  by (simp add: Let_def del: to_bytes_fill32)

theorem initialize_only_once_witness:
  "acc_owner (chain1 (STATE_PDA toy)) = program_ID toy \<and>
   process_initialize toy (program_ID toy) initialize_views initialize_data chain1 \<noteq> Inr chain1"
  using initialize_only_once [of toy chain1 initialize_views initialize_data chain1]
  by (simp add: chain1_def del: to_bytes_fill32)

theorem add_solver_adds_one_witness:
  "process_add_solver toy solver_views (ix_discriminator AddSolver # to_bytes solver) chain1 = Inr chain2 \<and>
   (\<exists>s. ix_discriminator AddSolver # to_bytes solver = ix_discriminator AddSolver # to_bytes s \<and>
     \<not> is_solver (acc_data (chain1 state_pda)) s \<and> is_solver (acc_data (chain2 state_pda)) s)"
proof -
  have state: "acc_owner (chain1 (STATE_PDA toy)) = program" "acc_data (chain1 (STATE_PDA toy)) = header"
    by (simp_all add: chain1_def)
  have "state_room header" by (simp add: state_room_def WIDTH_HEADER_def)
  then show ?thesis
    using add_solver_adds_one [OF toy_program_rules _ _ _ run_add_solver] state header_reads(1) run_add_solver
    by (simp add: Let_def del: ix_discriminator.simps to_bytes_fill32)
qed

theorem remove_solver_removes_one_witness:
  "process_remove_solver toy remove_views (ix_discriminator RemoveSolver # to_bytes solver) chain2 = Inr chain1 \<and>
   (\<exists>s. ix_discriminator RemoveSolver # to_bytes solver = ix_discriminator RemoveSolver # to_bytes s \<and>
     is_solver (acc_data (chain2 state_pda)) s \<and> \<not> is_solver (acc_data (chain1 state_pda)) s)"
proof -
  have "acc_data (chain2 (STATE_PDA toy)) = one_solver"
    by (simp add: chain2_def)
  then show ?thesis
    using remove_solver_removes_one [OF toy_program_rules _ _ run_remove_solver] one_solver_reads(1,2) run_remove_solver
    by (simp add: Let_def del: ix_discriminator.simps to_bytes_fill32)
qed

theorem reachable_solver_list_sorted_witness:
  "reachable program chain2 \<and> is_state program chain2 state_pda \<and>
   (is_solver (acc_data (chain2 state_pda)) solver \<longleftrightarrow> solver \<in> set (state_solvers (acc_data (chain2 state_pda))))"
proof -
  have state: "is_state program chain2 state_pda"
    by (simp add: chain2_def one_solver_reads)
  then show ?thesis
    using reachable_solver_list_sorted [OF chain2_reachable state] chain2_reachable by blast
qed

theorem removed_solver_cannot_settle_witness:
  "reachable program chain2 \<and>
   process_remove_solver toy remove_views (ix_discriminator RemoveSolver # to_bytes solver) chain2 = Inr chain1 \<and>
   process_begin_settle toy program [signing solver] [] chain1 \<noteq> Inr chain1"
proof -
  have "acc_owner (chain2 (STATE_PDA toy)) = program" by (simp add: chain2_def)
  from removed_solver_cannot_settle [OF chain2_reachable toy_program_rules this run_remove_solver refl,
      of "[signing solver]" "[]" chain1]
  show ?thesis using chain2_reachable run_remove_solver by simp
qed

theorem only_three_instructions_change_configuration_witness:
  "reachable program chain2 \<and> is_state program chain2 state_pda \<and>
   process_instruction toy program create_order_views (ix_discriminator CreateOrder # trade_bytes) chain2 = Inr chain3 \<and>
   acc_data (chain3 state_pda) = acc_data (chain2 state_pda)"
proof -
  have state: "is_state program chain2 state_pda"
    by (simp add: chain2_def one_solver_reads)
  from only_three_instructions_change_configuration [OF chain2_reachable toy_program_rules state
      create_order_instruction_runs [of 100 "[]" 0]]
  show ?thesis using chain2_reachable state create_order_instruction_runs by simp
qed

section \<open>Orders\<close>

theorem process_instruction_rejects_unknown_witness:
  "(\<forall>i. hd [13 :: u8] \<noteq> ix_discriminator i) \<and>
   process_instruction toy program [] [13] chain0 = Inl InvalidInstructionData"
proof -
  have unknown: "hd [13 :: u8] \<noteq> ix_discriminator i" for i by (cases i) simp_all
  then show ?thesis
    using process_instruction_rejects_unknown [of "[13]" toy program "[]" chain0] by blast
qed

theorem limit_price_check_exact_witness:
  "intent_try_from toy trade_bytes = Inr trade \<and>
   validate_limit_price trade_bytes \<lparr>fa_withdrawn = 100, fa_received = 50\<rparr> = Inr () \<and>
   validate_limit_price trade_bytes \<lparr>fa_withdrawn = 100, fa_received = 49\<rparr> = Inl (serr LimitPriceViolated)"
  using limit_price_check_exact [OF trade_decode [of 100 "[]" 0]] by (simp add: trade_def)

lemma chain3_order: "chain3 order_pda = \<lparr>acc_owner = program, acc_lamports = 10, acc_data = order_bytes False 0 0\<rparr>"
  by (simp add: chain3_def with_order_def)

lemma chain3_is_order: "is_order program chain3 order_pda"
  by (simp add: chain3_order order_bytes_reads)

theorem create_order_authorised_witness:
  "process_create_order toy program create_order_views (ix_discriminator CreateOrder # trade_bytes) chain2 = Inr chain3 \<and>
   order_attach (acc_data (chain3 order_pda)) = Inr (acc_data (chain3 order_pda)) \<and>
   order_created_by (acc_data (chain3 order_pda)) = addr 62"
  using create_order_authorised [OF run_create_order [of 100 "[]" 0]] run_create_order by auto

theorem created_order_loads_witness:
  "create_signer_rule toy program \<and>
   process_create_order toy program create_order_views (ix_discriminator CreateOrder # trade_bytes) chain2 = Inr chain3 \<and>
   order_load_from_pda toy chain3 (plain order_pda) program = Inr (acc_data (chain3 order_pda))"
  using created_order_loads [OF toy_signer_rule run_create_order [of 100 "[]" 0]] run_create_order by simp

theorem reachable_orders_within_limits_witness:
  "reachable program chain3 \<and> is_order program chain3 order_pda \<and>
   intent_try_from toy (order_intent_bytes (acc_data (chain3 order_pda))) = Inr trade \<and>
   fa_withdrawn (order_filled_amounts (acc_data (chain3 order_pda))) \<le> 100"
proof -
  have intent: "intent_try_from toy (order_intent_bytes (acc_data (chain3 order_pda))) = Inr trade"
    by (simp add: chain3_order order_bytes_reads)
  from reachable_orders_within_limits [OF chain3_reachable chain3_is_order intent]
  show ?thesis using chain3_reachable chain3_is_order intent by (simp add: Let_def trade_def)
qed

theorem reachable_orders_decode_witness:
  "reachable program chain3 \<and> is_order program chain3 order_pda \<and>
   (\<exists>i. intent_try_from toy (order_intent_bytes (acc_data (chain3 order_pda))) = Inr i)"
  using reachable_orders_decode [OF chain3_reachable chain3_is_order, of toy] chain3_reachable chain3_is_order
  by blast

theorem orders_only_evolve_witness:
  "reachable program chain3 \<and> is_order program chain3 order_pda \<and> run_without_closing program order_pda chain3 chain4 \<and>
   order_filled_amounts (acc_data (chain4 order_pda)) = \<lparr>fa_withdrawn = 100, fa_received = 60\<rparr> \<and>
   order_intent_bytes (acc_data (chain4 order_pda)) = order_intent_bytes (acc_data (chain3 order_pda))"
proof -
  have "process_instruction (toy_at 100 settle_ixs 0) program begin_views begin_data chain3 = Inr chain4"
    unfolding process_instruction_def recover_discriminator_Cons using run_begin_settle by simp
  then have "step program chain3 chain4"
    using step.program_step toy_program_rules by metis
  moreover have filled: "acc_data (chain4 order_pda) = order_bytes False 100 60"
    by (simp add: chain4_def with_order_def)
  moreover have "order_bytes False 100 60 \<noteq> []" by (simp add: order_bytes_def)
  ultimately have run: "run_without_closing program order_pda chain3 chain4"
    unfolding run_without_closing_def by (simp add: r_into_rtranclp)
  from orders_only_evolve [OF chain3_reachable chain3_is_order run]
  show ?thesis using chain3_reachable chain3_is_order run by (simp add: Let_def filled order_bytes_reads)
qed

theorem create_settlement_owned_order_authorised_witness:
  "\<exists>accs'. process_create_settlement_owned_order toy program fee_views
     (ix_discriminator CreateSettlementOwnedOrder # fee_bytes) chain2 = Inr accs' \<and>
   order_intent_bytes (acc_data (accs' (addr 202))) = fee_bytes"
  using create_settlement_owned_order_authorised [OF run_create_settlement_owned_order] run_create_settlement_owned_order
  by auto

theorem cancel_order_authorised_witness:
  "process_cancel_order toy program cancel_views [ix_discriminator CancelOrder] chain3 = Inr (with_order True 0 0 chain2) \<and>
   order_cancelled (acc_data (with_order True 0 0 chain2 order_pda)) = Inr True"
  using cancel_order_authorised [OF run_cancel_order] run_cancel_order by (simp add: Let_def)

theorem reclaim_order_refunds_payer_witness:
  "close_spec (toy_at 2000 [] 0) \<and> (\<exists>accs'.
   process_reclaim_order (toy_at 2000 [] 0) [plain order_pda, plain (addr 62)] [ix_discriminator ReclaimOrder] chain3 = Inr accs' \<and>
   acc_data (accs' order_pda) = [] \<and>
   unat (acc_lamports (accs' (addr 62))) = unat (acc_lamports (chain3 (addr 62))) + unat (acc_lamports (chain3 order_pda)))"
proof -
  have close: "close_spec (toy_at 2000 [] 0)"
    using toy_program_rules by (simp add: runtime_rules_def)
  from reclaim_order_refunds_payer [OF close run_reclaim_order]
  show ?thesis using close run_reclaim_order by (simp add: Let_def chain3_order order_bytes_reads)
qed

section \<open>Roles, native SOL and buffers\<close>

theorem transfer_authority_changes_one_role_witness:
  "\<exists>accs'. process_transfer_authority toy [signing (addr 10), plain state_pda] transfer_data chain1 = Inr accs' \<and>
   state_solvers (acc_data (accs' state_pda)) = state_solvers (acc_data (chain1 state_pda)) \<and>
   accs' native_buffer = chain1 native_buffer"
  using transfer_authority_changes_one_role [OF run_transfer_authority] run_transfer_authority
  by (auto simp: Let_def simp del: ix_discriminator.simps role_discriminator.simps to_bytes_fill32)

theorem withdraw_native_sol_keeps_rent_witness:
  "\<exists>accs'. process_withdraw_native_sol toy withdraw_views (ix_discriminator WithdrawNativeSol # to_le 8 (50 :: u64))
     (funded 40) = Inr accs' \<and> accs' state_pda = funded 40 state_pda"
  using withdraw_native_sol_keeps_rent [OF run_withdraw] run_withdraw
  by (auto simp: Let_def simp del: ix_discriminator.simps)

theorem create_buffer_idempotent_witness:
  "process_create_buffer toy program create_buffer_views [ix_discriminator CreateBuffer] chain0 = Inr chain0"
proof -
  have "pf_spl_token_id toy = spl_token" by (simp add: toy_at_def)
  moreover have "create_buffer_buffers \<lparr>cbi_payer = signing (addr 63), cbi_buffer_pairs = [[plain buy_buffer, plain buy_mint]]\<rparr> =
      [\<lparr>ba_buffer_pda = plain buy_buffer, ba_mint = plain buy_mint\<rparr>]"
    by (simp add: create_buffer_buffers_def)
  ultimately show ?thesis
    using create_buffer_idempotent [OF create_buffer_parses, of chain0 toy program] by (simp add: chain0_def)
qed

theorem reclaim_buffer_authorised_witness:
  "process_reclaim_buffer toy program reclaim_buffer_views (ix_discriminator ReclaimBuffer # to_le 8 (70 :: u64)) chain1 =
     Inr chain1 \<and>
   (\<exists>input. instruction_parse ReclaimBuffer reclaim_buffer_parse_body (ix_discriminator ReclaimBuffer # to_le 8 (70 :: u64))
     reclaim_buffer_views = Inr input \<and> av_is_signer (rbi_reclaim_authority input))"
  using reclaim_buffer_authorised [OF run_reclaim_buffer] run_reclaim_buffer by blast

theorem reclaim_buffer_respects_limit_witness:
  "process_reclaim_buffer toy program reclaim_buffer_views (ix_discriminator ReclaimBuffer # to_le 8 (6 :: u64)) chain1 =
     Inl (serr ReclaimBufferBurnLimitExceeded)"
proof -
  have iter: "buffers_iter (rbi_buffers (reclaim_input 6)) =
      [\<lparr>bu_buffer_pda = plain buy_buffer, bu_mint = plain buy_mint, bu_burn_limit = 6\<rparr>]"
    by (simp add: buffers_iter_def reclaim_input_def)
  have state: "acc_data (chain1 state_pda) = header" by (simp add: chain1_def)
  have token: "owning_token_program toy chain1 (plain buy_buffer) = Inr SplToken"
    "read_token_account toy [] SplToken (plain buy_buffer) chain1 =
      Inr \<lparr>tka_mint = buy_mint, tka_owner = state_pda, tka_amount = 70\<rparr>"
    by (simp_all add: toy_tokens toy_reads_token chain1_buffer)
  show ?thesis
    by (rule reclaim_buffer_respects_limit [OF reclaim_buffer_parses])
      (simp_all add: iter token, simp_all add: reclaim_input_def state header_reads)
qed

section \<open>Settlements\<close>

theorem begin_settle_needs_solver_witness:
  "process_begin_settle (toy_at 100 settle_ixs 0) program begin_views begin_data chain3 = Inr chain4 \<and>
   is_solver (acc_data (chain3 state_pda)) solver"
  using begin_settle_needs_solver [OF run_begin_settle] run_begin_settle by auto

theorem begin_settle_paired_with_finalize_witness:
  "process_begin_settle (toy_at 100 settle_ixs 0) program begin_views begin_data chain3 = Inr chain4 \<and>
   (\<exists>j rest. begin_data = ix_discriminator BeginSettle # to_le 2 j @ rest \<and> 0 < (j :: u16))"
proof -
  have "pf_current_index (toy_at 100 settle_ixs 0) = 0" by (simp add: toy_at_def)
  with begin_settle_paired_with_finalize [OF run_begin_settle] show ?thesis using run_begin_settle by metis
qed

theorem begin_settle_accounts_for_every_order_witness:
  "invoke_frame (toy_at 100 settle_ixs 0) program \<and>
   process_begin_settle (toy_at 100 settle_ixs 0) program begin_views begin_data chain3 = Inr chain4 \<and>
   (\<exists>now orders pushes. orders_settled (toy_at 100 settle_ixs 0) program now orders pushes chain3 chain4)"
  using begin_settle_accounts_for_every_order [OF toy_program_frame run_begin_settle] run_begin_settle toy_program_frame
  by blast

theorem settled_order_sells_its_owners_tokens_witness:
  "process_order toy program settled_trade trade_push 100 (plain state_pda) [] chain3 = Inr chain4 \<and>
   (\<exists>tp mid. owning_token_program toy chain3 (plain sell_account) = Inr tp \<and>
     token_moved toy [order_pda] tp (plain sell_account) (plain pull_account) (plain state_pda) [] 100 chain3 mid \<and>
     chain4 sell_account = mid sell_account \<and> chain4 pull_account = mid pull_account) \<and>
   acc_data (chain3 pull_account) = token_data sell_mint state_pda 0 \<and>
   acc_data (chain4 pull_account) = token_data sell_mint state_pda 100"
proof -
  have pulls: "zip (so_destinations settled_trade) (so_amounts settled_trade) = [(plain pull_account, to_le 8 (100 :: u64))]"
    and views: "so_sell_token_account settled_trade = plain sell_account" "order_address settled_trade = order_pda"
    by (simp_all add: settled_trade_def)
  have balances: "acc_data (chain3 pull_account) = token_data sell_mint state_pda 0" "acc_data (chain4 pull_account) = token_data sell_mint state_pda 100"
    by (simp_all add: chain4_def chain3_def with_order_def chain2_def chain1_def chain0_def)
  note facts = settled_order_sells_its_owners_tokens [OF toy_program_frame run_process_order [of "[]" 0 "plain state_pda" "[]"],
      unfolded Let_def pulls views]
  from facts obtain tp mid where tp: "owning_token_program toy chain3 (plain sell_account) = Inr tp"
    and moved: "steps_through (\<lambda>(destination, amount). token_moved toy [order_pda] tp (plain sell_account) destination
        (plain state_pda) [] (from_le amount)) [(plain pull_account, to_le 8 (100 :: u64))] chain3 mid"
    and rest: "\<forall>b. b \<noteq> order_pda \<longrightarrow> chain4 b = mid b"
    by (elim exE conjE) (rule that)
  have "token_moved toy [order_pda] tp (plain sell_account) (plain pull_account) (plain state_pda) [] 100 chain3 mid"
    using moved by simp
  with balances show ?thesis using run_process_order [of "[]" 0 "plain state_pda" "[]"] tp rest by auto
qed

theorem finalize_pays_what_begin_validated_witness:
  "process_begin_settle (toy_at 100 settle_ixs 0) program begin_views begin_data chain3 = Inr chain4 \<and>
   process_finalize_settle (toy_at 100 settle_ixs 1) program finalize_views (ix_data (settle_ixs ! 1)) chain4 = Inr chain5 \<and>
   (\<exists>input now orders. instruction_parse FinalizeSettle finalize_settle_parse_body (ix_data (settle_ixs ! 1)) finalize_views = Inr input \<and>
     orders_settled (toy_at 100 settle_ixs 0) program now orders (map paired_push (pushes_iter (fsi_pushes input))) chain3 chain4)"
proof -
  have platform: "pf_current_index (toy_at 100 settle_ixs 1) = 1" "pf_instructions (toy_at 100 settle_ixs k) = settle_ixs" for k
    by (simp_all add: toy_at_def)
  have data: "begin_data = ix_discriminator BeginSettle # to_le 2 (pf_current_index (toy_at 100 settle_ixs 1)) @
      to_le 8 (9 :: u64) @ [1] @ [1] @ to_le 8 (100 :: u64)"
    by (simp add: platform)
  have finalize: "ix_data (settle_ixs ! 1) = finalize_data"
    "map av_address finalize_views = map am_pubkey (ix_accounts (settle_ixs ! 1))"
    by (simp_all add: settle_ixs_def meta_new_def)
  have ix: "settle_ixs ! 1 = pf_instructions (toy_at 100 settle_ixs 0) ! unat (pf_current_index (toy_at 100 settle_ixs 1))"
    by (simp add: platform)
  have run: "process_finalize_settle (toy_at 100 settle_ixs 1) program finalize_views (ix_data (settle_ixs ! 1)) chain4 = Inr chain5"
    unfolding finalize(1) by (rule run_finalize_settle)
  from finalize_pays_what_begin_validated [OF toy_program_frame run_begin_settle data _ ix finalize(2) run]
  show ?thesis using run_begin_settle run platform(2) by metis
qed

theorem finalize_settle_native_payments_witness:
  "\<exists>accs'. process_finalize_settle (toy_at 100 settle_ixs 1) program
     [plain (addr 203), plain state_pda, plain spl_token, plain (addr 202), plain native_buffer, plain (addr 65),
      plain (addr 203)]
     (ix_discriminator FinalizeSettle # to_le 2 (0 :: u16) @ [255] @ to_le 8 (30 :: u64)) (funded 40) = Inr accs' \<and>
   acc_lamports (accs' native_buffer) \<noteq> 0"
proof -
  obtain input where input: "instruction_parse FinalizeSettle finalize_settle_parse_body
      (ix_discriminator FinalizeSettle # to_le 2 (0 :: u16) @ [255] @ to_le 8 (30 :: u64))
      [plain (addr 203), plain state_pda, plain spl_token, plain (addr 202), plain native_buffer, plain (addr 65), plain (addr 203)] =
      Inr input" and "input = push_input (plain native_buffer) (plain (addr 65)) 30"
    using finalize_parses by blast
  then show ?thesis
    using finalize_settle_native_payments [OF run_finalize_native] run_finalize_native by (auto simp: push_input_iter)
qed

section \<open>Clients\<close>

theorem order_snapshot_roundtrip_witness:
  "wf_intent toy trade \<and>
   bindE (decoded_order_encode toy \<lparr>da_bump = 255, da_cancelled = False, da_amount_withdrawn = 0, da_amount_received = 0,
     da_created_by = addr 62, da_intent = trade\<rparr>) (decoded_order_try_from toy) =
   Inr \<lparr>da_bump = 255, da_cancelled = False, da_amount_withdrawn = 0, da_amount_received = 0,
     da_created_by = addr 62, da_intent = trade\<rparr>"
  using order_snapshot_roundtrip [of toy "\<lparr>da_bump = 255, da_cancelled = False, da_amount_withdrawn = 0,
    da_amount_received = 0, da_created_by = addr 62, da_intent = trade\<rparr>"] trade_wf by simp

theorem client_push_accepted_witness:
  "wf_intent toy trade \<and>
   validate_buffer_pda toy (op_source_buffer (finalized_intent_push toy \<lparr>fi_intent = trade, fi_amount = 60, fi_use_transfer_checked = False\<rparr> program))
     (ia_buy_mint trade_bytes) (op_bump (finalized_intent_push toy \<lparr>fi_intent = trade, fi_amount = 60, fi_use_transfer_checked = False\<rparr> program)) = Inr ()"
  using client_push_accepted [OF toy_agrees(2,1) toy_multiplier_eq, of _ _ _ "\<lparr>fi_intent = trade, fi_amount = 60, fi_use_transfer_checked = False\<rparr>"] trade_wf
  by (simp add: Let_def)

theorem client_settlement_lists_align_witness:
  "\<exists>begin_ix finalize_input. client_begin_settle toy
     \<lparr>cbs_program_id = program, cbs_solver = solver, cbs_finalize_ix_index = 1, cbs_auction_id = 9,
      cbs_only_token_program = None, cbs_orders =
        [\<lparr>ii_intent = trade, ii_pulls = [\<lparr>pl_destination = addr 82, pl_amount = 100\<rparr>], ii_use_transfer_checked = False\<rparr>]\<rparr> =
     Inr begin_ix \<and>
   instruction_parse FinalizeSettle finalize_settle_parse_body
     (ix_data (client_finalize_settle toy \<lparr>cfs_program_id = program, cfs_begin_ix_index = 0,
        cfs_only_token_program = None, cfs_orders = [\<lparr>fi_intent = trade, fi_amount = 60, fi_use_transfer_checked = False\<rparr>]\<rparr>))
     (instruction_addresses (client_finalize_settle toy \<lparr>cfs_program_id = program, cfs_begin_ix_index = 0,
        cfs_only_token_program = None, cfs_orders = [\<lparr>fi_intent = trade, fi_amount = 60, fi_use_transfer_checked = False\<rparr>]\<rparr>)) =
     Inr finalize_input \<and>
   map pu_destination (pushes_iter (fsi_pushes finalize_input)) = [buy_account]"
proof -
  let ?b = "\<lparr>cbs_program_id = program, cbs_solver = solver, cbs_finalize_ix_index = 1, cbs_auction_id = 9,
      cbs_only_token_program = None, cbs_orders =
        [\<lparr>ii_intent = trade, ii_pulls = [\<lparr>pl_destination = addr 82, pl_amount = 100\<rparr>], ii_use_transfer_checked = False\<rparr>]\<rparr>"
    and ?f = "\<lparr>cfs_program_id = program, cfs_begin_ix_index = 0, cfs_only_token_program = None,
      cfs_orders = [\<lparr>fi_intent = trade, fi_amount = 60, fi_use_transfer_checked = False\<rparr>]\<rparr>"
  obtain begin_ix where built: "client_begin_settle toy ?b = Inr begin_ix"
    by (simp add: client_begin_settle_def begin_settle_instruction_def client_begin_settle_builder_def)
  from client_settlement_lists_align [of ?b ?f, OF _ _ _ _ built]
  show ?thesis using built by (auto simp: Let_def trade_def)
qed

section \<open>The rest\<close>

theorem configuration_refines_spec_witness:
  "reachable program chain1 \<and> is_state program chain1 (STATE_PDA toy) \<and>
   process_instruction toy program solver_views (ix_discriminator AddSolver # to_bytes solver) chain1 = Inr chain2 \<and>
   ((\<exists>request. ix_discriminator AddSolver # to_bytes solver = request_data request \<and> av_is_signer (signing (addr 11)) \<and>
       config_spec request (addr 11) (config_of (acc_data (chain1 state_pda))) = Some (config_of (acc_data (chain2 state_pda)))) \<or>
    config_of (acc_data (chain2 state_pda)) = config_of (acc_data (chain1 state_pda)))"
proof -
  have state: "is_state program chain1 (STATE_PDA toy)" by (simp add: chain1_def)
  from configuration_refines_spec [OF chain1_reachable toy_program_rules state add_solver_instruction_runs]
  show ?thesis using chain1_reachable state add_solver_instruction_runs by (simp add: Let_def)
qed

theorem instructions_never_panic_witness:
  "platform_returns toy \<and> KNOWN_BUFFER_MULTIPLIER toy = Inr toy_multiplier \<and>
   process_instruction toy program [] [11, 7] chain0 \<noteq> Inl Panic"
proof -
  have "returns (toy_invoke borrowed c accs)" for borrowed c accs
    by (cases c) (simp_all add: toy_transfer_def Let_def)
  then have platform: "platform_returns toy"
    by (simp add: platform_returns_def toy_at_def toy_token_account_def toy_resize_def)
  have resize: "resize_spec toy"
    using toy_program_rules by (simp add: runtime_rules_def)
  have small: "\<forall>a. length (acc_data (chain0 a)) \<le> MAX_PERMITTED_DATA_LENGTH"
    by (simp add: chain0_def token_data_def MAX_PERMITTED_DATA_LENGTH_def)
  from instructions_never_panic [OF platform resize toy_multiplier_eq small]
  show ?thesis using platform toy_multiplier_eq by blast
qed

theorem owner_can_always_cancel_witness:
  "reachable program chain3 \<and> is_order program chain3 order_pda \<and>
   order_load_from_pda toy chain3 (plain order_pda) program = Inr (order_bytes False 0 0) \<and>
   (\<exists>accs'. process_cancel_order toy program [signing trader, plain (addr 62), plain order_pda, plain system_program]
      [ix_discriminator CancelOrder] chain3 = Inr accs' \<and>
    process_order toy program settled_trade trade_push 100 (plain state_pda) [] accs' = Inl (serr OrderCancelled))"
proof -
  have load: "order_load_from_pda toy chain3 (plain order_pda) program = Inr (order_bytes False 0 0)"
    by (simp add: chain3_def load_order)
  have order: "is_order program chain3 (av_address (plain order_pda))"
    using chain3_is_order by simp
  have settled: "so_order_pda settled_trade = plain order_pda"
    by (simp add: settled_trade_def)
  from owner_can_always_cancel [OF chain3_reachable order load, of "signing trader" "plain (addr 62)" "plain system_program"]
  show ?thesis using chain3_reachable chain3_is_order load settled
    by (simp add: order_bytes_reads trade_reads del: ix_discriminator.simps) blast
qed

theorem expired_order_can_be_reclaimed_witness:
  "order_load_from_pda (toy_at 2000 [] 0) chain3 (plain order_pda) program = Inr (order_bytes False 0 0) \<and>
   (\<exists>accs'. process_reclaim_order (toy_at 2000 [] 0) [plain order_pda, plain (addr 62)] [ix_discriminator ReclaimOrder] chain3 =
      Inr accs' \<and> acc_data (accs' order_pda) = [] \<and> unat (acc_lamports (accs' (addr 62))) = 10)"
proof -
  let ?P = "toy_at 2000 [] 0"
  have load: "order_load_from_pda ?P chain3 (plain order_pda) (program_ID ?P) = Inr (order_bytes False 0 0)"
    by (simp add: chain3_def load_order)
  have reach: "reachable (program_ID ?P) chain3" "is_order (program_ID ?P) chain3 (av_address (plain order_pda))"
    using chain3_reachable chain3_is_order by simp_all
  have payer: "chain3 (addr 62) = \<lparr>acc_owner = system_program, acc_lamports = 0, acc_data = []\<rparr>"
    by (simp add: chain3_def with_order_def chain2_def chain1_def chain0_def)
  have clock: "pf_clock ?P = Inr 2000" by (simp add: toy_at_def)
  have close: "\<forall>a. pf_close ?P a = Inr \<lparr>acc_owner = pf_system_program_id ?P, acc_lamports = 0, acc_data = []\<rparr>"
    by (simp add: toy_at_def)
  from expired_order_can_be_reclaimed [OF reach load _ clock _ _ close, of "plain (addr 62)"]
  have "\<exists>accs'. process_reclaim_order ?P [plain order_pda, plain (addr 62)] [ix_discriminator ReclaimOrder] chain3 =
      Inr accs' \<and> accs' order_pda = \<lparr>acc_owner = pf_system_program_id ?P, acc_lamports = 0, acc_data = []\<rparr> \<and>
      unat (acc_lamports (accs' (addr 62))) = 10"
    by (simp add: order_bytes_reads trade_reads payer chain3_order del: ix_discriminator.simps) blast
  then show ?thesis using load by (elim exE conjE) (simp del: ix_discriminator.simps)
qed

theorem intent_encoding_canonical_witness:
  "wf_intent toy trade \<and> intent_try_from toy (intent_encode toy trade) = Inr trade \<and>
   intent_uid toy trade = hash_bytes toy trade_bytes"
  using intent_encoding_canonical [of toy trade trade_bytes] trade_wf trade_decode length_trade_bytes by blast

theorem known_buffer_table_exact_witness:
  "derive_agrees toy \<and> find_agrees toy \<and> KNOWN_BUFFER_MULTIPLIER toy = Inr toy_multiplier \<and>
   validate_buffer_pda toy (addr 103) system_program 255 = Inr ()"
  using known_buffer_table_exact [OF toy_agrees(2,1) toy_multiplier_eq, of 100 "[]" 0 system_program "addr 103"] toy_multiplier_eq
  by (simp add: canonical_buffer_def ENCODED_NATIVE_SOL_TRANSFER_def) (simp add: toy_at_def)

theorem begin_settle_roundtrip_witness:
  "\<exists>b ix input. begin_settle_wf b \<and> length (bsb_order_pdas b) = 2 \<and> begin_settle_instruction toy b = Inr ix \<and>
   instruction_parse BeginSettle begin_settle_parse_body (ix_data ix) (instruction_addresses ix) = Inr input"
proof -
  let ?b = "\<lparr>bsb_program_id = program, bsb_state_pda = state_pda, bsb_solver = solver, bsb_finalize_ix_index = 1,
    bsb_auction_id = 9, bsb_only_token_program = None, bsb_order_pdas = [addr 171, addr 170],
    bsb_sell_token_accounts = [addr 80, addr 83], bsb_sell_mints = [None, Some (addr 90)],
    bsb_pulls = [[], [\<lparr>pl_destination = addr 82, pl_amount = 100\<rparr>]]\<rparr>"
  have wf: "begin_settle_wf ?b" by (simp add: begin_settle_wf_def)
  obtain ix where built: "begin_settle_instruction toy ?b = Inr ix"
    by (simp add: begin_settle_instruction_def)
  have "length (bsb_order_pdas ?b) = 2" by simp
  with begin_settle_roundtrip [OF wf built] show ?thesis using wf built by blast
qed

end
