(* ===== verification/CliEnv.thy ===== *)
theory CliEnv
  imports Client
begin

text \<open>
  What the command line tool (\<open>test-cli\<close>) runs on: the remote node behind its RPC client, the
  libraries it calls for text forms of addresses, token accounts and foreign instructions, and the
  integer parsers and string functions of the Rust standard library it uses. The remote chain is
  a state \<open>'w\<close>: reading it is a function of that state, sending a transaction changes it. The
  iteration order of a \<open>HashMap\<close> is unspecified, so it is a parameter too, known only to visit
  every entry once (\<open>iteration_spec\<close>).
\<close>

section \<open>Errors\<close>

text \<open>
  The tool reports failures as \<open>anyhow\<close> messages. \<open>Bail\<close> carries the fixed words of the message a
  check fails with; the values formatted into it and the context added on the way up are left
  out. A failed transaction keeps the instruction error it failed with, which \<open>reclaim\<close> reads.
\<close>

datatype int_error = IntEmpty | InvalidDigit | PosOverflow

datatype cli_error =
    Bail string
  | TransactionFailed "(u8 \<times> string InstructionError) option"
  | CliPanic

type_synonym 'a cli_result = "cli_error + 'a"

section \<open>The tool's surroundings\<close>

type_synonym signature = bytes

text \<open>
  A transaction as \<open>Transaction::new_signed_with_payer\<close> is asked to make it, and a compiled
  legacy message (\<open>solana_message::Message\<close>) as far as the tool reads it.
\<close>

record transaction =
  tx_instructions :: "instruction list"
  tx_fee_payer :: pubkey
  tx_signers :: "pubkey list"
  tx_blockhash :: hash

record compiled_instruction =
  ci_program_id_index :: u8
  ci_accounts :: bytes
  ci_data :: bytes

record message =
  msg_num_required_signatures :: u8
  msg_num_readonly_signed :: u8
  msg_num_readonly_unsigned :: u8
  msg_account_keys :: "pubkey list"
  msg_instructions :: "compiled_instruction list"

record simulation =
  sim_err :: "string option"
  sim_units_consumed :: "u64 option"
  sim_logs :: "string list option"

record Member =
  mb_key :: pubkey
  mb_mask :: u8

record MultisigAccount =
  ma_discriminator :: bytes
  ma_create_key :: pubkey
  ma_config_authority :: pubkey
  ma_threshold :: u16
  ma_time_lock :: u32
  ma_transaction_index :: u64
  ma_stale_transaction_index :: u64
  ma_rent_collector :: "pubkey option"
  ma_bump :: u8
  ma_members :: "Member list"

record 'w cli =
  cl_platform :: platform
  cl_pubkey_from_str :: "string \<Rightarrow> pubkey option"         \<comment> \<open>\<open>Pubkey::from_str\<close>, base58\<close>
  cl_pubkey_to_string :: "pubkey \<Rightarrow> string"
  cl_signature_to_string :: "signature \<Rightarrow> string"
  cl_error_to_string :: "string InstructionError \<Rightarrow> string"
  cl_debug_settlement_error :: "SettlementError \<Rightarrow> string"  \<comment> \<open>the name of the variant\<close>
  cl_unicode_uppercase :: "string \<Rightarrow> string"              \<comment> \<open>\<open>str::to_uppercase\<close> off ASCII\<close>
  cl_now :: u64                                            \<comment> \<open>seconds since the epoch\<close>
  cl_read_keypair :: "string \<Rightarrow> pubkey option"            \<comment> \<open>\<open>read_keypair_file\<close>, by its public key\<close>
  cl_get_account :: "'w \<Rightarrow> pubkey \<Rightarrow> account option"      \<comment> \<open>\<open>RpcClient\<close>; \<open>None\<close> is any error\<close>
  cl_get_account_data :: "'w \<Rightarrow> pubkey \<Rightarrow> bytes option"
  cl_get_multiple_accounts :: "'w \<Rightarrow> pubkey list \<Rightarrow> account option list option"
  cl_genesis_hash :: "'w \<Rightarrow> string option"
  cl_latest_blockhash :: "'w \<Rightarrow> hash option"
  cl_signable :: "transaction \<Rightarrow> bool"                     \<comment> \<open>signing panics otherwise\<close>
  cl_send_and_confirm ::
    "'w \<Rightarrow> transaction \<Rightarrow> ((u8 \<times> string InstructionError) option + signature) \<times> 'w"
  cl_simulate :: "'w \<Rightarrow> instruction list \<Rightarrow> pubkey \<Rightarrow> simulation option"
  cl_transaction_units :: "'w \<Rightarrow> signature \<Rightarrow> u64 option option option"
    \<comment> \<open>the transaction, its metadata, the units in it\<close>
  cl_unpack_token_account :: "bytes \<Rightarrow> (pubkey \<times> u64) option"  \<comment> \<open>mint and amount\<close>
  cl_unpack_mint :: "bytes \<Rightarrow> u8 option"                  \<comment> \<open>decimals\<close>
  cl_native_mint :: pubkey
  cl_associated_token_address :: "pubkey \<Rightarrow> pubkey \<Rightarrow> pubkey \<Rightarrow> pubkey"  \<comment> \<open>owner, mint, program\<close>
  cl_create_ata_idempotent :: "pubkey \<Rightarrow> pubkey \<Rightarrow> pubkey \<Rightarrow> pubkey \<Rightarrow> instruction"
    \<comment> \<open>payer, owner, mint, program\<close>
  cl_system_transfer :: "pubkey \<Rightarrow> pubkey \<Rightarrow> u64 \<Rightarrow> instruction"
  cl_sync_native :: "pubkey \<Rightarrow> pubkey \<Rightarrow> instruction option"
  cl_approve :: "pubkey \<Rightarrow> pubkey \<Rightarrow> pubkey \<Rightarrow> pubkey \<Rightarrow> u64 \<Rightarrow> instruction option"
    \<comment> \<open>program, source, delegate, owner, amount\<close>
  cl_ui_amount :: "string \<Rightarrow> u8 \<Rightarrow> u64 option"            \<comment> \<open>\<open>spl_token::try_ui_amount_into_amount\<close>\<close>
  cl_message_new :: "instruction list \<Rightarrow> pubkey \<Rightarrow> message"
  cl_borsh_multisig :: "bytes \<Rightarrow> MultisigAccount option"
  cl_borsh_vault_transaction_create :: "u8 \<Rightarrow> u8 \<Rightarrow> bytes \<Rightarrow> string option \<Rightarrow> bytes"
  cl_borsh_proposal_create :: "u64 \<Rightarrow> bool \<Rightarrow> bytes"
  cl_borsh_proposal_approve :: "string option \<Rightarrow> bytes"
  cl_order_tally :: "(pubkey \<times> u64) list \<Rightarrow> (pubkey \<times> u64) list"
    \<comment> \<open>the order in which a \<open>HashMap\<close> or \<open>HashSet\<close> visits its entries\<close>
  cl_order_groups :: "(TokenProgram \<times> pubkey list) list \<Rightarrow> (TokenProgram \<times> pubkey list) list"
  cl_order_mints :: "pubkey list \<Rightarrow> pubkey list"
  cl_order_buffers :: "(TokenProgram \<times> (pubkey \<times> pubkey \<times> u64) list) list \<Rightarrow>
    (TokenProgram \<times> (pubkey \<times> pubkey \<times> u64) list) list"

text \<open>
  Base58 text of a 32-byte key has 32 to 44 characters, and reading it back gives the key.
\<close>

definition base58_spec :: "'w cli \<Rightarrow> bool" where
  "base58_spec C \<longleftrightarrow>
     (\<forall>k. cl_pubkey_from_str C (cl_pubkey_to_string C k) = Some k \<and> 32 \<le> length (cl_pubkey_to_string C k)) \<and>
     (\<forall>s k. cl_pubkey_from_str C s = Some k \<longrightarrow> length s \<le> 44)"

text \<open>Iterating over a collection visits each of its entries once.\<close>

definition iteration_spec :: "'w cli \<Rightarrow> bool" where
  "iteration_spec C \<longleftrightarrow>
     (\<forall>xs. mset (cl_order_tally C xs) = mset xs) \<and> (\<forall>xs. mset (cl_order_groups C xs) = mset xs) \<and>
     (\<forall>xs. mset (cl_order_mints C xs) = mset xs) \<and> (\<forall>xs. mset (cl_order_buffers C xs) = mset xs)"

lemma iteration_spec_sets:
  assumes "iteration_spec C"
  shows "set (cl_order_tally C ts) = set ts" "set (cl_order_groups C gs) = set gs"
    "set (cl_order_mints C ms) = set ms" "set (cl_order_buffers C bs) = set bs"
  using assms unfolding iteration_spec_def by (metis mset_eq_setD)+

section \<open>Text\<close>

text \<open>
  A string is the sequence of its UTF-8 bytes, so its length is \<open>str::len\<close>. \<open>to_uppercase\<close> follows
  Unicode; only its ASCII part is written out.
\<close>

definition char_code :: "char \<Rightarrow> nat" where
  "char_code c = of_char c"

definition ascii_lower :: "char \<Rightarrow> char" where
  "ascii_lower c = (if 65 \<le> char_code c \<and> char_code c \<le> 90 then char_of (char_code c + 32) else c)"

definition ascii_upper :: "char \<Rightarrow> char" where
  "ascii_upper c = (if 97 \<le> char_code c \<and> char_code c \<le> 122 then char_of (char_code c - 32) else c)"

definition eq_ignore_ascii_case :: "string \<Rightarrow> string \<Rightarrow> bool" where
  "eq_ignore_ascii_case s t \<longleftrightarrow> map ascii_lower s = map ascii_lower t"

definition to_uppercase :: "'w cli \<Rightarrow> string \<Rightarrow> string" where
  "to_uppercase C s =
     (if \<forall>c \<in> set s. char_code c < 128 then map ascii_upper s else cl_unicode_uppercase C s)"

definition split_once :: "char \<Rightarrow> string \<Rightarrow> (string \<times> string) option" where
  "split_once c s =
     (if c \<in> set s then Some (takeWhile (\<lambda>x. x \<noteq> c) s, tl (dropWhile (\<lambda>x. x \<noteq> c) s)) else None)"

lemma split_once_append: "c \<notin> set a \<Longrightarrow> split_once c (a @ c # b) = Some (a, b)"
  by (induction a) (auto simp: split_once_def)

lemma split_once_None: "c \<notin> set s \<Longrightarrow> split_once c s = None"
  by (simp add: split_once_def)

section \<open>Integers from text\<close>

text \<open>\<open>from_str_radix\<close> of an unsigned integer below \<open>bound\<close>: a leading plus sign is allowed.\<close>

definition to_digit :: "nat \<Rightarrow> char \<Rightarrow> nat option" where
  "to_digit radix c =
     (let n = char_code c;
          d = (if 48 \<le> n \<and> n \<le> 57 then n - 48 else if 97 \<le> n \<and> n \<le> 122 then n - 87
               else if 65 \<le> n \<and> n \<le> 90 then n - 55 else radix) in
      if d < radix then Some d else None)"

fun digits_loop :: "nat \<Rightarrow> nat \<Rightarrow> nat \<Rightarrow> string \<Rightarrow> int_error + nat" where
  "digits_loop bound radix acc [] = Inr acc"
| "digits_loop bound radix acc (c # cs) =
     (case to_digit radix c of
        None \<Rightarrow> Inl InvalidDigit
      | Some d \<Rightarrow>
          if bound \<le> acc * radix then Inl PosOverflow
          else if bound \<le> acc * radix + d then Inl PosOverflow
          else digits_loop bound radix (acc * radix + d) cs)"

definition from_str_radix :: "nat \<Rightarrow> nat \<Rightarrow> string \<Rightarrow> int_error + nat" where
  "from_str_radix bound radix s =
     (if s = [] then Inl IntEmpty
      else if s = ''+'' \<or> s = ''-'' then Inl InvalidDigit
      else if hd s = CHR ''+'' then digits_loop bound radix 0 (tl s)
      else digits_loop bound radix 0 s)"

text \<open>What the digits denote.\<close>

definition horner :: "nat \<Rightarrow> nat \<Rightarrow> nat list \<Rightarrow> nat" where
  "horner radix acc ds = foldl (\<lambda>a d. a * radix + d) acc ds"

lemma horner_ge: "0 < radix \<Longrightarrow> acc \<le> horner radix acc ds"
proof (induction ds arbitrary: acc)
  case (Cons d ds)
  have "acc \<le> acc * radix" using Cons.prems by simp
  also have "\<dots> \<le> acc * radix + d" by simp
  also have "\<dots> \<le> horner radix (acc * radix + d) ds" by (rule Cons.IH [OF Cons.prems])
  finally show ?case by (simp add: horner_def)
qed (simp add: horner_def)

lemma digits_loop_step:
  "digits_loop bound radix acc (c # cs) = Inr n \<longleftrightarrow>
    (\<exists>d. to_digit radix c = Some d \<and> acc * radix + d < bound \<and>
      digits_loop bound radix (acc * radix + d) cs = Inr n)"
  by (cases "to_digit radix c") auto

lemma digits_loop_Inr:
  assumes "acc < bound" and "digits_loop bound radix acc cs = Inr n"
  shows "\<exists>ds. map (to_digit radix) cs = map Some ds \<and> n = horner radix acc ds \<and> n < bound"
  using assms
proof (induction cs arbitrary: acc)
  case (Cons c cs)
  then obtain d where d: "to_digit radix c = Some d" "acc * radix + d < bound"
    and rest: "digits_loop bound radix (acc * radix + d) cs = Inr n"
    unfolding digits_loop_step by blast
  from Cons.IH [OF d(2) rest] obtain ds
    where "map (to_digit radix) cs = map Some ds" "n = horner radix (acc * radix + d) ds" "n < bound"
    by blast
  with d(1) show ?case by (intro exI [of _ "d # ds"]) (simp add: horner_def)
qed (simp add: horner_def)

lemma digits_loop_value:
  assumes "0 < radix" and "horner radix acc ds < bound"
    and "map (to_digit radix) cs = map Some ds"
  shows "digits_loop bound radix acc cs = Inr (horner radix acc ds)"
  using assms(2,3)
proof (induction cs arbitrary: acc ds)
  case (Cons c cs)
  then obtain d ds' where ds: "ds = d # ds'" "to_digit radix c = Some d"
    "map (to_digit radix) cs = map Some ds'"
    by (cases ds) auto
  have "horner radix acc ds = horner radix (acc * radix + d) ds'" by (simp add: ds(1) horner_def)
  moreover have "acc * radix + d < bound"
    using horner_ge [OF assms(1), of "acc * radix + d" ds'] Cons.prems(1) by (simp add: ds(1) horner_def)
  ultimately show ?case
    using Cons.IH [of "acc * radix + d" ds'] Cons.prems(1) ds by (simp del: digits_loop.simps add: digits_loop_step)
qed (simp add: horner_def)

definition show_digit :: "nat \<Rightarrow> char" where
  "show_digit d = char_of (if d < 10 then 48 + d else 87 + d)"

fun show_nat :: "nat \<Rightarrow> string" where
  "show_nat n = (if n < 10 then [show_digit n] else show_nat (n div 10) @ [show_digit (n mod 10)])"

declare show_nat.simps [simp del]

lemma to_digit_show_digit: "d < radix \<Longrightarrow> radix \<le> 36 \<Longrightarrow> to_digit radix (show_digit d) = Some d"
  by (auto simp: to_digit_def show_digit_def char_code_def Let_def)

end
