(* ===== verification/CliArgs.thy ===== *)
theory CliArgs
  imports CliEnv
begin

text \<open>
  The arguments of the command line (\<open>test-cli/src/utils/parsing.rs\<close>): the settlement program by
  environment or address, an order by its address or its hexadecimal UID, a buffer with the most
  that may be burned from it. The lemmas show that a displayed argument parses back and what the
  parsers accept.
\<close>

section \<open>The settlement program\<close>

datatype Env = Prod | Barn

definition env_all :: "Env list" where
  "env_all = [Prod, Barn]"

text \<open>The name \<open>clap\<close> derives for a variant, which is also how it is displayed.\<close>

fun env_display :: "Env \<Rightarrow> string" where
  "env_display Prod = ''prod''"
| "env_display Barn = ''barn''"

fun env_program_id :: "Env \<Rightarrow> pubkey" where
  "env_program_id Prod = PROD_ID"
| "env_program_id Barn = BARN_ID"

text \<open>\<open>Env::from_str(s, true)\<close>, which ignores the case of ASCII letters.\<close>

definition env_from_str :: "string \<Rightarrow> Env option" where
  "env_from_str s = find (\<lambda>e. eq_ignore_ascii_case (env_display e) s) env_all"

datatype ProgramIdArg = ProgramEnv Env | ProgramAddress pubkey

definition program_id_from_str :: "'w cli \<Rightarrow> string \<Rightarrow> ProgramIdArg cli_result" where
  "program_id_from_str C s =
     (case env_from_str s of
        Some env \<Rightarrow> Inr (ProgramEnv env)
      | None \<Rightarrow>
          (case cl_pubkey_from_str C s of
             Some pubkey \<Rightarrow> Inr (ProgramAddress pubkey)
           | None \<Rightarrow> Inl (Bail ''expected a settlement environment or a base58 program address'')))"

fun program_id_pubkey :: "ProgramIdArg \<Rightarrow> pubkey" where
  "program_id_pubkey (ProgramEnv env) = env_program_id env"
| "program_id_pubkey (ProgramAddress address) = address"

fun program_id_display :: "'w cli \<Rightarrow> ProgramIdArg \<Rightarrow> string" where
  "program_id_display C (ProgramEnv env) = env_display env"
| "program_id_display C (ProgramAddress address) = cl_pubkey_to_string C address"

section \<open>Orders\<close>

datatype OrderArg = OrderPda pubkey | OrderUid hash

text \<open>\<open>std::str::from_utf8\<close> on the two bytes of one piece.\<close>

definition piece_is_utf8 :: "string \<Rightarrow> bool" where
  "piece_is_utf8 piece \<longleftrightarrow>
     (case map char_code piece of
        [a, b] \<Rightarrow> a < 128 \<and> b < 128 \<or> 194 \<le> a \<and> a \<le> 223 \<and> 128 \<le> b \<and> b \<le> 191
      | cs \<Rightarrow> \<forall>c \<in> set cs. c < 128)"

fun uid_bytes_loop :: "string list \<Rightarrow> nat \<Rightarrow> bytes \<Rightarrow> bytes cli_result" where
  "uid_bytes_loop [] i bs = Inr bs"
| "uid_bytes_loop (piece # pieces) i bs =
     bindE (ensure (piece_is_utf8 piece) (Bail ''Should return to utf8 string'')) (\<lambda>_.
     bindE (map_err (\<lambda>_. Bail ''invalid hex in UID'') (from_str_radix 256 16 piece)) (\<lambda>b.
     if i < length bs then uid_bytes_loop pieces (i + 1) (bs[i := of_nat b]) else Inl CliPanic))"

definition order_arg_from_str :: "'w cli \<Rightarrow> string \<Rightarrow> OrderArg cli_result" where
  "order_arg_from_str C s =
     (case cl_pubkey_from_str C s of
        Some pubkey \<Rightarrow> Inr (OrderPda pubkey)
      | None \<Rightarrow>
          bindE (ensure (length s = 64) (Bail ''expected a base58 order PDA or a 64-char hex UID'')) (\<lambda>_.
          bindE (uid_bytes_loop (fst (as_chunks 2 s)) 0 (replicate 32 0)) (\<lambda>bs.
          Inr (OrderUid (new_from_array bs)))))"

fun order_arg_pda :: "'w cli \<Rightarrow> OrderArg \<Rightarrow> pubkey \<Rightarrow> pubkey" where
  "order_arg_pda C (OrderPda pda) program_id = pda"
| "order_arg_pda C (OrderUid uid) program_id = fst (find_order_pda (cl_platform C) program_id uid)"

text \<open>\<open>{b:02x}\<close>.\<close>

definition hex_byte :: "u8 \<Rightarrow> string" where
  "hex_byte b = [show_digit (unat b div 16), show_digit (unat b mod 16)]"

definition hex_of_hash :: "hash \<Rightarrow> string" where
  "hex_of_hash uid = concat (map hex_byte (to_bytes uid))"

fun order_arg_display :: "'w cli \<Rightarrow> OrderArg \<Rightarrow> string" where
  "order_arg_display C (OrderPda pda) = cl_pubkey_to_string C pda"
| "order_arg_display C (OrderUid uid) = hex_of_hash uid"

section \<open>Buffers and keypairs\<close>

record BufferArg =
  ba_address :: pubkey
  ba_max_burn :: u64

definition buffer_arg_from_str :: "'w cli \<Rightarrow> string \<Rightarrow> BufferArg cli_result" where
  "buffer_arg_from_str C arg =
     (let (address, max_burn) =
        (case split_once CHR '':'' arg of Some (address, max_burn) \<Rightarrow> (address, Some max_burn)
         | None \<Rightarrow> (arg, None)) in
      bindE (ok_or (cl_pubkey_from_str C address) (Bail ''invalid pubkey'')) (\<lambda>address.
      bindE (case max_burn of None \<Rightarrow> Inr 0
             | Some m \<Rightarrow> map_err (\<lambda>_. Bail ''invalid max burn'') (from_str_radix (2 ^ 64) 10 m)) (\<lambda>max_burn.
      Inr \<lparr>ba_address = address, ba_max_burn = of_nat max_burn\<rparr>)))"

text \<open>A keypair argument is the path of its file.\<close>

type_synonym KeypairArg = string

definition keypair_arg_signer :: "'w cli \<Rightarrow> KeypairArg \<Rightarrow> pubkey cli_result" where
  "keypair_arg_signer C path = ok_or (cl_read_keypair C path) (Bail ''failed to read keypair'')"

text \<open>\<open>read_keypair_or\<close> (\<open>utils/keypair.rs\<close>), with keypairs named by their public keys.\<close>

definition read_keypair_or :: "'w cli \<Rightarrow> KeypairArg option \<Rightarrow> pubkey \<Rightarrow> pubkey cli_result" where
  "read_keypair_or C arg default_key =
     (case arg of Some path \<Rightarrow> keypair_arg_signer C path | None \<Rightarrow> Inr default_key)"

section \<open>Hexadecimal bytes\<close>

lemma show_digit_code: "d < 16 \<Longrightarrow> char_code (show_digit d) = (if d < 10 then 48 + d else 87 + d)"
  by (simp add: show_digit_def char_code_def)

lemma hex_byte_digits:
  "unat (b :: u8) div 16 < 16" "unat b mod 16 < 16" "unat b div 16 * 16 + unat b mod 16 = unat b"
  using unat_u8_lt [of b] by (simp_all add: less_mult_imp_div_less)

lemma from_str_radix_two:
  assumes "to_digit 16 x = Some a" and "to_digit 16 y = Some b" and "a < 16" and "b < 16"
  shows "from_str_radix 256 16 [x, y] = Inr (a * 16 + b)"
proof -
  have "x \<noteq> CHR ''+''" using assms(1) by (auto simp: to_digit_def char_code_def Let_def)
  then show ?thesis using assms by (simp add: from_str_radix_def)
qed

lemma from_str_radix_hex_byte: "from_str_radix 256 16 (hex_byte b) = Inr (unat b)"
  unfolding hex_byte_def
  using from_str_radix_two [OF to_digit_show_digit to_digit_show_digit, of "unat b div 16" "unat b mod 16"]
    hex_byte_digits [of b] by simp

lemma hex_byte_utf8: "piece_is_utf8 (hex_byte b)"
proof -
  have "char_code (show_digit d) < 128" if "d < 16" for d
    using that by (simp add: show_digit_code)
  with hex_byte_digits(1,2) [of b] show ?thesis by (simp add: piece_is_utf8_def hex_byte_def)
qed

lemma length_hex_byte [simp]: "length (hex_byte b) = 2"
  by (simp add: hex_byte_def)

lemma length_hex_of_hash [simp]: "length (hex_of_hash uid) = 64"
  by (simp add: hex_of_hash_def length_concat comp_def sum_list_triv)

lemma hex_chunks: "fst (as_chunks 2 (hex_of_hash uid)) = map hex_byte (to_bytes uid)"
  using as_chunks_concat [of 2 "map hex_byte (to_bytes uid)" "[]"] by (simp add: hex_of_hash_def)

text \<open>The loop writes the value of one piece after the other.\<close>

lemma uid_bytes_loop_value:
  assumes "list_all2 (\<lambda>piece v. piece_is_utf8 piece \<and> from_str_radix 256 16 piece = Inr v) pieces vs"
  shows "uid_bytes_loop pieces (length pre) (pre @ replicate (length pieces) 0) = Inr (pre @ map of_nat vs)"
  using assms
proof (induction pieces vs arbitrary: pre rule: list_all2_induct)
  case (Cons piece pieces v vs)
  show ?case using Cons.hyps(1) Cons.IH [of "pre @ [of_nat v]"] by simp
qed simp

lemma uid_bytes_loop_Inr:
  assumes "uid_bytes_loop pieces (length pre) (pre @ replicate (length pieces) 0) = Inr bs"
  shows "\<exists>vs. map (from_str_radix 256 16) pieces = map Inr vs \<and> bs = pre @ map of_nat vs"
  using assms
proof (induction pieces arbitrary: pre)
  case (Cons piece pieces)
  from Cons.prems obtain v where v: "from_str_radix 256 16 piece = Inr v"
    and rec: "uid_bytes_loop pieces (length (pre @ [of_nat v])) ((pre @ [of_nat v]) @ replicate (length pieces) 0) = Inr bs"
    by (auto simp: result_simps)
  from Cons.IH [OF rec] obtain vs where "map (from_str_radix 256 16) pieces = map Inr vs"
    "bs = (pre @ [of_nat v]) @ map of_nat vs"
    by blast
  with v show ?case by (intro exI [of _ "v # vs"]) simp
qed simp

lemma uid_bytes_loop_hex:
  "uid_bytes_loop (map hex_byte bs) 0 (replicate (length bs) 0) = Inr bs"
proof -
  have "list_all2 (\<lambda>piece v. piece_is_utf8 piece \<and> from_str_radix 256 16 piece = Inr v)
      (map hex_byte bs) (map unat bs)"
    by (simp add: list_all2_map1 list_all2_map2 list_all2_same hex_byte_utf8 from_str_radix_hex_byte)
  from uid_bytes_loop_value [OF this, of "[]"] show ?thesis by (simp add: comp_def)
qed

section \<open>What the parsers accept\<close>

lemma length_env_display: "length (env_display env) = 4"
  by (cases env) simp_all

lemma env_from_str_display: "env_from_str (env_display env) = Some env"
  by (cases env) (simp_all add: env_from_str_def env_all_def eq_ignore_ascii_case_def ascii_lower_def char_code_def)

lemma env_from_str_length: "env_from_str s = Some env \<Longrightarrow> length s = 4"
  by (auto simp: env_from_str_def find_Some_iff eq_ignore_ascii_case_def length_env_display
      dest: map_eq_imp_length_eq)

lemma program_id_roundtrip:
  assumes "base58_spec C"
  shows "program_id_from_str C (program_id_display C arg) = Inr arg"
proof (cases arg)
  case (ProgramAddress k)
  have "32 \<le> length (cl_pubkey_to_string C k)" "cl_pubkey_from_str C (cl_pubkey_to_string C k) = Some k"
    using assms by (auto simp: base58_spec_def)
  moreover from this(1) have "env_from_str (cl_pubkey_to_string C k) = None"
    using env_from_str_length by fastforce
  ultimately show ?thesis by (simp add: ProgramAddress program_id_from_str_def)
qed (simp add: program_id_from_str_def env_from_str_display)

lemma base58_short: "base58_spec C \<Longrightarrow> 44 < length s \<Longrightarrow> cl_pubkey_from_str C s = None"
  by (cases "cl_pubkey_from_str C s") (auto simp: base58_spec_def)

lemma order_arg_display_parses:
  assumes "base58_spec C"
  shows "order_arg_from_str C (order_arg_display C arg) = Inr arg"
proof (cases arg)
  case (OrderPda k)
  with assms show ?thesis by (simp add: order_arg_from_str_def base58_spec_def)
next
  case (OrderUid uid)
  moreover have "cl_pubkey_from_str C (hex_of_hash uid) = None"
    by (rule base58_short [OF assms]) simp
  ultimately show ?thesis
    using uid_bytes_loop_hex [of "to_bytes uid"] by (simp add: order_arg_from_str_def hex_chunks)
qed

text \<open>A piece without a plus sign is two hexadecimal digits, displayed back in lower case.\<close>

lemma to_digit_lower:
  assumes "to_digit 16 c = Some d"
  shows "show_digit d = ascii_lower c" and "d < 16"
proof -
  from assms show "d < 16" by (auto simp: to_digit_def Let_def split: if_splits)
  have c: "char_of (char_code c) = c" by (simp add: char_code_def)
  from assms consider "48 \<le> char_code c" "char_code c \<le> 57" "d = char_code c - 48"
    | "97 \<le> char_code c" "char_code c \<le> 102" "d = char_code c - 87"
    | "65 \<le> char_code c" "char_code c \<le> 70" "d = char_code c - 55"
    by (auto simp: to_digit_def Let_def split: if_splits)
  then show "show_digit d = ascii_lower c"
  proof cases
    case 1
    then have "d < 10" "48 + d = char_code c" by simp_all
    then show ?thesis using 1(1,2) c by (simp add: show_digit_def ascii_lower_def)
  next
    case 2
    then have "10 \<le> d" "87 + d = char_code c" by simp_all
    then show ?thesis using 2(1,2) c by (simp add: show_digit_def ascii_lower_def)
  next
    case 3
    then have "10 \<le> d" "87 + d = char_code c + 32" by simp_all
    then show ?thesis using 3(1,2) by (simp add: show_digit_def ascii_lower_def)
  qed
qed

lemma from_str_radix_piece:
  assumes "length piece = 2" and "CHR ''+'' \<notin> set piece" and "from_str_radix 256 16 piece = Inr v"
  shows "hex_byte (of_nat v) = map ascii_lower piece"
proof -
  obtain x y where xy: "piece = [x, y]" using assms(1) by (rule length_2E)
  with assms(2,3) have "digits_loop 256 16 0 [x, y] = Inr v" by (auto simp: from_str_radix_def)
  from digits_loop_Inr [OF _ this] obtain ds where ds: "map (to_digit 16) [x, y] = map Some ds"
    "v = horner 16 0 ds" by fastforce
  then obtain a b where ab: "to_digit 16 x = Some a" "to_digit 16 y = Some b" and v: "v = a * 16 + b"
    by (auto simp: Cons_eq_map_conv horner_def)
  have "a < 16" "b < 16" using to_digit_lower(2) ab by blast+
  then have "v < 256" by (simp add: v)
  then have "unat (of_nat v :: u8) = v" by (simp add: unsigned_of_nat take_bit_nat_eq_self)
  then show ?thesis
    using \<open>b < 16\<close> to_digit_lower(1) [OF ab(1)] to_digit_lower(1) [OF ab(2)]
    by (simp add: hex_byte_def xy) (simp add: v)
qed

lemma order_arg_uid_display:
  assumes "order_arg_from_str C s = Inr (OrderUid uid)" and "CHR ''+'' \<notin> set s"
  shows "hex_of_hash uid = map ascii_lower s"
proof -
  obtain pieces rest where chunks: "as_chunks 2 s = (pieces, rest)" by fastforce
  note inv = as_chunks_inverse [OF _ chunks]
  from assms(1) obtain bs where len: "length s = 64"
    and loop: "uid_bytes_loop pieces 0 (replicate 32 0) = Inr bs" and uid: "uid = new_from_array bs"
    by (auto simp: order_arg_from_str_def result_simps chunks split: option.splits)
  have "2 * length pieces + length rest = 64" "length rest < 2"
    using inv len length_concat_chunks [of pieces 2] by simp_all
  then have pieces: "length pieces = 32" and "length rest = 0"
    by presburger+
  with inv(1) have s: "s = concat pieces" by simp
  from uid_bytes_loop_Inr [of pieces "[]" bs] loop pieces
  obtain vs where vs: "map (from_str_radix 256 16) pieces = map Inr vs" and bs: "bs = map of_nat vs"
    by auto
  have lens: "length vs = 32" using vs pieces by (metis length_map)
  have "map hex_byte bs = map (map ascii_lower) pieces"
  proof (rule nth_equalityI)
    fix i assume "i < length (map hex_byte bs)"
    then have i: "i < length pieces" using lens pieces bs by simp
    then have "from_str_radix 256 16 (pieces ! i) = Inr (vs ! i)"
      using vs lens pieces by (metis nth_map)
    moreover have "length (pieces ! i) = 2" "CHR ''+'' \<notin> set (pieces ! i)"
      using i inv(2) assms(2) s nth_mem by (auto simp: set_concat)
    ultimately show "map hex_byte bs ! i = map (map ascii_lower) pieces ! i"
      using from_str_radix_piece i lens pieces bs by simp
  qed (simp add: bs lens pieces)
  then show ?thesis using lens bs by (simp add: hex_of_hash_def uid s map_concat)
qed

text \<open>
  A pair of characters may also be a plus sign and one digit, so the same UID has spellings that
  are not hexadecimal.
\<close>

lemma order_arg_accepts_plus:
  assumes "base58_spec C"
  shows "order_arg_from_str C (concat (replicate 32 ''+f'')) = Inr (OrderUid (fill32 15))"
proof -
  let ?s = "concat (replicate 32 ''+f'')"
  have "cl_pubkey_from_str C ?s = None"
    by (rule base58_short [OF assms]) (simp add: length_concat sum_list_replicate)
  moreover have "fst (as_chunks 2 ?s) = replicate 32 ''+f''"
    using as_chunks_concat [of 2 "replicate 32 ''+f''" "[]"] by simp
  moreover have "from_str_radix 256 16 ''+f'' = Inr 15" "piece_is_utf8 ''+f''"
    by (simp_all add: from_str_radix_def to_digit_def char_code_def piece_is_utf8_def)
  then have "list_all2 (\<lambda>piece v. piece_is_utf8 piece \<and> from_str_radix 256 16 piece = Inr v)
      (replicate 32 ''+f'') (replicate 32 15)"
    by (simp add: list_all2_conv_all_nth)
  then have "uid_bytes_loop (replicate 32 ''+f'') 0 (replicate 32 0) = Inr (map of_nat (replicate 32 15))"
    using uid_bytes_loop_value [of "replicate 32 ''+f''" "replicate 32 15" "[]"] by simp
  ultimately show ?thesis
    by (simp add: order_arg_from_str_def length_concat sum_list_replicate fill32_def map_replicate
        del: concat.simps)
qed

lemma buffer_arg_plain:
  "CHR '':'' \<notin> set s \<Longrightarrow> buffer_arg_from_str C s =
    (case cl_pubkey_from_str C s of None \<Rightarrow> Inl (Bail ''invalid pubkey'')
     | Some k \<Rightarrow> Inr \<lparr>ba_address = k, ba_max_burn = 0\<rparr>)"
  by (simp add: buffer_arg_from_str_def split_once_None split: option.splits)

lemma buffer_arg_limited:
  "CHR '':'' \<notin> set a \<Longrightarrow> buffer_arg_from_str C (a @ CHR '':'' # m) = Inr arg \<longleftrightarrow>
    (\<exists>k n. cl_pubkey_from_str C a = Some k \<and> from_str_radix (2 ^ 64) 10 m = Inr n \<and>
      arg = \<lparr>ba_address = k, ba_max_burn = of_nat n\<rparr>)"
  by (auto simp: buffer_arg_from_str_def split_once_append result_simps)

section \<open>Properties\<close>

text \<open>
  An order argument survives being displayed and parsed, whether it names the order by
  address or by UID; and a UID read from text without a plus sign is displayed as that text in
  lower case, so every such text is the hexadecimal form of the UID it is read as.
\<close>

theorem order_arg_roundtrip:
  assumes "base58_spec C"
  shows "order_arg_from_str C (order_arg_display C arg) = Inr arg \<and>
    (order_arg_from_str C s = Inr (OrderUid uid) \<and> CHR ''+'' \<notin> set s \<longrightarrow>
      order_arg_display C (OrderUid uid) = map ascii_lower s)"
  using order_arg_display_parses [OF assms] order_arg_uid_display [of C s uid] by auto

end
