(* ===== verification/Squads.thy ===== *)
theory Squads
  imports CliArgs
begin

text \<open>
  How the command line tool submits its instructions (\<open>test-cli/src/cmd/mod.rs\<close>): sent with the
  local keypair, or wrapped into a proposal to a Squads multisig (\<open>test-cli/src/utils/squads\<close>).
  The lemmas show that the compact encoding of a message determines the message, what a proposal
  consists of, and that with a multisig configured nothing but a proposal is ever sent.
\<close>

unbundle bit_operations_syntax

section \<open>Addresses of the multisig program\<close>

definition SQUADS_MULTISIG_PROGRAM_ID :: pubkey where
  "SQUADS_MULTISIG_PROGRAM_ID = new_from_array
     [6, 129, 196, 206, 71, 226, 35, 104, 184, 177, 85, 94, 200, 135, 175, 9,
      46, 252, 126, 251, 182, 108, 163, 245, 47, 191, 104, 212, 172, 156, 183, 168]"

definition SEED_PREFIX :: bytes where
  "SEED_PREFIX = ascii ''multisig''"

definition SEED_VAULT :: bytes where
  "SEED_VAULT = ascii ''vault''"

definition SEED_TRANSACTION :: bytes where
  "SEED_TRANSACTION = ascii ''transaction''"

definition SEED_PROPOSAL :: bytes where
  "SEED_PROPOSAL = ascii ''proposal''"

definition PERMISSION_INITIATE :: u8 where
  "PERMISSION_INITIATE = push_bit 0 1"

definition PERMISSION_VOTE :: u8 where
  "PERMISSION_VOTE = push_bit 1 1"

definition MULTISIG_DISCRIMINATOR :: bytes where
  "MULTISIG_DISCRIMINATOR = [224, 116, 121, 186, 68, 161, 79, 236]"

definition squads_find_pda :: "'w cli \<Rightarrow> bytes list \<Rightarrow> pubkey" where
  "squads_find_pda C seeds = fst (pf_find_program_address (cl_platform C) seeds SQUADS_MULTISIG_PROGRAM_ID)"

record Multisig =
  ms_address :: pubkey
  ms_account :: MultisigAccount

definition multisig_vault :: "'w cli \<Rightarrow> Multisig \<Rightarrow> u8 \<Rightarrow> pubkey" where
  "multisig_vault C m vault_index =
     squads_find_pda C [SEED_PREFIX, to_bytes (ms_address m), SEED_VAULT, [vault_index]]"

definition multisig_transaction :: "'w cli \<Rightarrow> Multisig \<Rightarrow> u64 \<Rightarrow> pubkey" where
  "multisig_transaction C m transaction_index =
     squads_find_pda C [SEED_PREFIX, to_bytes (ms_address m), SEED_TRANSACTION, to_le 8 transaction_index]"

definition multisig_proposal :: "'w cli \<Rightarrow> Multisig \<Rightarrow> u64 \<Rightarrow> pubkey" where
  "multisig_proposal C m transaction_index =
     squads_find_pda C [SEED_PREFIX, to_bytes (ms_address m), SEED_TRANSACTION, to_le 8 transaction_index,
       SEED_PROPOSAL]"

section \<open>The multisig account\<close>

text \<open>Trailing bytes after the account's content are ignored by the deserialiser.\<close>

definition squads_decode :: "'w cli \<Rightarrow> bytes \<Rightarrow> bytes \<Rightarrow> MultisigAccount option" where
  "squads_decode C data discriminator =
     (if take (length discriminator) data = discriminator then cl_borsh_multisig C data else None)"

definition multisig_decode :: "'w cli \<Rightarrow> pubkey \<Rightarrow> pubkey \<Rightarrow> bytes \<Rightarrow> Multisig cli_result" where
  "multisig_decode C address owner data =
     bindE (ensure (owner = SQUADS_MULTISIG_PROGRAM_ID) (Bail ''not owned by the Squads program'')) (\<lambda>_.
     bindE (ok_or (squads_decode C data MULTISIG_DISCRIMINATOR) (Bail ''malformed multisig account'')) (\<lambda>account.
     Inr \<lparr>ms_address = address, ms_account = account\<rparr>))"

definition multisig_fetch :: "'w cli \<Rightarrow> 'w \<Rightarrow> pubkey \<Rightarrow> Multisig cli_result" where
  "multisig_fetch C w address =
     bindE (ok_or (cl_get_account C w address) (Bail ''failed to fetch Squads multisig'')) (\<lambda>account.
     multisig_decode C address (acc_owner account) (acc_data account))"

definition member_permissions :: "Multisig \<Rightarrow> pubkey \<Rightarrow> u8 cli_result" where
  "member_permissions m member =
     ok_or (map_option mb_mask (find (\<lambda>x. mb_key x = member) (ma_members (ms_account m))))
       (Bail ''not a member of multisig'')"

section \<open>The compact message\<close>

definition len_u8 :: "nat \<Rightarrow> u8 cli_result" where
  "len_u8 n = (if n < 256 then Inr (of_nat n) else Inl (Bail ''too many items for a Squads transaction''))"

fun transaction_message_ixs :: "compiled_instruction list \<Rightarrow> bytes \<Rightarrow> bytes cli_result" where
  "transaction_message_ixs [] data = Inr data"
| "transaction_message_ixs (ix # ixs) data =
     bindE (len_u8 (length (ci_accounts ix))) (\<lambda>accounts.
     bindE (if length (ci_data ix) < 2 ^ 16 then Inr (of_nat (length (ci_data ix)) :: u16)
            else Inl (Bail ''instruction data too long'')) (\<lambda>len.
     transaction_message_ixs ixs
       (data @ [ci_program_id_index ix] @ [accounts] @ ci_accounts ix @ to_le 2 len @ ci_data ix)))"

definition transaction_message :: "message \<Rightarrow> bytes cli_result" where
  "transaction_message m =
     (let num_signers = msg_num_required_signatures m;
          num_writable_non_signers =
            Option.bind (usize_checked_sub (length (msg_account_keys m)) (unat num_signers))
              (\<lambda>n. usize_checked_sub n (unat (msg_num_readonly_unsigned m))) in
      bindE (ok_or num_writable_non_signers (Bail ''malformed message header'')) (\<lambda>writable_non_signers.
      bindE (ok_or (checked_sub num_signers (msg_num_readonly_signed m)) (Bail ''malformed message header''))
        (\<lambda>writable_signers.
      bindE (if writable_non_signers < 256 then Inr (of_nat writable_non_signers)
             else Inl (Bail ''too many writable accounts'')) (\<lambda>writable_non_signers.
      bindE (len_u8 (length (msg_account_keys m))) (\<lambda>keys.
      bindE (len_u8 (length (msg_instructions m))) (\<lambda>ixs.
      bindE (transaction_message_ixs (msg_instructions m)
        ([num_signers, writable_signers, writable_non_signers, keys] @ concat (map to_bytes (msg_account_keys m)) @
         [ixs])) (\<lambda>data.
      Inr (data @ [0]))))))))"

section \<open>Instructions of the multisig program\<close>

text \<open>The generated builders: fixed accounts, the discriminator and the serialised arguments.\<close>

record VaultTransactionCreate =
  vtc_multisig :: pubkey
  vtc_transaction :: pubkey
  vtc_creator :: pubkey
  vtc_rent_payer :: pubkey
  vtc_system_program :: pubkey

definition vault_transaction_create_instruction ::
  "'w cli \<Rightarrow> VaultTransactionCreate \<Rightarrow> u8 \<Rightarrow> u8 \<Rightarrow> bytes \<Rightarrow> string option \<Rightarrow> instruction" where
  "vault_transaction_create_instruction C b vault_index ephemeral_signers message memo =
    \<lparr>ix_program_id = SQUADS_MULTISIG_PROGRAM_ID,
     ix_accounts =
      [meta_new (vtc_multisig b) False, meta_new (vtc_transaction b) False,
       meta_new_readonly (vtc_creator b) True, meta_new (vtc_rent_payer b) True,
       meta_new_readonly (vtc_system_program b) False],
     ix_data = [48, 250, 78, 168, 208, 226, 218, 211] @
       cl_borsh_vault_transaction_create C vault_index ephemeral_signers message memo\<rparr>"

record ProposalCreate =
  prc_multisig :: pubkey
  prc_proposal :: pubkey
  prc_creator :: pubkey
  prc_rent_payer :: pubkey
  prc_system_program :: pubkey

definition proposal_create_instruction ::
  "'w cli \<Rightarrow> ProposalCreate \<Rightarrow> u64 \<Rightarrow> bool \<Rightarrow> instruction" where
  "proposal_create_instruction C b transaction_index draft =
    \<lparr>ix_program_id = SQUADS_MULTISIG_PROGRAM_ID,
     ix_accounts =
      [meta_new_readonly (prc_multisig b) False, meta_new (prc_proposal b) False,
       meta_new_readonly (prc_creator b) True, meta_new (prc_rent_payer b) True,
       meta_new_readonly (prc_system_program b) False],
     ix_data = [220, 60, 73, 224, 30, 108, 79, 159] @ cl_borsh_proposal_create C transaction_index draft\<rparr>"

record ProposalApprove =
  pra_multisig :: pubkey
  pra_member :: pubkey
  pra_proposal :: pubkey

definition proposal_approve_instruction :: "'w cli \<Rightarrow> ProposalApprove \<Rightarrow> string option \<Rightarrow> instruction" where
  "proposal_approve_instruction C b memo =
    \<lparr>ix_program_id = SQUADS_MULTISIG_PROGRAM_ID,
     ix_accounts =
      [meta_new_readonly (pra_multisig b) False, meta_new (pra_member b) True,
       meta_new (pra_proposal b) False],
     ix_data = [144, 37, 164, 136, 188, 216, 42, 248] @ cl_borsh_proposal_approve C memo\<rparr>"

definition proposal_create_ix :: "'w cli \<Rightarrow> Multisig \<Rightarrow> pubkey \<Rightarrow> u64 \<Rightarrow> instruction" where
  "proposal_create_ix C m member transaction_index =
     proposal_create_instruction C
       \<lparr>prc_multisig = ms_address m, prc_proposal = multisig_proposal C m transaction_index,
        prc_creator = member, prc_rent_payer = member,
        prc_system_program = pf_system_program_id (cl_platform C)\<rparr> transaction_index False"

definition proposal_approve_ix :: "'w cli \<Rightarrow> Multisig \<Rightarrow> pubkey \<Rightarrow> u64 \<Rightarrow> instruction" where
  "proposal_approve_ix C m member transaction_index =
     proposal_approve_instruction C
       \<lparr>pra_multisig = ms_address m, pra_member = member,
        pra_proposal = multisig_proposal C m transaction_index\<rparr> None"

record Proposal =
  pp_instructions :: "instruction list"
  pp_transaction_index :: u64
  pp_transaction :: pubkey
  pp_proposal :: pubkey
  pp_approved :: bool

definition propose :: "'w cli \<Rightarrow> Multisig \<Rightarrow> pubkey \<Rightarrow> u8 \<Rightarrow> instruction list \<Rightarrow> Proposal cli_result" where
  "propose C m member vault_index ixs =
     bindE (member_permissions m member) (\<lambda>permissions.
     bindE (ensure (permissions AND PERMISSION_INITIATE \<noteq> 0) (Bail ''lacks the initiate permission'')) (\<lambda>_.
     bindE (ok_or (checked_add (ma_transaction_index (ms_account m)) 1)
       (Bail ''multisig transaction index overflow'')) (\<lambda>transaction_index.
     let transaction = multisig_transaction C m transaction_index;
         approved = (permissions AND PERMISSION_VOTE \<noteq> 0);
         message = cl_message_new C ixs (multisig_vault C m vault_index) in
     bindE (ensure (msg_num_required_signatures message = 1)
       (Bail ''a vault transaction is only signed by the vault'')) (\<lambda>_.
     bindE (transaction_message message) (\<lambda>encoded.
     Inr \<lparr>pp_instructions =
            [vault_transaction_create_instruction C
               \<lparr>vtc_multisig = ms_address m, vtc_transaction = transaction, vtc_creator = member,
                vtc_rent_payer = member, vtc_system_program = pf_system_program_id (cl_platform C)\<rparr>
               vault_index 0 encoded None,
             proposal_create_ix C m member transaction_index] @
            (if approved then [proposal_approve_ix C m member transaction_index] else []),
          pp_transaction_index = transaction_index, pp_transaction = transaction,
          pp_proposal = multisig_proposal C m transaction_index, pp_approved = approved\<rparr>)))))"

section \<open>The context of a command\<close>

record SquadsVault =
  sv_multisig :: pubkey
  sv_vault_index :: u8
  sv_vault :: pubkey

text \<open>The RPC client of the context is the surroundings; a keypair is its public key.\<close>

record Context =
  cx_signer :: pubkey
  cx_program_id :: pubkey
  cx_squads :: "SquadsVault option"

text \<open>The global arguments of the command line, without the URL of the node, which is in the surroundings.\<close>

record Cli =
  cli_keypair :: string
  cli_program_id :: ProgramIdArg
  cli_squads_multisig :: "pubkey option"
  cli_squads_vault_index :: "u8 option"

definition context_from_args :: "'w cli \<Rightarrow> 'w \<Rightarrow> Cli \<Rightarrow> Context cli_result" where
  "context_from_args C w args =
     bindE (ok_or (cl_read_keypair C (cli_keypair args)) (Bail ''failed to read keypair'')) (\<lambda>signer.
     bindE
       (case cli_squads_multisig args of
          Some multisig \<Rightarrow>
            (let vault_index = (case cli_squads_vault_index args of Some i \<Rightarrow> i | None \<Rightarrow> 0) in
             bindE (multisig_fetch C w multisig) (\<lambda>m.
             Inr (Some \<lparr>sv_multisig = multisig, sv_vault_index = vault_index,
                        sv_vault = multisig_vault C m vault_index\<rparr>)))
        | None \<Rightarrow>
            bindE (ensure (cli_squads_vault_index args = None)
              (Bail ''--squads-vault-index requires --squads-multisig'')) (\<lambda>_. Inr None)) (\<lambda>squads.
     Inr \<lparr>cx_signer = signer, cx_program_id = program_id_pubkey (cli_program_id args), cx_squads = squads\<rparr>))"

definition ctx_payer :: "Context \<Rightarrow> pubkey" where
  "ctx_payer ctx = (case cx_squads ctx of Some squads \<Rightarrow> sv_vault squads | None \<Rightarrow> cx_signer ctx)"

datatype TxSigner = TxKeypair pubkey | TxVault pubkey

fun tx_signer_pubkey :: "TxSigner \<Rightarrow> pubkey" where
  "tx_signer_pubkey (TxKeypair keypair) = keypair"
| "tx_signer_pubkey (TxVault vault) = vault"

definition signer_or :: "'w cli \<Rightarrow> Context \<Rightarrow> KeypairArg option \<Rightarrow> TxSigner cli_result" where
  "signer_or C ctx path =
     (case (cx_squads ctx, path) of
        (Some squads, None) \<Rightarrow> Inr (TxVault (sv_vault squads))
      | (Some _, Some path) \<Rightarrow> Inl (Bail ''co-signing is not possible with multisigs'')
      | (None, path) \<Rightarrow> bindE (read_keypair_or C path (cx_signer ctx)) (\<lambda>k. Inr (TxKeypair k)))"

record Proposed =
  pd_signature :: signature
  pd_multisig :: pubkey
  pd_vault :: pubkey
  pd_transaction_index :: u64
  pd_transaction :: pubkey
  pd_proposal :: pubkey
  pd_approved :: bool

datatype Submission = Sent signature | ProposedTx Proposed

text \<open>Signing panics when the keypairs do not fit the signers the instructions ask for.\<close>

definition send ::
  "'w cli \<Rightarrow> Context \<Rightarrow> instruction list \<Rightarrow> pubkey list \<Rightarrow> 'w \<Rightarrow> signature cli_result \<times> 'w" where
  "send C ctx ixs signers w =
     (case cl_latest_blockhash C w of
        None \<Rightarrow> (Inl (Bail ''failed to fetch blockhash''), w)
      | Some blockhash \<Rightarrow>
          (let tx = \<lparr>tx_instructions = ixs, tx_fee_payer = cx_signer ctx, tx_signers = signers,
                     tx_blockhash = blockhash\<rparr> in
           if cl_signable C tx then
             (let (r, w') = cl_send_and_confirm C w tx in (map_err TransactionFailed r, w'))
           else (Inl CliPanic, w)))"

text \<open>A simulated transaction is paid for by the payer of the context; \<open>None\<close> is a node that does not answer.\<close>

definition simulate :: "'w cli \<Rightarrow> Context \<Rightarrow> 'w \<Rightarrow> instruction list \<Rightarrow> simulation option" where
  "simulate C ctx w ixs = cl_simulate C w ixs (ctx_payer ctx)"

definition submit ::
  "'w cli \<Rightarrow> Context \<Rightarrow> instruction list \<Rightarrow> TxSigner list \<Rightarrow> 'w \<Rightarrow> Submission cli_result \<times> 'w" where
  "submit C ctx ixs signers w =
     (case cx_squads ctx of
        None \<Rightarrow>
          (let keypairs = cx_signer ctx #
             concat (map (\<lambda>s. case s of TxKeypair k \<Rightarrow> [k] | TxVault _ \<Rightarrow> []) signers);
               (r, w') = send C ctx ixs keypairs w in
           (bindE r (\<lambda>sig. Inr (Sent sig)), w'))
      | Some squads \<Rightarrow>
          if \<exists>s \<in> set signers. tx_signer_pubkey s \<noteq> sv_vault squads
          then (Inl (Bail ''a proposal is only signed by the vault''), w)
          else
            (case bindE (multisig_fetch C w (sv_multisig squads)) (\<lambda>m.
                propose C m (cx_signer ctx) (sv_vault_index squads) ixs) of
               Inl e \<Rightarrow> (Inl e, w)
             | Inr p \<Rightarrow>
                 (let (r, w') = send C ctx (pp_instructions p) [cx_signer ctx] w in
                  (bindE r (\<lambda>sig. Inr (ProposedTx
                     \<lparr>pd_signature = sig, pd_multisig = sv_multisig squads, pd_vault = sv_vault squads,
                      pd_transaction_index = pp_transaction_index p, pd_transaction = pp_transaction p,
                      pd_proposal = pp_proposal p, pd_approved = pp_approved p\<rparr>)), w'))))"

section \<open>Summaries\<close>

definition show_bool :: "bool \<Rightarrow> string" where
  "show_bool b = (if b then ''true'' else ''false'')"

definition proposed_summary :: "'w cli \<Rightarrow> Proposed \<Rightarrow> (string \<times> string) list" where
  "proposed_summary C p =
     [(''signature'', cl_signature_to_string C (pd_signature p)),
      (''squadsMultisig'', cl_pubkey_to_string C (pd_multisig p)),
      (''squadsVault'', cl_pubkey_to_string C (pd_vault p)),
      (''squadsTransactionIndex'', show_nat (unat (pd_transaction_index p))),
      (''squadsTransaction'', cl_pubkey_to_string C (pd_transaction p)),
      (''squadsProposal'', cl_pubkey_to_string C (pd_proposal p)),
      (''squadsApproved'', show_bool (pd_approved p))]"

fun submission_summary :: "'w cli \<Rightarrow> Submission \<Rightarrow> (string \<times> string) list \<Rightarrow> (string \<times> string) list" where
  "submission_summary C (Sent sig) rows = [(''signature'', cl_signature_to_string C sig)] @ rows"
| "submission_summary C (ProposedTx p) rows = proposed_summary C p @ rows"

text \<open>\<open>print_summary\<close> (\<open>utils/output.rs\<close>): the printed lines, keys aligned right.\<close>

definition print_summary :: "(string \<times> string) list \<Rightarrow> string list cli_result" where
  "print_summary results =
     (if results = [] then Inl CliPanic
      else
        (let max_key_len = Max (set (map (length \<circ> fst) results)) in
         Inr (map (\<lambda>(k, v). replicate (max_key_len - length k) CHR '' '' @ k @ '' = '' @ v) results)))"

section \<open>The compact message determines the message\<close>

definition compiled_ix_bytes :: "compiled_instruction \<Rightarrow> bytes" where
  "compiled_ix_bytes ix =
     [ci_program_id_index ix, of_nat (length (ci_accounts ix))] @ ci_accounts ix @
     to_le 2 (of_nat (length (ci_data ix)) :: u16) @ ci_data ix"

definition compiled_ix_fits :: "compiled_instruction \<Rightarrow> bool" where
  "compiled_ix_fits ix \<longleftrightarrow> length (ci_accounts ix) < 256 \<and> length (ci_data ix) < 2 ^ 16"

lemma transaction_message_ixs_Inr_iff:
  "transaction_message_ixs ixs data = Inr out \<longleftrightarrow>
    (\<forall>ix \<in> set ixs. compiled_ix_fits ix) \<and> out = data @ concat (map compiled_ix_bytes ixs)"
  by (induction ixs arbitrary: data)
    (auto simp: result_simps len_u8_def compiled_ix_fits_def compiled_ix_bytes_def split: if_splits)

lemma unat_of_nat_fits:
  "n < 256 \<Longrightarrow> unat (of_nat n :: u8) = n" "n < 65536 \<Longrightarrow> unat (of_nat n :: u16) = n"
  by (simp_all add: unsigned_of_nat take_bit_nat_eq_self)

lemma of_nat_u8_inj: "a < 256 \<Longrightarrow> b < 256 \<Longrightarrow> (of_nat a :: u8) = of_nat b \<Longrightarrow> a = b"
  by (metis unat_of_nat_fits(1))

lemma compiled_ix_prefix:
  assumes eq: "compiled_ix_bytes a @ xs = compiled_ix_bytes b @ ys"
    and fits: "compiled_ix_fits a" "compiled_ix_fits b"
  shows "a = b \<and> xs = ys"
proof -
  from eq fits have index: "ci_program_id_index a = ci_program_id_index b"
    and accounts: "length (ci_accounts a) = length (ci_accounts b)"
    by (auto simp: compiled_ix_bytes_def compiled_ix_fits_def dest: of_nat_u8_inj)
  with eq have acc: "ci_accounts a = ci_accounts b"
    and rest: "to_le 2 (of_nat (length (ci_data a)) :: u16) @ ci_data a @ xs =
      to_le 2 (of_nat (length (ci_data b)) :: u16) @ ci_data b @ ys"
    by (simp_all add: compiled_ix_bytes_def)
  then have "(of_nat (length (ci_data a)) :: u16) = of_nat (length (ci_data b))"
    by (simp add: u16_codec.enc_inj)
  moreover have "length (ci_data a) < 65536" "length (ci_data b) < 65536"
    using fits by (simp_all add: compiled_ix_fits_def)
  ultimately have "length (ci_data a) = length (ci_data b)" by (metis unat_of_nat_fits(2))
  with rest have "ci_data a = ci_data b" "xs = ys" by simp_all
  with index acc show ?thesis by simp
qed

lemma compiled_ixs_inj:
  assumes "concat (map compiled_ix_bytes as) @ xs = concat (map compiled_ix_bytes bs) @ ys"
    and "length as = length bs"
    and "\<forall>ix \<in> set as. compiled_ix_fits ix" "\<forall>ix \<in> set bs. compiled_ix_fits ix"
  shows "as = bs"
  using assms(2,1,3,4)
proof (induction as bs rule: list_induct2)
  case (Cons a as b bs)
  then show ?case using compiled_ix_prefix [of a _ b] by simp
qed simp

lemma usize_checked_sub_Some_iff: "usize_checked_sub a b = Some c \<longleftrightarrow> a = b + c"
  by (auto simp: usize_checked_sub_def)

lemma transaction_message_Inr:
  assumes "transaction_message m = Inr out"
  obtains n where "length (msg_account_keys m) = unat (msg_num_required_signatures m) + unat (msg_num_readonly_unsigned m) + n"
    and "n < 256" and "msg_num_readonly_signed m \<le> msg_num_required_signatures m"
    and "length (msg_account_keys m) < 256" and "length (msg_instructions m) < 256"
    and "\<forall>ix \<in> set (msg_instructions m). compiled_ix_fits ix"
    and "out = [msg_num_required_signatures m, msg_num_required_signatures m - msg_num_readonly_signed m, of_nat n,
      of_nat (length (msg_account_keys m))] @ concat (map to_bytes (msg_account_keys m)) @
      [of_nat (length (msg_instructions m))] @ concat (map compiled_ix_bytes (msg_instructions m)) @ [0]"
proof -
  from assms obtain r n where r: "length (msg_account_keys m) = unat (msg_num_required_signatures m) + r"
    "r = unat (msg_num_readonly_unsigned m) + n"
    and rest: "n < 256" "msg_num_readonly_signed m \<le> msg_num_required_signatures m"
    "length (msg_account_keys m) < 256" "length (msg_instructions m) < 256"
    "\<forall>ix \<in> set (msg_instructions m). compiled_ix_fits ix"
    and out: "out = [msg_num_required_signatures m, msg_num_required_signatures m - msg_num_readonly_signed m, of_nat n,
      of_nat (length (msg_account_keys m))] @ concat (map to_bytes (msg_account_keys m)) @
      [of_nat (length (msg_instructions m))] @ concat (map compiled_ix_bytes (msg_instructions m)) @ [0]"
    by (auto simp: transaction_message_def result_simps len_u8_def transaction_message_ixs_Inr_iff
        usize_checked_sub_Some_iff checked_sub_def bind_eq_Some_conv split: if_splits)
  from r have "length (msg_account_keys m) =
      unat (msg_num_required_signatures m) + unat (msg_num_readonly_unsigned m) + n" by simp
  from that [OF this rest out] show thesis .
qed

lemma transaction_message_inj:
  assumes "transaction_message a = Inr out" and "transaction_message b = Inr out"
  shows "a = b"
proof -
  from assms(1) obtain n where a: "length (msg_account_keys a) =
      unat (msg_num_required_signatures a) + unat (msg_num_readonly_unsigned a) + n"
    "n < 256" "msg_num_readonly_signed a \<le> msg_num_required_signatures a"
    "length (msg_account_keys a) < 256" "length (msg_instructions a) < 256"
    "\<forall>ix \<in> set (msg_instructions a). compiled_ix_fits ix"
    and out_a: "out = [msg_num_required_signatures a, msg_num_required_signatures a - msg_num_readonly_signed a, of_nat n,
      of_nat (length (msg_account_keys a))] @ concat (map to_bytes (msg_account_keys a)) @
      [of_nat (length (msg_instructions a))] @ concat (map compiled_ix_bytes (msg_instructions a)) @ [0]"
    by (rule transaction_message_Inr)
  from assms(2) obtain k where b: "length (msg_account_keys b) =
      unat (msg_num_required_signatures b) + unat (msg_num_readonly_unsigned b) + k"
    "k < 256" "msg_num_readonly_signed b \<le> msg_num_required_signatures b"
    "length (msg_account_keys b) < 256" "length (msg_instructions b) < 256"
    "\<forall>ix \<in> set (msg_instructions b). compiled_ix_fits ix"
    and out_b: "out = [msg_num_required_signatures b, msg_num_required_signatures b - msg_num_readonly_signed b, of_nat k,
      of_nat (length (msg_account_keys b))] @ concat (map to_bytes (msg_account_keys b)) @
      [of_nat (length (msg_instructions b))] @ concat (map compiled_ix_bytes (msg_instructions b)) @ [0]"
    by (rule transaction_message_Inr)
  from out_a out_b have signers: "msg_num_required_signatures a = msg_num_required_signatures b"
    and "msg_num_required_signatures a - msg_num_readonly_signed a =
      msg_num_required_signatures a - msg_num_readonly_signed b"
    and n: "(of_nat n :: u8) = of_nat k"
    and keys: "(of_nat (length (msg_account_keys a)) :: u8) = of_nat (length (msg_account_keys b))"
    by auto
  from this(2) have readonly: "msg_num_readonly_signed a = msg_num_readonly_signed b" by simp
  have lengths: "n = k" "length (msg_account_keys a) = length (msg_account_keys b)"
    using of_nat_u8_inj [OF a(2) b(2) n] of_nat_u8_inj [OF a(4) b(4) keys] by simp_all
  then have "unat (msg_num_readonly_unsigned a) = unat (msg_num_readonly_unsigned b)"
    using a(1) b(1) signers by simp
  then have unsigned: "msg_num_readonly_unsigned a = msg_num_readonly_unsigned b"
    by (simp add: word_unat_eq_iff)
  have "length (concat (map to_bytes (msg_account_keys a))) = length (concat (map to_bytes (msg_account_keys b)))"
    using lengths(2) by (simp add: pubkey_codec.length_concat_enc)
  with out_a out_b have "concat (map to_bytes (msg_account_keys a)) = concat (map to_bytes (msg_account_keys b))"
    and count: "(of_nat (length (msg_instructions a)) :: u8) = of_nat (length (msg_instructions b))"
    and ixs: "concat (map compiled_ix_bytes (msg_instructions a)) @ [0] = concat (map compiled_ix_bytes (msg_instructions b)) @ [0]"
    by simp_all
  then have "msg_account_keys a = msg_account_keys b" by (simp add: pubkey_codec.concat_enc_inj)
  moreover have "msg_instructions a = msg_instructions b"
    using compiled_ixs_inj [OF ixs of_nat_u8_inj [OF a(5) b(5) count] a(6) b(6)] .
  ultimately show ?thesis using signers readonly unsigned by simp
qed

section \<open>What a proposal consists of\<close>

lemma member_permissions_Inr:
  "member_permissions m member = Inr perms \<Longrightarrow>
    \<exists>x \<in> set (ma_members (ms_account m)). mb_key x = member \<and> mb_mask x = perms"
  by (auto simp: member_permissions_def ok_or_Inr_iff find_Some_iff)

lemma propose_Inr:
  assumes "propose C m member vault_index ixs = Inr p"
  obtains perms encoded where
    "member_permissions m member = Inr perms" "perms AND PERMISSION_INITIATE \<noteq> 0"
    "unat (pp_transaction_index p) = unat (ma_transaction_index (ms_account m)) + 1"
    "msg_num_required_signatures (cl_message_new C ixs (multisig_vault C m vault_index)) = 1"
    "transaction_message (cl_message_new C ixs (multisig_vault C m vault_index)) = Inr encoded"
    "pp_instructions p =
      [vault_transaction_create_instruction C
         \<lparr>vtc_multisig = ms_address m, vtc_transaction = pp_transaction p, vtc_creator = member,
          vtc_rent_payer = member, vtc_system_program = pf_system_program_id (cl_platform C)\<rparr>
         vault_index 0 encoded None,
       proposal_create_ix C m member (pp_transaction_index p)] @
      (if perms AND PERMISSION_VOTE \<noteq> 0 then [proposal_approve_ix C m member (pp_transaction_index p)] else [])"
    "pp_transaction p = multisig_transaction C m (pp_transaction_index p)"
    "pp_proposal p = multisig_proposal C m (pp_transaction_index p)"
    "pp_approved p \<longleftrightarrow> perms AND PERMISSION_VOTE \<noteq> 0"
  using assms that
  by (auto simp: propose_def bindE_Inr_iff ensure_Inr_iff ok_or_Inr_iff checked_add_Some_iff Let_def)

text \<open>The accounts an instruction wants signed.\<close>

definition ix_signers :: "instruction \<Rightarrow> pubkey set" where
  "ix_signers ix = am_pubkey ` set (filter am_is_signer (ix_accounts ix))"

lemma squads_ix_signers:
  "ix_signers (vault_transaction_create_instruction C b i e msg memo) = {vtc_creator b, vtc_rent_payer b}"
  "ix_signers (proposal_create_ix C m member n) = {member}"
  "ix_signers (proposal_approve_ix C m member n) = {member}"
  by (simp_all add: ix_signers_def vault_transaction_create_instruction_def proposal_create_ix_def
      proposal_create_instruction_def proposal_approve_ix_def proposal_approve_instruction_def
      meta_new_def meta_new_readonly_def)

lemma squads_ix_program:
  "ix_program_id (vault_transaction_create_instruction C b i e msg memo) = SQUADS_MULTISIG_PROGRAM_ID"
  "ix_program_id (proposal_create_ix C m member n) = SQUADS_MULTISIG_PROGRAM_ID"
  "ix_program_id (proposal_approve_ix C m member n) = SQUADS_MULTISIG_PROGRAM_ID"
  by (simp_all add: vault_transaction_create_instruction_def proposal_create_ix_def
      proposal_create_instruction_def proposal_approve_ix_def proposal_approve_instruction_def)

lemma propose_signers:
  assumes "propose C m member vault_index ixs = Inr p" and "ix \<in> set (pp_instructions p)"
  shows "ix_program_id ix = SQUADS_MULTISIG_PROGRAM_ID \<and> ix_signers ix = {member}"
  using assms(1)
proof (rule propose_Inr)
  fix perms encoded
  assume "pp_instructions p =
      [vault_transaction_create_instruction C
         \<lparr>vtc_multisig = ms_address m, vtc_transaction = pp_transaction p, vtc_creator = member,
          vtc_rent_payer = member, vtc_system_program = pf_system_program_id (cl_platform C)\<rparr>
         vault_index 0 encoded None,
       proposal_create_ix C m member (pp_transaction_index p)] @
      (if perms AND PERMISSION_VOTE \<noteq> 0 then [proposal_approve_ix C m member (pp_transaction_index p)] else [])"
  with assms(2) show ?thesis
    by (auto simp: squads_ix_signers squads_ix_program split: if_splits)
qed

section \<open>What a submission sends\<close>

lemma send_Inr:
  assumes "send C ctx ixs signers w = (Inr sig, w')"
  obtains blockhash where "cl_latest_blockhash C w = Some blockhash"
    and "cl_send_and_confirm C w \<lparr>tx_instructions = ixs, tx_fee_payer = cx_signer ctx, tx_signers = signers,
      tx_blockhash = blockhash\<rparr> = (Inr sig, w')"
  using assms that
  by (auto simp: send_def Let_def map_err_Inr_iff split: option.splits prod.splits if_splits)

lemma submit_direct:
  assumes "cx_squads ctx = None" and "submit C ctx ixs signers w = (Inr sub, w')"
  obtains sig keypairs where "sub = Sent sig" and "send C ctx ixs (cx_signer ctx # keypairs) w = (Inr sig, w')"
  using assms that by (auto simp: submit_def Let_def bindE_Inr_iff split: prod.splits)

lemma submit_squads:
  assumes "cx_squads ctx = Some squads" and "submit C ctx ixs signers w = (Inr sub, w')"
  obtains m p sig where "multisig_fetch C w (sv_multisig squads) = Inr m"
    and "propose C m (cx_signer ctx) (sv_vault_index squads) ixs = Inr p"
    and "send C ctx (pp_instructions p) [cx_signer ctx] w = (Inr sig, w')"
    and "\<forall>s \<in> set signers. tx_signer_pubkey s = sv_vault squads"
    and "sub = ProposedTx \<lparr>pd_signature = sig, pd_multisig = sv_multisig squads, pd_vault = sv_vault squads,
      pd_transaction_index = pp_transaction_index p, pd_transaction = pp_transaction p,
      pd_proposal = pp_proposal p, pd_approved = pp_approved p\<rparr>"
  using assms that
  by (auto simp: submit_def Let_def bindE_Inr_iff split: prod.splits if_splits sum.splits)

lemma multisig_fetch_address: "multisig_fetch C w a = Inr m \<Longrightarrow> ms_address m = a"
  by (auto simp: multisig_fetch_def multisig_decode_def bindE_Inr_iff)

section \<open>Properties\<close>

text \<open>
  The compact encoding of a message determines the message: two messages with the same
  encoding have the same signer and account counts, the same accounts in the same order and the
  same instructions, so the members of the multisig approve exactly what was compiled.
\<close>

theorem squads_message_determined:
  assumes "transaction_message a = Inr out"
  shows "transaction_message b = Inr out \<longleftrightarrow> a = b"
  using assms transaction_message_inj by blast

text \<open>
  With a multisig configured, a submission never sends the given instructions themselves. It
  sends only a proposal of the local key, which is a member with the right to initiate: every
  instruction belongs to the multisig program and asks for no other signature, the proposal takes
  the next transaction index and is approved exactly if the member may vote; and the vault is the
  only one the given instructions want to sign.
\<close>

theorem squads_submission_only_proposes:
  assumes squads: "cx_squads ctx = Some squads" and submit: "submit C ctx ixs signers w = (Inr sub, w')"
  shows "\<exists>m member p sig blockhash.
    multisig_fetch C w (sv_multisig squads) = Inr m \<and>
    propose C m (cx_signer ctx) (sv_vault_index squads) ixs = Inr p \<and>
    member \<in> set (ma_members (ms_account m)) \<and> mb_key member = cx_signer ctx \<and>
    mb_mask member AND PERMISSION_INITIATE \<noteq> 0 \<and>
    (pp_approved p \<longleftrightarrow> mb_mask member AND PERMISSION_VOTE \<noteq> 0) \<and>
    unat (pp_transaction_index p) = unat (ma_transaction_index (ms_account m)) + 1 \<and>
    msg_num_required_signatures (cl_message_new C ixs (multisig_vault C m (sv_vault_index squads))) = 1 \<and>
    (\<forall>ix \<in> set (pp_instructions p). ix_program_id ix = SQUADS_MULTISIG_PROGRAM_ID \<and> ix_signers ix = {cx_signer ctx}) \<and>
    (\<forall>s \<in> set signers. tx_signer_pubkey s = sv_vault squads) \<and>
    cl_send_and_confirm C w \<lparr>tx_instructions = pp_instructions p, tx_fee_payer = cx_signer ctx,
      tx_signers = [cx_signer ctx], tx_blockhash = blockhash\<rparr> = (Inr sig, w') \<and>
    sub = ProposedTx \<lparr>pd_signature = sig, pd_multisig = sv_multisig squads,
      pd_vault = sv_vault squads, pd_transaction_index = pp_transaction_index p, pd_transaction = pp_transaction p,
      pd_proposal = pp_proposal p, pd_approved = pp_approved p\<rparr>"
proof -
  from squads submit obtain m p sig where m: "multisig_fetch C w (sv_multisig squads) = Inr m"
    and p: "propose C m (cx_signer ctx) (sv_vault_index squads) ixs = Inr p"
    and send: "send C ctx (pp_instructions p) [cx_signer ctx] w = (Inr sig, w')"
    and vault: "\<forall>s \<in> set signers. tx_signer_pubkey s = sv_vault squads"
    and sub: "sub = ProposedTx \<lparr>pd_signature = sig, pd_multisig = sv_multisig squads, pd_vault = sv_vault squads,
      pd_transaction_index = pp_transaction_index p, pd_transaction = pp_transaction p,
      pd_proposal = pp_proposal p, pd_approved = pp_approved p\<rparr>"
    by (rule submit_squads)
  from p obtain perms where perms: "member_permissions m (cx_signer ctx) = Inr perms"
    "perms AND PERMISSION_INITIATE \<noteq> 0" "pp_approved p \<longleftrightarrow> perms AND PERMISSION_VOTE \<noteq> 0"
    and index: "unat (pp_transaction_index p) = unat (ma_transaction_index (ms_account m)) + 1"
      "msg_num_required_signatures (cl_message_new C ixs (multisig_vault C m (sv_vault_index squads))) = 1"
    by (rule propose_Inr) blast
  from member_permissions_Inr [OF perms(1)] obtain member where
    member: "member \<in> set (ma_members (ms_account m))" "mb_key member = cx_signer ctx" and mask: "mb_mask member = perms"
    by blast
  from send obtain blockhash where sent: "cl_send_and_confirm C w \<lparr>tx_instructions = pp_instructions p,
      tx_fee_payer = cx_signer ctx, tx_signers = [cx_signer ctx], tx_blockhash = blockhash\<rparr> = (Inr sig, w')"
    by (rule send_Inr)
  have signed: "\<forall>ix \<in> set (pp_instructions p). ix_program_id ix = SQUADS_MULTISIG_PROGRAM_ID \<and> ix_signers ix = {cx_signer ctx}"
    using propose_signers [OF p] by blast
  show ?thesis
    by (intro exI conjI) (fact m p member perms(2,3) [folded mask] index signed vault sent sub)+
qed

end
