(* ===== verification/CliToken.thy ===== *)
theory CliToken
  imports Squads
begin

text \<open>
  Resolving the tokens a user names (\<open>test-cli/src/utils/token.rs\<close>): a symbol, a mint or a token
  account becomes a token account with its mint and token program, and the instruction creating
  it when it does not exist; and the token instructions an order needs
  (\<open>test-cli/src/utils/spl_instructions.rs\<close>). The lemmas show what a resolved token guarantees.
\<close>

section \<open>Known tokens\<close>

definition DEVNET_GENESIS_HASH :: string where
  "DEVNET_GENESIS_HASH = ''EtWTRABZaYq6iMfeYKouRu166VU2xqa1wcaWoxPkrZBG''"

text \<open>The registry of recognised symbols per network; the mint address is base58-decoded.\<close>

definition REGISTRY :: "(string \<times> string \<times> pubkey) list" where
  "REGISTRY =
     [(DEVNET_GENESIS_HASH, ''USDC'', new_from_array
        [59, 68, 44, 179, 145, 33, 87, 241, 58, 147, 61, 1, 52, 40, 45, 3,
         43, 95, 254, 205, 1, 162, 219, 241, 183, 121, 6, 8, 223, 0, 46, 167])]"

definition known_token :: "string \<Rightarrow> string \<Rightarrow> pubkey option" where
  "known_token genesis_hash symbol =
     map_option (\<lambda>(_, _, known). known) (find (\<lambda>(g, s, _). g = genesis_hash \<and> s = symbol) REGISTRY)"

section \<open>Resolution\<close>

record TokenAccountInfo =
  ti_account :: pubkey
  ti_mint :: pubkey
  ti_token_program :: TokenProgram

text \<open>Of the decoded mint only the decimals are read.\<close>

record TokenAccountDetails =
  td_handle :: TokenAccountInfo
  td_decimals :: u8
  td_create_ata :: "pubkey option"

definition create_ata_ix :: "'w cli \<Rightarrow> TokenAccountDetails \<Rightarrow> pubkey \<Rightarrow> instruction option" where
  "create_ata_ix C d payer =
     map_option (\<lambda>owner. cl_create_ata_idempotent C payer owner (ti_mint (td_handle d))
       (token_program_address (cl_platform C) (ti_token_program (td_handle d)))) (td_create_ata d)"

definition token_program_of :: "'w cli \<Rightarrow> account \<Rightarrow> TokenProgram cli_result" where
  "token_program_of C account =
     map_err (\<lambda>_. Bail ''not a supported token program'') (token_program_try_from (cl_platform C) (acc_owner account))"

definition determine_create_ata :: "'w cli \<Rightarrow> 'w \<Rightarrow> pubkey \<Rightarrow> pubkey \<Rightarrow> pubkey option cli_result" where
  "determine_create_ata C w token_account_address owner =
     (case cl_get_account_data C w token_account_address of
        None \<Rightarrow> Inr (Some owner)
      | Some data \<Rightarrow>
          bindE (ensure (cl_unpack_token_account C data \<noteq> None) (Bail ''not a token account'')) (\<lambda>_. Inr None))"

definition fetch_mint :: "'w cli \<Rightarrow> 'w \<Rightarrow> pubkey \<Rightarrow> (TokenProgram \<times> u8) cli_result" where
  "fetch_mint C w mint =
     bindE (ok_or (cl_get_account C w mint) (Bail ''mint account not found'')) (\<lambda>account.
     bindE (token_program_of C account) (\<lambda>token_program.
     bindE (ok_or (cl_unpack_mint C (acc_data account)) (Bail ''not a mint'')) (\<lambda>mint_data.
     Inr (token_program, mint_data))))"

definition resolve_from_mint :: "'w cli \<Rightarrow> 'w \<Rightarrow> pubkey \<Rightarrow> pubkey \<Rightarrow> TokenAccountDetails cli_result" where
  "resolve_from_mint C w owner mint =
     bindE (fetch_mint C w mint) (\<lambda>(token_program, mint_data).
     let ata = cl_associated_token_address C owner mint (token_program_address (cl_platform C) token_program) in
     bindE (determine_create_ata C w ata owner) (\<lambda>create_ata.
     Inr \<lparr>td_handle = \<lparr>ti_account = ata, ti_mint = mint, ti_token_program = token_program\<rparr>,
          td_decimals = mint_data, td_create_ata = create_ata\<rparr>))"

definition interpret_token_from_user_input ::
  "'w cli \<Rightarrow> 'w \<Rightarrow> pubkey \<Rightarrow> pubkey \<Rightarrow> TokenAccountDetails cli_result" where
  "interpret_token_from_user_input C w owner token_account_or_mint =
     bindE (ok_or (cl_get_account C w token_account_or_mint) (Bail ''account not found on-chain'')) (\<lambda>account.
     bindE (token_program_of C account) (\<lambda>token_program.
     case cl_unpack_token_account C (acc_data account) of
       Some (mint, amount) \<Rightarrow>
         bindE (fetch_mint C w mint) (\<lambda>(_, mint_data).
         Inr \<lparr>td_handle = \<lparr>ti_account = token_account_or_mint, ti_mint = mint, ti_token_program = token_program\<rparr>,
              td_decimals = mint_data, td_create_ata = None\<rparr>)
     | None \<Rightarrow>
         (case cl_unpack_mint C (acc_data account) of
            Some mint_data \<Rightarrow>
              (let ata = cl_associated_token_address C owner token_account_or_mint
                 (token_program_address (cl_platform C) token_program) in
               bindE (determine_create_ata C w ata owner) (\<lambda>create_ata.
               Inr \<lparr>td_handle = \<lparr>ti_account = ata, ti_mint = token_account_or_mint, ti_token_program = token_program\<rparr>,
                    td_decimals = mint_data, td_create_ata = create_ata\<rparr>))
          | None \<Rightarrow> Inl (Bail ''could not be unpacked as a token account or mint''))))"

definition resolve :: "'w cli \<Rightarrow> 'w \<Rightarrow> pubkey \<Rightarrow> string \<Rightarrow> TokenAccountDetails cli_result" where
  "resolve C w owner token_str =
     (let upper = to_uppercase C token_str in
      if upper = ''SOL'' \<or> upper = ''WSOL'' then resolve_from_mint C w owner (cl_native_mint C)
      else
        (case cl_pubkey_from_str C token_str of
           Some pubkey \<Rightarrow> interpret_token_from_user_input C w owner pubkey
         | None \<Rightarrow>
             bindE (ok_or (cl_genesis_hash C w) (Bail ''failed to fetch genesis hash'')) (\<lambda>genesis_hash.
             case known_token genesis_hash upper of
               Some known \<Rightarrow> resolve_from_mint C w owner known
             | None \<Rightarrow> Inl (Bail ''unknown token''))))"

definition resolve_from_token_account :: "'w cli \<Rightarrow> 'w \<Rightarrow> pubkey \<Rightarrow> TokenAccountInfo cli_result" where
  "resolve_from_token_account C w token_account =
     bindE (ok_or (cl_get_account C w token_account) (Bail ''token account not found on-chain'')) (\<lambda>account.
     bindE (token_program_of C account) (\<lambda>token_program.
     bindE (ok_or (cl_unpack_token_account C (acc_data account)) (Bail ''not a token account'')) (\<lambda>(mint, amount).
     Inr \<lparr>ti_account = token_account, ti_mint = mint, ti_token_program = token_program\<rparr>)))"

section \<open>Token instructions\<close>

definition cli_find_state_pda :: "'w cli \<Rightarrow> pubkey \<Rightarrow> pubkey" where
  "cli_find_state_pda C program_id = fst (find_state_pda (cl_platform C) program_id)"

definition wrap_sol ::
  "'w cli \<Rightarrow> 'w \<Rightarrow> pubkey \<Rightarrow> u64 \<Rightarrow> (pubkey \<times> instruction list) cli_result" where
  "wrap_sol C w payer amount =
     bindE (resolve C w payer ''WSOL'') (\<lambda>wsol.
     let account = ti_account (td_handle wsol) in
     bindE (ok_or (cl_sync_native C (token_program_address (cl_platform C) (ti_token_program (td_handle wsol))) account)
       (Bail ''failed to build SyncNative instruction'')) (\<lambda>sync_native.
     Inr (account,
       (case create_ata_ix C wsol payer of Some ix \<Rightarrow> [ix] | None \<Rightarrow> []) @
       [cl_system_transfer C payer account amount, sync_native])))"

definition approve ::
  "'w cli \<Rightarrow> pubkey \<Rightarrow> TokenAccountInfo \<Rightarrow> pubkey \<Rightarrow> u64 \<Rightarrow> instruction cli_result" where
  "approve C program_id token owner amount =
     ok_or (cl_approve C (token_program_address (cl_platform C) (ti_token_program token)) (ti_account token)
       (cli_find_state_pda C program_id) owner amount) (Bail ''failed to build Approve instruction'')"

section \<open>What a resolved token guarantees\<close>

text \<open>
  Either the account exists and decodes as a token account, and no instruction creates it; or it
  is the owner's associated account of the mint, is missing, and is created for that owner.
\<close>

definition resolved_ok :: "'w cli \<Rightarrow> 'w \<Rightarrow> pubkey \<Rightarrow> TokenAccountDetails \<Rightarrow> bool" where
  "resolved_ok C w owner d \<longleftrightarrow>
     (let h = td_handle d;
          ata = cl_associated_token_address C owner (ti_mint h)
            (token_program_address (cl_platform C) (ti_token_program h)) in
      (\<exists>account. cl_get_account C w (ti_mint h) = Some account \<and>
         cl_unpack_mint C (acc_data account) = Some (td_decimals d)) \<and>
      (case td_create_ata d of
         Some o1 \<Rightarrow> o1 = owner \<and> ti_account h = ata \<and> cl_get_account_data C w ata = None
       | None \<Rightarrow>
           (ti_account h = ata \<and>
            (\<exists>data. cl_get_account_data C w ata = Some data \<and> cl_unpack_token_account C data \<noteq> None)) \<or>
           (\<exists>account amount. cl_get_account C w (ti_account h) = Some account \<and>
              cl_unpack_token_account C (acc_data account) = Some (ti_mint h, amount) \<and>
              acc_owner account = token_program_address (cl_platform C) (ti_token_program h))))"

text \<open>
  Which token a text stands for: \<open>SOL\<close> and \<open>WSOL\<close> for the native mint, an address for that token
  account or for that mint, anything else for the mint of that symbol on the node's cluster. A mint
  stands for the owner's associated account of it.
\<close>

definition names_token :: "'w cli \<Rightarrow> 'w \<Rightarrow> pubkey \<Rightarrow> string \<Rightarrow> TokenAccountInfo \<Rightarrow> bool" where
  "names_token C w owner token_str h \<longleftrightarrow>
     (let upper = to_uppercase C token_str;
          associated = (ti_account h = cl_associated_token_address C owner (ti_mint h)
            (token_program_address (cl_platform C) (ti_token_program h))) in
      if upper \<in> {''SOL'', ''WSOL''} then ti_mint h = cl_native_mint C \<and> associated
      else
        (case cl_pubkey_from_str C token_str of
           Some k \<Rightarrow> ti_account h = k \<or> ti_mint h = k \<and> associated
         | None \<Rightarrow> associated \<and> (\<exists>cluster. cl_genesis_hash C w = Some cluster \<and> known_token cluster upper = Some (ti_mint h))))"

lemma token_program_of_Inr:
  "token_program_of C account = Inr tp \<Longrightarrow> acc_owner account = token_program_address (cl_platform C) tp"
  by (auto simp: token_program_of_def map_err_Inr_iff token_program_try_from_Inr)

lemma determine_create_ata_Inr:
  "determine_create_ata C w a owner = Inr r \<longleftrightarrow>
    (cl_get_account_data C w a = None \<and> r = Some owner) \<or>
    (\<exists>data. cl_get_account_data C w a = Some data \<and> cl_unpack_token_account C data \<noteq> None \<and> r = None)"
  by (auto simp: determine_create_ata_def result_simps split: option.splits)

lemma fetch_mint_Inr:
  "fetch_mint C w mint = Inr (tp, dec) \<Longrightarrow>
    \<exists>account. cl_get_account C w mint = Some account \<and> cl_unpack_mint C (acc_data account) = Some dec \<and>
      token_program_of C account = Inr tp"
  by (auto simp: fetch_mint_def result_simps)

lemma resolve_from_mint_ok: "resolve_from_mint C w owner mint = Inr d \<Longrightarrow> resolved_ok C w owner d"
  by (auto simp: resolve_from_mint_def bindE_Inr_iff Let_def resolved_ok_def determine_create_ata_Inr
      dest!: fetch_mint_Inr)

lemma interpret_token_ok: "interpret_token_from_user_input C w owner k = Inr d \<Longrightarrow> resolved_ok C w owner d"
  by (auto simp: interpret_token_from_user_input_def bindE_Inr_iff ok_or_Inr_iff Let_def resolved_ok_def
      determine_create_ata_Inr token_program_of_Inr split: option.splits dest!: fetch_mint_Inr)

lemma resolve_ok: "resolve C w owner s = Inr d \<Longrightarrow> resolved_ok C w owner d"
  by (auto simp: resolve_def bindE_Inr_iff Let_def split: if_splits option.splits
      dest: resolve_from_mint_ok interpret_token_ok)

lemma resolve_names: "resolve C w owner s = Inr d \<Longrightarrow> names_token C w owner s (td_handle d)"
  by (auto simp: resolve_def names_token_def resolve_from_mint_def interpret_token_from_user_input_def bindE_Inr_iff
      ok_or_Inr_iff Let_def split: if_splits option.splits)

lemma resolve_from_token_account_Inr:
  "resolve_from_token_account C w a = Inr info \<Longrightarrow> ti_account info = a \<and>
    (\<exists>account amount. cl_get_account C w a = Some account \<and>
      cl_unpack_token_account C (acc_data account) = Some (ti_mint info, amount))"
  by (auto simp: resolve_from_token_account_def bindE_Inr_iff ok_or_Inr_iff)

end
