(* ===== verification/CliCommands.thy ===== *)
theory CliCommands
  imports CliToken
begin

text \<open>
  The commands of the tool other than \<open>settle\<close> (\<open>test-cli/src/cmd\<close>): initialising the program,
  managing solvers and roles, placing an order, closing orders, creating and closing buffers. A
  command returns the lines it prints and the chain after it. The lemmas show which buffers the
  buffer commands touch and that the order placed is the one asked for.
\<close>

text \<open>A command's outcome: the lines it prints, its error if it fails, and the chain afterwards.\<close>

type_synonym 'w outcome = "string list \<times> unit cli_result \<times> 'w"

definition fail :: "cli_error \<Rightarrow> 'w \<Rightarrow> 'w outcome" where
  "fail e w = ([], Inl e, w)"

definition print_rows :: "(string \<times> string) list \<Rightarrow> 'w \<Rightarrow> 'w outcome" where
  "print_rows rows w =
     (case print_summary rows of Inl e \<Rightarrow> fail e w | Inr lines \<Rightarrow> (lines, Inr (), w))"

definition finish ::
  "Submission cli_result \<times> 'w \<Rightarrow> (Submission \<Rightarrow> (string \<times> string) list) \<Rightarrow> 'w outcome" where
  "finish r rows =
     (case r of (Inl e, w) \<Rightarrow> fail e w | (Inr submission, w) \<Rightarrow> print_rows (rows submission) w)"

section \<open>Initialising, solvers and roles\<close>

record InitializeArgs =
  ia_manager :: "pubkey option"
  ia_solver_authority :: "pubkey option"
  ia_reclaim_authority :: "pubkey option"
  ia_settlement_owned_order_authority :: "pubkey option"

definition unwrap_or :: "'a option \<Rightarrow> 'a \<Rightarrow> 'a" where
  "unwrap_or x d = (case x of Some v \<Rightarrow> v | None \<Rightarrow> d)"

definition initialize_run :: "'w cli \<Rightarrow> Context \<Rightarrow> InitializeArgs \<Rightarrow> 'w \<Rightarrow> 'w outcome" where
  "initialize_run C ctx args w =
     (let payer = ctx_payer ctx; state_pda = cli_find_state_pda C (cx_program_id ctx) in
      if (case cl_get_account C w state_pda of Some account \<Rightarrow> acc_owner account = cx_program_id ctx | None \<Rightarrow> False)
      then print_rows [(''statePda'', cl_pubkey_to_string C state_pda), (''status'', ''already initialized'')] w
      else
        (let ix = client_initialize (cl_platform C)
           \<lparr>cin_program_id = cx_program_id ctx, cin_payer = payer,
            cin_manager = unwrap_or (ia_manager args) payer,
            cin_solver_authority = unwrap_or (ia_solver_authority args) payer,
            cin_reclaim_authority = unwrap_or (ia_reclaim_authority args) payer,
            cin_settlement_owned_order_authority =
              unwrap_or (ia_settlement_owned_order_authority args) payer\<rparr> in
         finish (submit C ctx [ix] [] w)
           (\<lambda>s. submission_summary C s [(''statePda'', cl_pubkey_to_string C state_pda)])))"

definition solver_add_run :: "'w cli \<Rightarrow> Context \<Rightarrow> pubkey \<Rightarrow> KeypairArg option \<Rightarrow> 'w \<Rightarrow> 'w outcome" where
  "solver_add_run C ctx solver solver_authority w =
     (let payer = ctx_payer ctx in
      case signer_or C ctx solver_authority of
        Inl e \<Rightarrow> fail e w
      | Inr authority \<Rightarrow>
          (let ix = client_add_solver (cl_platform C)
             \<lparr>cas_program_id = cx_program_id ctx, cas_authority = tx_signer_pubkey authority,
              cas_payer = payer, cas_solver = solver\<rparr> in
           finish (submit C ctx [ix] [authority] w)
             (\<lambda>s. submission_summary C s
               [(''added solver'', cl_pubkey_to_string C solver),
                (''solverAuthority'', cl_pubkey_to_string C (tx_signer_pubkey authority)),
                (''statePda'', cl_pubkey_to_string C (cli_find_state_pda C (cx_program_id ctx)))])))"

definition solver_remove_run ::
  "'w cli \<Rightarrow> Context \<Rightarrow> pubkey \<Rightarrow> KeypairArg option \<Rightarrow> pubkey option \<Rightarrow> 'w \<Rightarrow> 'w outcome" where
  "solver_remove_run C ctx solver solver_authority rent_recipient w =
     (let payer = ctx_payer ctx in
      case signer_or C ctx solver_authority of
        Inl e \<Rightarrow> fail e w
      | Inr authority \<Rightarrow>
          (let rent_recipient = unwrap_or rent_recipient payer;
               ix = client_remove_solver (cl_platform C)
             \<lparr>crs_program_id = cx_program_id ctx, crs_authority = tx_signer_pubkey authority,
              crs_rent_recipient = rent_recipient, crs_solver = solver\<rparr> in
           finish (submit C ctx [ix] [authority] w)
             (\<lambda>s. submission_summary C s
               [(''removed solver'', cl_pubkey_to_string C solver),
                (''solverAuthority'', cl_pubkey_to_string C (tx_signer_pubkey authority)),
                (''rentRecipient'', cl_pubkey_to_string C rent_recipient),
                (''statePda'', cl_pubkey_to_string C (cli_find_state_pda C (cx_program_id ctx)))])))"

text \<open>\<open>MAX_BASE58_LEN\<close> is 44; the padding is for a terminal only.\<close>

definition solver_list_run :: "'w cli \<Rightarrow> Context \<Rightarrow> bool \<Rightarrow> 'w \<Rightarrow> string list cli_result" where
  "solver_list_run C ctx interactive w =
     bindE (ok_or (cl_get_account_data C w (cli_find_state_pda C (cx_program_id ctx)))
       (Bail ''failed to fetch state account'')) (\<lambda>data.
     bindE (map_err (\<lambda>_. Bail ''failed to decode state account'') (state_attach data)) (\<lambda>state.
     Inr (map (\<lambda>solver. let s = cl_pubkey_to_string C solver in
            if interactive then replicate (44 - length s) CHR '' '' @ s else s) (state_solvers state))))"

text \<open>The name of a role: as \<open>Debug\<close> prints the variant, and as \<open>clap\<close> spells it.\<close>

fun role_debug :: "Role \<Rightarrow> string" where
  "role_debug Manager = ''Manager''"
| "role_debug SolverAuthority = ''SolverAuthority''"
| "role_debug ReclaimAuthority = ''ReclaimAuthority''"
| "role_debug SettlementOwnedOrderAuthority = ''SettlementOwnedOrderAuthority''"

fun role_value_name :: "Role \<Rightarrow> string" where
  "role_value_name Manager = ''manager''"
| "role_value_name SolverAuthority = ''solver-authority''"
| "role_value_name ReclaimAuthority = ''reclaim-authority''"
| "role_value_name SettlementOwnedOrderAuthority = ''settlement-owned-order-authority''"

definition authority_transfer_run ::
  "'w cli \<Rightarrow> Context \<Rightarrow> Role \<Rightarrow> pubkey \<Rightarrow> KeypairArg option \<Rightarrow> 'w \<Rightarrow> 'w outcome" where
  "authority_transfer_run C ctx role new_authority signer w =
     (case signer_or C ctx signer of
        Inl e \<Rightarrow> fail e w
      | Inr signer \<Rightarrow>
          (let ix = client_transfer_authority (cl_platform C)
             \<lparr>cta_program_id = cx_program_id ctx, cta_signer = tx_signer_pubkey signer, cta_role = role,
              cta_new_authority = new_authority\<rparr> in
           finish (submit C ctx [ix] [signer] w)
             (\<lambda>s. submission_summary C s
               [(''role'', role_debug role), (''newAuthority'', cl_pubkey_to_string C new_authority),
                (''signer'', cl_pubkey_to_string C (tx_signer_pubkey signer)),
                (''statePda'', cl_pubkey_to_string C (cli_find_state_pda C (cx_program_id ctx)))])))"

definition authority_list_run :: "'w cli \<Rightarrow> Context \<Rightarrow> 'w \<Rightarrow> string list cli_result" where
  "authority_list_run C ctx w =
     bindE (ok_or (cl_get_account_data C w (cli_find_state_pda C (cx_program_id ctx)))
       (Bail ''failed to fetch state account'')) (\<lambda>data.
     bindE (map_err (\<lambda>_. Bail ''failed to decode state account'') (state_attach data)) (\<lambda>state.
     print_summary (map (\<lambda>role. (role_value_name role, cl_pubkey_to_string C (state_authority state role))) role_all)))"

section \<open>Placing an order\<close>

record CommonArgs =
  ca_valid_to :: u32
  ca_partially_fillable :: bool

record ParsedOrder =
  po_kind :: OrderKind
  po_sell :: TokenAccountDetails
  po_sell_amount :: u64
  po_sell_is_sol :: bool
  po_buy :: TokenAccountDetails
  po_buy_amount :: u64

text \<open>\<open>NonZeroU64::MIN\<close> is one.\<close>

definition resolve_amount :: "'w cli \<Rightarrow> string option \<Rightarrow> u8 \<Rightarrow> u64 cli_result" where
  "resolve_amount C amount decimals =
     (case amount of
        None \<Rightarrow> Inr 1
      | Some amount \<Rightarrow>
          bindE (ok_or (cl_ui_amount C amount decimals) (Bail ''invalid value'')) (\<lambda>raw.
          ok_or (nonzero_new raw) (Bail ''must be non-zero'')))"

text \<open>The terms after the first two: the counter token and its amount, if given.\<close>

definition counter_terms :: "string list \<Rightarrow> (string \<times> string option) cli_result" where
  "counter_terms terms =
     (case terms of
        [] \<Rightarrow> Inr (''SOL'', None)
      | [b] \<Rightarrow> Inr (b, None)
      | [x, b] \<Rightarrow> if x = ''for'' \<or> x = ''with'' then Inr (b, None) else Inr (b, Some x)
      | [x, y, b] \<Rightarrow> if x = ''for'' \<or> x = ''with'' then Inr (b, Some y) else Inl (Bail ''cannot interpret'')
      | _ \<Rightarrow> Inl (Bail ''cannot interpret''))"

definition order_parse :: "'w cli \<Rightarrow> 'w \<Rightarrow> Context \<Rightarrow> OrderKind \<Rightarrow> string list \<Rightarrow> ParsedOrder cli_result" where
  "order_parse C w ctx kind terms =
     (case terms of
        a_amount # a_tok # rest \<Rightarrow>
          bindE (counter_terms rest) (\<lambda>(b_tok, b_amount).
          let (sell_tok, sell_amount_str, buy_tok, buy_amount_str) =
            (case kind of
               Sell \<Rightarrow> (a_tok, Some a_amount, b_tok, b_amount)
             | Buy \<Rightarrow> (b_tok, b_amount, a_tok, Some a_amount)) in
          bindE (resolve C w (ctx_payer ctx) sell_tok) (\<lambda>sell.
          bindE (resolve C w (ctx_payer ctx) buy_tok) (\<lambda>buy.
          bindE (resolve_amount C sell_amount_str (td_decimals sell)) (\<lambda>sell_amount.
          bindE (resolve_amount C buy_amount_str (td_decimals buy)) (\<lambda>buy_amount.
          Inr \<lparr>po_kind = kind, po_sell = sell, po_sell_amount = sell_amount,
               po_sell_is_sol = eq_ignore_ascii_case sell_tok ''sol'',
               po_buy = buy, po_buy_amount = buy_amount\<rparr>)))))
      | _ \<Rightarrow> Inl (Bail ''must provide at least an amount and a token''))"

text \<open>The instructions of \<open>execute\<close> and the intent they place.\<close>

definition order_instructions ::
  "'w cli \<Rightarrow> 'w \<Rightarrow> Context \<Rightarrow> ParsedOrder \<Rightarrow> CommonArgs \<Rightarrow> (instruction list \<times> OrderIntent) cli_result" where
  "order_instructions C w ctx parsed common =
     (let payer = ctx_payer ctx; sell = td_handle (po_sell parsed); buy = td_handle (po_buy parsed) in
      bindE
        (if po_sell_is_sol parsed then
           bindE (wrap_sol C w payer (po_sell_amount parsed)) (\<lambda>(wsol_ata, wrap_ixs).
           if wsol_ata \<noteq> ti_account sell then Inl CliPanic else Inr wrap_ixs)
         else Inr []) (\<lambda>wrap_ixs.
      bindE (approve C (cx_program_id ctx) sell payer (po_sell_amount parsed)) (\<lambda>approve_ix.
      bindE (map_err (\<lambda>_. Bail ''buy mint is the native SOL marker'')
        (asset_try_from (cl_platform C) \<lparr>ta_mint = ti_mint buy, ta_token_account = ti_account buy\<rparr>)) (\<lambda>buy_asset.
      let intent =
        \<lparr>oi_owner = payer,
         oi_sell = \<lparr>ta_mint = ti_mint sell, ta_token_account = ti_account sell\<rparr>,
         oi_buy = buy_asset,
         oi_sell_amount = po_sell_amount parsed,
         oi_buy_amount = po_buy_amount parsed,
         oi_valid_to = ca_valid_to common,
         oi_flags = \<lparr>fl_kind = po_kind parsed, fl_partially_fillable = ca_partially_fillable common\<rparr>,
         oi_app_data = fill32 0\<rparr> in
      Inr (wrap_ixs @
        (case create_ata_ix C (po_buy parsed) payer of Some ix \<Rightarrow> [ix] | None \<Rightarrow> []) @
        [approve_ix,
         client_create_order (cl_platform C)
           \<lparr>cco_program_id = cx_program_id ctx, cco_owner = payer, cco_created_by = payer, cco_intent = intent\<rparr>],
        intent)))))"

definition order_execute ::
  "'w cli \<Rightarrow> Context \<Rightarrow> ParsedOrder \<Rightarrow> CommonArgs \<Rightarrow> 'w \<Rightarrow> 'w outcome" where
  "order_execute C ctx parsed common w =
     (case order_instructions C w ctx parsed common of
        Inl e \<Rightarrow> fail e w
      | Inr (ixs, intent) \<Rightarrow>
          (let uid = intent_uid (cl_platform C) intent;
               order_pda = fst (find_order_pda (cl_platform C) (cx_program_id ctx) uid) in
           finish (submit C ctx ixs [] w)
             (\<lambda>s. submission_summary C s
               [(''orderPda'', cl_pubkey_to_string C order_pda), (''orderUid'', hex_of_hash uid)])))"

definition run_order :: "'w cli \<Rightarrow> Context \<Rightarrow> OrderKind \<Rightarrow> string list \<Rightarrow> CommonArgs \<Rightarrow> 'w \<Rightarrow> 'w outcome" where
  "run_order C ctx kind terms common w =
     (case order_parse C w ctx kind terms of
        Inl e \<Rightarrow> fail e w
      | Inr parsed \<Rightarrow> order_execute C ctx parsed common w)"

definition valid_to_in :: "'w cli \<Rightarrow> u64 \<Rightarrow> u32" where
  "valid_to_in C secs_from_now =
     (let t = min (unat (cl_now C) + unat secs_from_now) (2 ^ 64 - 1) in
      if t < 2 ^ 32 then of_nat t else - 1)"

section \<open>Closing orders\<close>

record ResolvedOrder =
  ro_arg :: OrderArg
  ro_pda :: pubkey
  ro_account :: account

fun resolve_orders :: "OrderArg list \<Rightarrow> pubkey list \<Rightarrow> account option list \<Rightarrow> ResolvedOrder list cli_result" where
  "resolve_orders (arg # args) (pda # pdas) (account # accounts) =
     bindE (ok_or account (Bail ''order account not found'')) (\<lambda>account.
     bindE (resolve_orders args pdas accounts) (\<lambda>rest.
     Inr (\<lparr>ro_arg = arg, ro_pda = pda, ro_account = account\<rparr> # rest)))"
| "resolve_orders _ _ _ = Inr []"

definition reclaim_recipient :: "account \<Rightarrow> pubkey \<Rightarrow> pubkey cli_result" where
  "reclaim_recipient account program_id =
     bindE (ensure (acc_owner account = program_id) (Bail ''account is owned by another program'')) (\<lambda>_.
     bindE (map_err (\<lambda>_. Bail ''account data is not an order'') (order_attach (acc_data account))) (\<lambda>order.
     Inr (order_created_by order)))"

fun reclaim_order_ixs :: "Context \<Rightarrow> ResolvedOrder list \<Rightarrow> instruction list cli_result" where
  "reclaim_order_ixs ctx [] = Inr []"
| "reclaim_order_ixs ctx (order # orders) =
     bindE (reclaim_recipient (ro_account order) (cx_program_id ctx)) (\<lambda>recipient.
     bindE (reclaim_order_ixs ctx orders) (\<lambda>ixs.
     Inr (reclaim_order_instruction
       \<lparr>rob_program_id = cx_program_id ctx, rob_order_pda = ro_pda order, rob_reclaim_recipient = recipient,
        rob_owner = Some (ctx_payer ctx)\<rparr> # ixs)))"

text \<open>What is printed about the order whose instruction failed.\<close>

definition reclaim_failures ::
  "'w cli \<Rightarrow> Context \<Rightarrow> ResolvedOrder list \<Rightarrow> cli_error \<Rightarrow> (string \<times> string) list" where
  "reclaim_failures C ctx orders e =
     (case (cx_squads ctx, e) of
        (None, TransactionFailed (Some (index, err))) \<Rightarrow>
          if unat index < length orders then
            [(order_arg_display C (ro_arg (orders ! unat index)),
              (case parse_settlement_error err of
                 Inr err \<Rightarrow> cl_debug_settlement_error C err
               | Inl err \<Rightarrow> cl_error_to_string C err))]
          else []
      | _ \<Rightarrow> [])"

definition reclaim_resolve :: "'w cli \<Rightarrow> Context \<Rightarrow> OrderArg list \<Rightarrow> 'w \<Rightarrow> ResolvedOrder list cli_result" where
  "reclaim_resolve C ctx args w =
     (let pdas = map (\<lambda>order. order_arg_pda C order (cx_program_id ctx)) args in
      bindE (ok_or (cl_get_multiple_accounts C w pdas) (Bail ''failed to fetch order accounts'')) (\<lambda>accounts.
      resolve_orders args pdas accounts))"

definition reclaim_run :: "'w cli \<Rightarrow> Context \<Rightarrow> OrderArg list \<Rightarrow> 'w \<Rightarrow> 'w outcome" where
  "reclaim_run C ctx args w =
     (case bindE (reclaim_resolve C ctx args w) (\<lambda>orders.
        bindE (reclaim_order_ixs ctx orders) (\<lambda>ixs. Inr (orders, ixs))) of
        Inl e \<Rightarrow> fail e w
      | Inr (orders, ixs) \<Rightarrow>
          (case submit C ctx ixs [] w of
             (Inl e, w') \<Rightarrow>
               (case reclaim_failures C ctx orders e of
                  [] \<Rightarrow> fail e w'
                | rows \<Rightarrow> (case print_summary rows of Inl e' \<Rightarrow> fail e' w' | Inr lines \<Rightarrow> (lines, Inl e, w')))
           | (Inr submission, w') \<Rightarrow>
               print_rows (submission_summary C submission [] @
                 map (\<lambda>order. (''orderPda'', cl_pubkey_to_string C (ro_pda order))) orders) w'))"

section \<open>The order placed is the one asked for\<close>

lemma resolve_amount_nonzero: "resolve_amount C amount decimals = Inr n \<Longrightarrow> n \<noteq> 0"
  by (auto simp: resolve_amount_def bindE_Inr_iff ok_or_Inr_iff nonzero_new_Some_iff split: option.splits)

lemma resolve_amount_given: "resolve_amount C (Some a) decimals = Inr n \<Longrightarrow> cl_ui_amount C a decimals = Some n"
  by (auto simp: resolve_amount_def bindE_Inr_iff ok_or_Inr_iff nonzero_new_Some_iff)

lemma asset_try_from_canonical: "asset_try_from P t = Inr a \<Longrightarrow> canonical_asset P a \<and> a = AssetToken t"
  by (auto simp: asset_try_from_def split: if_splits)

lemma order_parse_Inr:
  assumes "order_parse C w ctx kind terms = Inr parsed"
  shows "po_kind parsed = kind \<and> po_sell_amount parsed \<noteq> 0 \<and> po_buy_amount parsed \<noteq> 0 \<and>
    resolved_ok C w (ctx_payer ctx) (po_sell parsed) \<and> resolved_ok C w (ctx_payer ctx) (po_buy parsed) \<and>
    (case kind of
       Sell \<Rightarrow> cl_ui_amount C (hd terms) (td_decimals (po_sell parsed)) = Some (po_sell_amount parsed)
     | Buy \<Rightarrow> cl_ui_amount C (hd terms) (td_decimals (po_buy parsed)) = Some (po_buy_amount parsed))"
  using assms
  by (auto simp: order_parse_def bindE_Inr_iff Let_def split: list.splits OrderKind.splits
      dest: resolve_amount_nonzero resolve_ok resolve_amount_given)

text \<open>An amount as typed; one that is left out is the smallest.\<close>

definition typed_amount :: "'w cli \<Rightarrow> string option \<Rightarrow> u8 \<Rightarrow> u64 \<Rightarrow> bool" where
  "typed_amount C amount decimals n \<longleftrightarrow>
     (case amount of None \<Rightarrow> n = 1 | Some text \<Rightarrow> cl_ui_amount C text decimals = Some n)"

lemma resolve_amount_typed: "resolve_amount C amount decimals = Inr n \<Longrightarrow> typed_amount C amount decimals n"
  by (auto simp: resolve_amount_def typed_amount_def bindE_Inr_iff ok_or_Inr_iff nonzero_new_Some_iff split: option.splits)

text \<open>One side of an order is the one typed: its account and mint, and its amount.\<close>

definition side_typed :: "'w cli \<Rightarrow> 'w \<Rightarrow> pubkey \<Rightarrow> string \<Rightarrow> string option \<Rightarrow> TokenAccountDetails \<Rightarrow> u64 \<Rightarrow> bool" where
  "side_typed C w owner token amount d n \<longleftrightarrow>
     names_token C w owner token (td_handle d) \<and> typed_amount C amount (td_decimals d) n"

text \<open>
  What the terms \<open>amount token [for] [amount] token\<close> ask for: the first token is the one sold or the
  one bought, by the kind of the order, and the counter token is the other one.
\<close>

definition asked_for ::
  "'w cli \<Rightarrow> 'w \<Rightarrow> pubkey \<Rightarrow> OrderKind \<Rightarrow> string list \<Rightarrow> TokenAccountDetails \<Rightarrow> u64 \<Rightarrow> TokenAccountDetails \<Rightarrow> u64 \<Rightarrow>
   bool" where
  "asked_for C w owner kind terms sell sell_amount buy buy_amount \<longleftrightarrow>
     (\<exists>amount token rest counter_token counter_amount. terms = amount # token # rest \<and>
        counter_terms rest = Inr (counter_token, counter_amount) \<and>
        (case kind of
           Sell \<Rightarrow> side_typed C w owner token (Some amount) sell sell_amount \<and>
             side_typed C w owner counter_token counter_amount buy buy_amount
         | Buy \<Rightarrow> side_typed C w owner counter_token counter_amount sell sell_amount \<and>
             side_typed C w owner token (Some amount) buy buy_amount))"

lemma order_parse_asked_for:
  assumes "order_parse C w ctx kind terms = Inr parsed"
  shows "asked_for C w (ctx_payer ctx) kind terms (po_sell parsed) (po_sell_amount parsed) (po_buy parsed) (po_buy_amount parsed)"
  using assms
  by (cases kind)
    (auto simp: order_parse_def asked_for_def side_typed_def bindE_Inr_iff Let_def split: list.splits
      intro: resolve_names resolve_amount_typed)

lemma order_instructions_Inr:
  assumes "order_instructions C w ctx parsed common = Inr (ixs, intent)"
  obtains pre approve_ix where
    "ixs = pre @ [approve_ix, client_create_order (cl_platform C)
      \<lparr>cco_program_id = cx_program_id ctx, cco_owner = ctx_payer ctx, cco_created_by = ctx_payer ctx, cco_intent = intent\<rparr>]"
    "approve C (cx_program_id ctx) (td_handle (po_sell parsed)) (ctx_payer ctx) (po_sell_amount parsed) = Inr approve_ix"
    "canonical_asset (cl_platform C) (oi_buy intent)"
    "intent = \<lparr>oi_owner = ctx_payer ctx,
      oi_sell = \<lparr>ta_mint = ti_mint (td_handle (po_sell parsed)), ta_token_account = ti_account (td_handle (po_sell parsed))\<rparr>,
      oi_buy = AssetToken \<lparr>ta_mint = ti_mint (td_handle (po_buy parsed)), ta_token_account = ti_account (td_handle (po_buy parsed))\<rparr>,
      oi_sell_amount = po_sell_amount parsed, oi_buy_amount = po_buy_amount parsed, oi_valid_to = ca_valid_to common,
      oi_flags = \<lparr>fl_kind = po_kind parsed, fl_partially_fillable = ca_partially_fillable common\<rparr>,
      oi_app_data = fill32 0\<rparr>"
  using assms that
  by (auto simp: order_instructions_def Let_def bindE_Inr_iff map_err_Inr_iff dest!: asset_try_from_canonical)

section \<open>Properties\<close>

text \<open>
  C39: the order \<open>cow sell\<close> or \<open>cow buy\<close> places is the one asked for. With the terms
  \<open>amount token [for] [amount] token\<close>, it sells the first token for the second under \<open>sell\<close> and the
  second for the first under \<open>buy\<close>, each side with the mint and the token account its text stands
  for and the amount typed for it (the least amount when none is), for the payer, on the chosen
  terms of expiry and partial filling. Both token accounts exist or are the payer's own associated
  account; the transaction ends with the approval of exactly the sell amount to the settlement
  state and with a \<open>CreateOrder\<close> from which the program reads this very intent, at the order's own
  address.
\<close>

theorem cli_order_placed:
  assumes "order_parse C w ctx kind terms = Inr parsed"
    and "order_instructions C w ctx parsed common = Inr (ixs, intent)"
  shows "\<exists>sell buy pre approve_ix create_ix input.
    wf_intent (cl_platform C) intent \<and> oi_owner intent = ctx_payer ctx \<and>
    oi_flags intent = \<lparr>fl_kind = kind, fl_partially_fillable = ca_partially_fillable common\<rparr> \<and>
    oi_valid_to intent = ca_valid_to common \<and> oi_app_data intent = fill32 0 \<and>
    asked_for C w (ctx_payer ctx) kind terms sell (oi_sell_amount intent) buy (oi_buy_amount intent) \<and>
    resolved_ok C w (ctx_payer ctx) sell \<and> resolved_ok C w (ctx_payer ctx) buy \<and>
    oi_sell intent = \<lparr>ta_mint = ti_mint (td_handle sell), ta_token_account = ti_account (td_handle sell)\<rparr> \<and>
    oi_buy intent = AssetToken \<lparr>ta_mint = ti_mint (td_handle buy), ta_token_account = ti_account (td_handle buy)\<rparr> \<and>
    ixs = pre @ [approve_ix, create_ix] \<and>
    cl_approve C (token_program_address (cl_platform C) (ti_token_program (td_handle sell)))
      (ta_token_account (oi_sell intent)) (fst (find_state_pda (cl_platform C) (cx_program_id ctx))) (ctx_payer ctx)
      (oi_sell_amount intent) = Some approve_ix \<and>
    instruction_parse CreateOrder create_order_parse_body (ix_data create_ix) (instruction_addresses create_ix) = Inr input \<and>
    intent_try_from (cl_platform C) (coi_intent_bytes input) = Inr intent \<and>
    coi_owner input = oi_owner intent \<and>
    coi_order_pda input = client_order_address (cl_platform C) (cx_program_id ctx) intent"
proof -
  let ?P = "cl_platform C" and ?payer = "ctx_payer ctx"
  note parsed = order_parse_Inr [OF assms(1)]
  from assms(2) obtain pre approve_ix where ixs: "ixs = pre @ [approve_ix, client_create_order ?P
      \<lparr>cco_program_id = cx_program_id ctx, cco_owner = ?payer, cco_created_by = ?payer, cco_intent = intent\<rparr>]"
    and approve_ix: "approve C (cx_program_id ctx) (td_handle (po_sell parsed)) ?payer (po_sell_amount parsed) = Inr approve_ix"
    and canonical: "canonical_asset ?P (oi_buy intent)"
    and intent: "intent = \<lparr>oi_owner = ?payer,
      oi_sell = \<lparr>ta_mint = ti_mint (td_handle (po_sell parsed)), ta_token_account = ti_account (td_handle (po_sell parsed))\<rparr>,
      oi_buy = AssetToken \<lparr>ta_mint = ti_mint (td_handle (po_buy parsed)), ta_token_account = ti_account (td_handle (po_buy parsed))\<rparr>,
      oi_sell_amount = po_sell_amount parsed, oi_buy_amount = po_buy_amount parsed, oi_valid_to = ca_valid_to common,
      oi_flags = \<lparr>fl_kind = po_kind parsed, fl_partially_fillable = ca_partially_fillable common\<rparr>,
      oi_app_data = fill32 0\<rparr>"
    by (rule order_instructions_Inr)
  have fields: "oi_owner intent = ?payer" "oi_sell_amount intent = po_sell_amount parsed"
    "oi_buy_amount intent = po_buy_amount parsed" "oi_valid_to intent = ca_valid_to common"
    "oi_flags intent = \<lparr>fl_kind = kind, fl_partially_fillable = ca_partially_fillable common\<rparr>"
    "oi_sell intent = \<lparr>ta_mint = ti_mint (td_handle (po_sell parsed)), ta_token_account = ti_account (td_handle (po_sell parsed))\<rparr>"
    "oi_buy intent = AssetToken \<lparr>ta_mint = ti_mint (td_handle (po_buy parsed)), ta_token_account = ti_account (td_handle (po_buy parsed))\<rparr>"
    "oi_app_data intent = fill32 0"
    using parsed by (simp_all add: intent)
  have wf: "wf_intent ?P intent" using parsed canonical by (simp add: wf_intent_def fields)
  let ?b = "\<lparr>co_program_id = cx_program_id ctx, co_owner = ?payer, co_created_by = ?payer,
    co_order_pda = client_order_address ?P (cx_program_id ctx) intent, co_intent_bytes = intent_encode ?P intent\<rparr>"
  have create: "client_create_order ?P \<lparr>cco_program_id = cx_program_id ctx, cco_owner = ?payer, cco_created_by = ?payer,
      cco_intent = intent\<rparr> = create_order_instruction ?P ?b"
    by (simp add: client_create_order_def client_order_address_def intent_uid_def Let_def)
  have "instruction_parse CreateOrder create_order_parse_body (ix_data (create_order_instruction ?P ?b))
      (instruction_addresses (create_order_instruction ?P ?b)) = Inr (create_order_input ?b)"
    by (rule create_order_codec.parse_build) (simp add: length_intent_encode)
  moreover have "cl_approve C (token_program_address ?P (ti_token_program (td_handle (po_sell parsed))))
      (ta_token_account (oi_sell intent)) (fst (find_state_pda ?P (cx_program_id ctx))) ?payer (oi_sell_amount intent) =
      Some approve_ix"
    using approve_ix by (simp add: approve_def cli_find_state_pda_def fields ok_or_Inr_iff)
  moreover have "intent_try_from ?P (coi_intent_bytes (create_order_input ?b)) = Inr intent"
    "coi_owner (create_order_input ?b) = oi_owner intent"
    "coi_order_pda (create_order_input ?b) = client_order_address ?P (cx_program_id ctx) intent"
    using intent_try_from_encode [OF wf] by (simp_all add: create_order_input_def fields(1))
  moreover have "asked_for C w ?payer kind terms (po_sell parsed) (oi_sell_amount intent) (po_buy parsed) (oi_buy_amount intent)"
    using order_parse_asked_for [OF assms(1)] by (simp add: fields)
  ultimately show ?thesis
    using parsed wf ixs unfolding create fields by blast
qed

end
