(* ===== verification/CliBuffers.thy ===== *)
theory CliBuffers
  imports CliCommands
begin

text \<open>
  The buffer commands of the tool (\<open>test-cli/src/cmd/buffer\<close>): \<open>create\<close> makes the missing buffers of
  the given mints, \<open>reclaim\<close> closes the given buffers whose balance is within their burn limit.
  Both group their work by token program, as one instruction serves one of them. The lemmas show
  that the groups hold exactly the buffers asked for, each once, under its own token program.
\<close>

section \<open>Groups\<close>

text \<open>\<open>by_program.entry(k).or_default().push(v)\<close> on a \<open>HashMap\<close>, kept as a list of its entries.\<close>

fun push_group :: "'k \<Rightarrow> 'v \<Rightarrow> ('k \<times> 'v list) list \<Rightarrow> ('k \<times> 'v list) list" where
  "push_group k v [] = [(k, [v])]"
| "push_group k v ((k', vs) # gs) = (if k = k' then (k', vs @ [v]) # gs else (k', vs) # push_group k v gs)"

text \<open>All pushed values with their keys.\<close>

definition group_entries :: "('k \<times> 'v list) list \<Rightarrow> ('k \<times> 'v) list" where
  "group_entries gs = concat (map (\<lambda>(k, vs). map (Pair k) vs) gs)"

lemma group_entries_simps [simp]:
  "group_entries [] = []" "group_entries ((k, vs) # gs) = map (Pair k) vs @ group_entries gs"
  by (simp_all add: group_entries_def)

lemma push_group_entries: "mset (group_entries (push_group k v gs)) = add_mset (k, v) (mset (group_entries gs))"
  by (induction k v gs rule: push_group.induct) simp_all

lemma push_group_dom: "fst ` set (push_group k v gs) = insert k (fst ` set gs)"
  by (induction k v gs rule: push_group.induct) auto

lemma push_group_keys: "distinct (map fst gs) \<Longrightarrow> distinct (map fst (push_group k v gs))"
proof (induction k v gs rule: push_group.induct)
  case (2 k v k' vs gs)
  then show ?case using push_group_dom [of k v gs] by auto
qed simp

lemma push_group_nonempty:
  "(\<forall>(k, vs) \<in> set gs. vs \<noteq> []) \<Longrightarrow> \<forall>(k, vs) \<in> set (push_group k v gs). vs \<noteq> []"
  by (induction k v gs rule: push_group.induct) auto

lemma group_entries_mset: "mset gs = mset hs \<Longrightarrow> mset (group_entries gs) = mset (group_entries hs)"
  by (metis (no_types, lifting) group_entries_def mset_concat mset_map sum_mset_sum_list)

section \<open>Creating buffers\<close>

text \<open>\<open>retain(|mint| seen.insert(*mint))\<close>.\<close>

fun retain_unseen :: "'a list \<Rightarrow> 'a list \<Rightarrow> 'a list" where
  "retain_unseen seen [] = []"
| "retain_unseen seen (x # xs) =
     (if x \<in> set seen then retain_unseen seen xs else x # retain_unseen (x # seen) xs)"

record ResolvedMint =
  rm_mint :: pubkey
  rm_buffer :: pubkey
  rm_mint_account :: "account option"
  rm_buffer_exists :: bool

definition mint_token_program :: "'w cli \<Rightarrow> account \<Rightarrow> TokenProgram cli_result" where
  "mint_token_program C account =
     bindE (token_program_of C account) (\<lambda>token_program.
     bindE (ok_or (cl_unpack_mint C (acc_data account)) (Bail ''account is not a mint'')) (\<lambda>_.
     Inr token_program))"

text \<open>\<open>split_off\<close> panics when the node answers with fewer accounts than there are mints.\<close>

definition resolve_mints :: "'w cli \<Rightarrow> 'w \<Rightarrow> Context \<Rightarrow> pubkey list \<Rightarrow> ResolvedMint list cli_result" where
  "resolve_mints C w ctx mints =
     (let buffers = map (\<lambda>mint. fst (find_buffer_pda (cl_platform C) (cx_program_id ctx) mint)) mints in
      bindE (ok_or (cl_get_multiple_accounts C w (mints @ buffers))
        (Bail ''failed to fetch mint and buffer accounts'')) (\<lambda>accounts.
      if length accounts < length mints then Inl CliPanic
      else
        (let buffer_accounts = drop (length mints) accounts; accounts = take (length mints) accounts in
         Inr (map (\<lambda>(((mint, buffer), mint_account), buffer_account).
             \<lparr>rm_mint = mint, rm_buffer = buffer, rm_mint_account = mint_account,
              rm_buffer_exists = (buffer_account \<noteq> None)\<rparr>)
           (zip (zip (zip mints buffers) accounts) buffer_accounts)))))"

type_synonym create_plan = "(TokenProgram \<times> pubkey list) list \<times> pubkey list \<times> pubkey list"

fun create_buffers_plan :: "'w cli \<Rightarrow> ResolvedMint list \<Rightarrow> create_plan \<Rightarrow> create_plan cli_result" where
  "create_buffers_plan C [] plan = Inr plan"
| "create_buffers_plan C (resolved # mints) (by_program, created, existing) =
     (if rm_buffer_exists resolved then
        create_buffers_plan C mints (by_program, created, existing @ [rm_buffer resolved])
      else
        bindE (bindE (ok_or (rm_mint_account resolved) (Bail ''mint account not found'')) (mint_token_program C))
          (\<lambda>token_program.
        create_buffers_plan C mints
          (push_group token_program (rm_mint resolved) by_program, created @ [rm_buffer resolved], existing)))"

definition create_instructions ::
  "'w cli \<Rightarrow> pubkey \<Rightarrow> pubkey \<Rightarrow> (TokenProgram \<times> pubkey list) list \<Rightarrow> instruction list" where
  "create_instructions C program_id payer by_program =
     map (\<lambda>(token_program, mints). client_create_buffers (cl_platform C)
         \<lparr>ccb_program_id = program_id, ccb_payer = payer, ccb_token_program = token_program, ccb_mints = mints\<rparr>)
       (cl_order_groups C by_program)"

definition buffer_create_run :: "'w cli \<Rightarrow> Context \<Rightarrow> pubkey list \<Rightarrow> 'w \<Rightarrow> 'w outcome" where
  "buffer_create_run C ctx mints w =
     (case bindE (resolve_mints C w ctx (retain_unseen [] mints)) (\<lambda>mints.
        create_buffers_plan C mints ([], [], [])) of
        Inl e \<Rightarrow> fail e w
      | Inr (by_program, created, existing) \<Rightarrow>
          (let rows = map (\<lambda>pda. (''bufferPda'', cl_pubkey_to_string C pda)) created @
             map (\<lambda>pda. (''existingBufferPda'', cl_pubkey_to_string C pda)) existing in
           if created = [] then print_rows rows w
           else finish (submit C ctx (create_instructions C (cx_program_id ctx) (ctx_payer ctx) by_program) [] w)
             (\<lambda>s. submission_summary C s [] @ rows)))"

section \<open>Closing buffers\<close>

record BufferState =
  bst_token_program :: TokenProgram
  bst_mint :: pubkey
  bst_amount :: u64

definition decode_buffer :: "'w cli \<Rightarrow> account \<Rightarrow> pubkey \<Rightarrow> pubkey \<Rightarrow> BufferState cli_result" where
  "decode_buffer C account address program_id =
     bindE (token_program_of C account) (\<lambda>token_program.
     bindE (ok_or (cl_unpack_token_account C (acc_data account)) (Bail ''account is not a token account''))
       (\<lambda>(mint, amount).
     bindE (ensure (fst (find_buffer_pda (cl_platform C) program_id mint) = address) (Bail ''not the buffer of mint''))
       (\<lambda>_.
     Inr \<lparr>bst_token_program = token_program, bst_mint = mint, bst_amount = amount\<rparr>)))"

type_synonym reclaim_plan =
  "(TokenProgram \<times> (pubkey \<times> pubkey \<times> u64) list) list \<times> pubkey list \<times> pubkey list"

text \<open>\<open>earlier\<close> holds the addresses before the current argument.\<close>

fun reclaim_buffers_plan ::
  "'w cli \<Rightarrow> pubkey \<Rightarrow> pubkey list \<Rightarrow> (BufferArg \<times> account option) list \<Rightarrow> reclaim_plan \<Rightarrow>
   reclaim_plan cli_result" where
  "reclaim_buffers_plan C program_id earlier [] plan = Inr plan"
| "reclaim_buffers_plan C program_id earlier ((buffer, account) # rest) (by_program, to_close, non_empty) =
     (let address = ba_address buffer in
      if address \<in> set earlier
      then reclaim_buffers_plan C program_id (earlier @ [address]) rest (by_program, to_close, non_empty)
      else
        bindE (bindE (ok_or account (Bail ''buffer account not found''))
          (\<lambda>account. decode_buffer C account address program_id)) (\<lambda>state.
        if bst_amount state \<le> ba_max_burn buffer then
          reclaim_buffers_plan C program_id (earlier @ [address]) rest
            (push_group (bst_token_program state) (address, bst_mint state, ba_max_burn buffer) by_program,
             to_close @ [address], non_empty)
        else
          reclaim_buffers_plan C program_id (earlier @ [address]) rest
            (by_program, to_close, non_empty @ [address])))"

definition reclaim_instructions ::
  "'w cli \<Rightarrow> pubkey \<Rightarrow> pubkey \<Rightarrow> pubkey \<Rightarrow> pubkey \<Rightarrow>
   (TokenProgram \<times> (pubkey \<times> pubkey \<times> u64) list) list \<Rightarrow> instruction list" where
  "reclaim_instructions C program_id state_pda reclaim_authority target by_program =
     map (\<lambda>(token_program, buffers). reclaim_buffer_instruction
         \<lparr>rbb_program_id = program_id, rbb_state_pda = state_pda, rbb_reclaim_authority = reclaim_authority,
          rbb_reclaim_recipient = target, rbb_token_program = token_program_address (cl_platform C) token_program,
          rbb_buffers = buffers\<rparr>)
       (cl_order_buffers C by_program)"

definition reclaim_rows ::
  "'w cli \<Rightarrow> pubkey \<Rightarrow> pubkey list \<Rightarrow> pubkey list \<Rightarrow> pubkey list \<Rightarrow> (string \<times> string) list" where
  "reclaim_rows C receiver reclaimed proposed non_empty =
     [(''reclaimRecipient'', cl_pubkey_to_string C receiver)] @
     map (\<lambda>pda. (''bufferPda'', cl_pubkey_to_string C pda)) reclaimed @
     map (\<lambda>pda. (''proposedBufferPda'', cl_pubkey_to_string C pda)) proposed @
     map (\<lambda>pda. (''nonEmptyBufferPda'', cl_pubkey_to_string C pda)) non_empty"

definition buffer_reclaim_plan ::
  "'w cli \<Rightarrow> 'w \<Rightarrow> Context \<Rightarrow> BufferArg list \<Rightarrow> reclaim_plan cli_result" where
  "buffer_reclaim_plan C w ctx buffers =
     bindE (ok_or (cl_get_multiple_accounts C w (map ba_address buffers)) (Bail ''failed to fetch buffer accounts''))
       (\<lambda>accounts. reclaim_buffers_plan C (cx_program_id ctx) [] (zip buffers accounts) ([], [], []))"

text \<open>After sending, the buffers are fetched again: the program skips one that got tokens meanwhile.\<close>

definition buffer_reclaim_run ::
  "'w cli \<Rightarrow> Context \<Rightarrow> pubkey \<Rightarrow> BufferArg list \<Rightarrow> KeypairArg option \<Rightarrow> 'w \<Rightarrow> 'w outcome" where
  "buffer_reclaim_run C ctx receiver buffers reclaim_authority w =
     (case bindE (signer_or C ctx reclaim_authority) (\<lambda>authority.
        bindE (buffer_reclaim_plan C w ctx buffers) (\<lambda>plan. Inr (authority, plan))) of
        Inl e \<Rightarrow> fail e w
      | Inr (authority, by_program, to_close, non_empty) \<Rightarrow>
          if to_close = [] then print_rows (reclaim_rows C receiver [] [] non_empty) w
          else
            (let ixs = reclaim_instructions C (cx_program_id ctx) (cli_find_state_pda C (cx_program_id ctx))
               (tx_signer_pubkey authority) receiver by_program in
             case submit C ctx ixs [authority] w of
               (Inl e, w') \<Rightarrow> fail e w'
             | (Inr (ProposedTx p), w') \<Rightarrow>
                 print_rows (submission_summary C (ProposedTx p) [] @ reclaim_rows C receiver [] to_close non_empty) w'
             | (Inr (Sent sig), w') \<Rightarrow>
                 (case cl_get_multiple_accounts C w' to_close of
                    None \<Rightarrow> fail (Bail ''sent, but failed to check the outcome'') w'
                  | Some accounts \<Rightarrow>
                      print_rows (submission_summary C (Sent sig) [] @
                        reclaim_rows C receiver
                          (map fst (filter (\<lambda>(buffer, account). account = None) (zip to_close accounts))) []
                          (non_empty @
                           map fst (filter (\<lambda>(buffer, account). account \<noteq> None) (zip to_close accounts)))) w')))"

section \<open>What the buffer commands touch\<close>

lemma set_retain_unseen: "set (retain_unseen seen xs) = set xs - set seen"
  by (induction seen xs rule: retain_unseen.induct) auto

lemma distinct_retain_unseen: "distinct (retain_unseen seen xs)"
  by (induction seen xs rule: retain_unseen.induct) (auto simp: set_retain_unseen)

lemma create_buffers_plan_Cons:
  assumes "create_buffers_plan C (m # ms) (gs, c, e) = Inr r"
  obtains (existing) "rm_buffer_exists m" "create_buffers_plan C ms (gs, c, e @ [rm_buffer m]) = Inr r"
  | (missing) account tp where "\<not> rm_buffer_exists m" "rm_mint_account m = Some account"
      "mint_token_program C account = Inr tp"
      "create_buffers_plan C ms (push_group tp (rm_mint m) gs, c @ [rm_buffer m], e) = Inr r"
  using assms by (auto simp: result_simps split: if_splits)

text \<open>The mints whose buffer is missing, each with the token program its account names.\<close>

abbreviation missing_mints :: "ResolvedMint list \<Rightarrow> ResolvedMint list" where
  "missing_mints \<equiv> filter (\<lambda>m. \<not> rm_buffer_exists m)"

lemma create_buffers_plan_groups:
  assumes "create_buffers_plan C ms (gs, c, e) = Inr (gs', c', e')"
  shows "\<exists>tps. list_all2 (\<lambda>m tp. \<exists>account. rm_mint_account m = Some account \<and> mint_token_program C account = Inr tp)
        (missing_mints ms) tps \<and>
      mset (group_entries gs') = mset (group_entries gs) + mset (zip tps (map rm_mint (missing_mints ms)))"
  using assms
proof (induction ms arbitrary: gs c e)
  case (Cons m ms)
  from Cons.prems show ?case
  proof (cases rule: create_buffers_plan_Cons)
    case existing
    with Cons.IH show ?thesis by simp
  next
    case (missing account tp)
    from Cons.IH [OF missing(4)] obtain tps where
      "list_all2 (\<lambda>m tp. \<exists>account. rm_mint_account m = Some account \<and> mint_token_program C account = Inr tp)
        (missing_mints ms) tps"
      "mset (group_entries gs') = mset (group_entries (push_group tp (rm_mint m) gs)) +
        mset (zip tps (map rm_mint (missing_mints ms)))"
      by blast
    with missing show ?thesis by (intro exI [of _ "tp # tps"]) (simp add: push_group_entries)
  qed
qed simp

lemma create_buffers_plan_lists:
  assumes "create_buffers_plan C ms (gs, c, e) = Inr (gs', c', e')"
  shows "c' = c @ map rm_buffer (missing_mints ms) \<and> e' = e @ map rm_buffer (filter rm_buffer_exists ms)"
  using assms
proof (induction ms arbitrary: gs c e)
  case (Cons m ms)
  from Cons.prems show ?case
    by (cases rule: create_buffers_plan_Cons) (auto dest: Cons.IH)
qed simp

lemma create_buffers_plan_keys:
  assumes "create_buffers_plan C ms (gs, c, e) = Inr (gs', c', e')"
    and "distinct (map fst gs)" and "\<forall>(k, vs) \<in> set gs. vs \<noteq> []"
  shows "distinct (map fst gs') \<and> (\<forall>(k, vs) \<in> set gs'. vs \<noteq> [])"
  using assms
proof (induction ms arbitrary: gs c e)
  case (Cons m ms)
  from Cons.prems(1) show ?case
  proof (cases rule: create_buffers_plan_Cons)
    case existing
    from Cons.IH [OF existing(2) Cons.prems(2,3)] show ?thesis .
  next
    case (missing account tp)
    from Cons.IH [OF missing(4) push_group_keys [OF Cons.prems(2)] push_group_nonempty [OF Cons.prems(3)]]
    show ?thesis .
  qed
qed simp

text \<open>The buffers and mints a \<open>CreateBuffer\<close> instruction names, as the program reads them.\<close>

definition created_pairs :: "instruction \<Rightarrow> pubkey list list" where
  "created_pairs ix =
     (case instruction_parse CreateBuffer create_buffer_parse_body (ix_data ix) (instruction_addresses ix) of
        Inr input \<Rightarrow> cbi_buffer_pairs input
      | Inl e \<Rightarrow> [])"

lemma created_pairs_client:
  "ccb_mints b \<noteq> [] \<Longrightarrow> created_pairs (client_create_buffers P b) =
    map (\<lambda>mint. [fst (find_buffer_pda P (ccb_program_id b) mint), mint]) (ccb_mints b)"
  unfolding created_pairs_def client_create_buffers_def
  by (subst create_buffer_codec.parse_build) (simp_all add: create_buffers_input_def)

lemma created_pairs_all:
  assumes "iteration_spec C" and "\<forall>(k, vs) \<in> set gs. vs \<noteq> []"
  shows "mset (concat (map created_pairs (create_instructions C program_id payer gs))) =
    mset (map (\<lambda>(tp, mint). [fst (find_buffer_pda (cl_platform C) program_id mint), mint]) (group_entries gs))"
proof -
  let ?pair = "\<lambda>mint. [fst (find_buffer_pda (cl_platform C) program_id mint), mint]"
  have order: "mset (cl_order_groups C gs) = mset gs" using assms(1) by (simp add: iteration_spec_def)
  have "\<forall>(k, vs) \<in> set (cl_order_groups C gs). vs \<noteq> []"
    using assms iteration_spec_sets(2) by blast
  then have "map created_pairs (create_instructions C program_id payer gs) =
      map (\<lambda>(tp, mints). map ?pair mints) (cl_order_groups C gs)"
    by (auto simp: create_instructions_def created_pairs_client)
  then have "concat (map created_pairs (create_instructions C program_id payer gs)) =
      map (\<lambda>(tp, mint). ?pair mint) (group_entries (cl_order_groups C gs))"
    by (simp add: group_entries_def map_concat case_prod_beta' comp_def)
  then show ?thesis using group_entries_mset [OF order] by simp
qed

text \<open>
  What \<open>reclaim\<close> closes: the entry of a closed buffer has the limit of the first argument that
  names it, its balance within that limit, and the mint whose buffer it is.
\<close>

definition closes ::
  "'w cli \<Rightarrow> pubkey \<Rightarrow> (BufferArg \<times> account option) list \<Rightarrow> TokenProgram \<times> pubkey \<times> pubkey \<times> u64 \<Rightarrow> bool" where
  "closes C program_id xs = (\<lambda>(tp, address, mint, limit).
     \<exists>i account amount. i < length xs \<and> ba_address (fst (xs ! i)) = address \<and>
       address \<notin> ba_address ` fst ` set (take i xs) \<and> limit = ba_max_burn (fst (xs ! i)) \<and>
       snd (xs ! i) = Some account \<and> token_program_of C account = Inr tp \<and>
       cl_unpack_token_account C (acc_data account) = Some (mint, amount) \<and> amount \<le> limit \<and>
       address = fst (find_buffer_pda (cl_platform C) program_id mint))"

lemma closes_append: "closes C program_id xs e \<Longrightarrow> closes C program_id (xs @ ys) e"
  by (auto simp: closes_def nth_append)

lemma closes_last:
  assumes "decode_buffer C account (ba_address b) program_id = Inr st" and "bst_amount st \<le> ba_max_burn b"
    and "ba_address b \<notin> ba_address ` fst ` set xs"
  shows "closes C program_id (xs @ [(b, Some account)])
    (bst_token_program st, ba_address b, bst_mint st, ba_max_burn b)"
proof -
  from assms(1) obtain amount where "token_program_of C account = Inr (bst_token_program st)"
    "cl_unpack_token_account C (acc_data account) = Some (bst_mint st, amount)" "bst_amount st = amount"
    "ba_address b = fst (find_buffer_pda (cl_platform C) program_id (bst_mint st))"
    by (auto simp: decode_buffer_def bindE_Inr_iff ok_or_Inr_iff ensure_Inr_iff)
  with assms(2,3) show ?thesis unfolding closes_def by (simp add: exI [of _ "length xs"])
qed

definition reclaim_inv ::
  "'w cli \<Rightarrow> pubkey \<Rightarrow> (BufferArg \<times> account option) list \<Rightarrow> reclaim_plan \<Rightarrow> bool" where
  "reclaim_inv C program_id xs = (\<lambda>(by_program, to_close, non_empty).
     (\<forall>e \<in> set (group_entries by_program). closes C program_id xs e) \<and>
     mset (map (fst \<circ> snd) (group_entries by_program)) = mset to_close \<and>
     distinct (map fst by_program) \<and> (\<forall>(k, vs) \<in> set by_program. vs \<noteq> []) \<and>
     distinct (to_close @ non_empty) \<and> set (to_close @ non_empty) = ba_address ` fst ` set xs)"

lemma reclaim_inv_close:
  assumes inv: "reclaim_inv C program_id xs (gs, tc, ne)"
    and new: "ba_address b \<notin> ba_address ` fst ` set xs"
    and st: "decode_buffer C account (ba_address b) program_id = Inr st" "bst_amount st \<le> ba_max_burn b"
  shows "reclaim_inv C program_id (xs @ [(b, Some account)])
    (push_group (bst_token_program st) (ba_address b, bst_mint st, ba_max_burn b) gs, tc @ [ba_address b], ne)"
proof -
  let ?e = "(bst_token_program st, ba_address b, bst_mint st, ba_max_burn b)"
  have entries: "mset (group_entries (push_group (bst_token_program st) (ba_address b, bst_mint st, ba_max_burn b) gs)) =
      add_mset ?e (mset (group_entries gs))"
    by (rule push_group_entries)
  have "set (group_entries (push_group (bst_token_program st) (ba_address b, bst_mint st, ba_max_burn b) gs)) =
      insert ?e (set (group_entries gs))"
    by (metis entries set_mset_add_mset_insert set_mset_mset)
  moreover have "closes C program_id (xs @ [(b, Some account)]) ?e" by (rule closes_last [OF st new])
  moreover have "ba_address b \<notin> set (tc @ ne)" using inv new by (simp add: reclaim_inv_def)
  ultimately show ?thesis
    using inv entries push_group_keys [of gs] push_group_nonempty [of gs]
    by (auto simp: reclaim_inv_def intro: closes_append)
qed

lemma reclaim_inv_keep:
  assumes "reclaim_inv C program_id xs (gs, tc, ne)" and "ba_address b \<notin> ba_address ` fst ` set xs"
  shows "reclaim_inv C program_id (xs @ [(b, account)]) (gs, tc, ne @ [ba_address b])"
proof -
  have "ba_address b \<notin> set tc" "ba_address b \<notin> set ne"
    using assms unfolding reclaim_inv_def set_append by blast+
  with assms(1) show ?thesis by (auto simp: reclaim_inv_def intro: closes_append)
qed

lemma reclaim_inv_repeated:
  assumes "reclaim_inv C program_id xs (gs, tc, ne)" and "ba_address b \<in> ba_address ` fst ` set xs"
  shows "reclaim_inv C program_id (xs @ [(b, account)]) (gs, tc, ne)"
  using assms by (auto simp: reclaim_inv_def intro: closes_append)

lemma reclaim_buffers_plan_inv:
  assumes "reclaim_buffers_plan C program_id (map (ba_address \<circ> fst) xs) ys plan = Inr plan'"
    and "reclaim_inv C program_id xs plan"
  shows "reclaim_inv C program_id (xs @ ys) plan'"
  using assms
proof (induction ys arbitrary: xs plan)
  case (Cons y ys)
  obtain b account where y: "y = (b, account)" by fastforce
  obtain gs tc ne where plan: "plan = (gs, tc, ne)" by (cases plan)
  have earlier: "map (ba_address \<circ> fst) xs @ [ba_address b] = map (ba_address \<circ> fst) (xs @ [y])"
    by (simp add: y)
  have mem: "ba_address b \<in> set (map (ba_address \<circ> fst) xs) \<longleftrightarrow> ba_address b \<in> ba_address ` fst ` set xs"
    by (simp add: image_comp)
  show ?case
  proof (cases "ba_address b \<in> ba_address ` fst ` set xs")
    case True
    with Cons.prems(1) have "reclaim_buffers_plan C program_id (map (ba_address \<circ> fst) (xs @ [y])) ys (gs, tc, ne) = Inr plan'"
      unfolding y plan reclaim_buffers_plan.simps Let_def mem earlier [unfolded y] by simp
    from Cons.IH [OF this] show ?thesis
      using reclaim_inv_repeated [OF Cons.prems(2) [unfolded plan] True] by (simp add: y)
  next
    case new: False
    with Cons.prems(1) obtain acc st where acc: "account = Some acc"
      "decode_buffer C acc (ba_address b) program_id = Inr st"
      and rest: "(if bst_amount st \<le> ba_max_burn b
        then reclaim_buffers_plan C program_id (map (ba_address \<circ> fst) (xs @ [y])) ys
          (push_group (bst_token_program st) (ba_address b, bst_mint st, ba_max_burn b) gs, tc @ [ba_address b], ne)
        else reclaim_buffers_plan C program_id (map (ba_address \<circ> fst) (xs @ [y])) ys (gs, tc, ne @ [ba_address b])) =
        Inr plan'"
      unfolding y plan reclaim_buffers_plan.simps Let_def mem earlier [unfolded y]
      by (auto simp: bindE_Inr_iff ok_or_Inr_iff)
    show ?thesis
    proof (cases "bst_amount st \<le> ba_max_burn b")
      case True
      with rest show ?thesis
        using Cons.IH [OF _ reclaim_inv_close [OF Cons.prems(2) [unfolded plan] new acc(2) True]]
        by (simp add: y acc(1) comp_def)
    next
      case False
      with rest show ?thesis
        using Cons.IH [OF _ reclaim_inv_keep [OF Cons.prems(2) [unfolded plan] new, of account]] by (simp add: y comp_def)
    qed
  qed
qed simp

text \<open>The buffers a \<open>ReclaimBuffer\<close> instruction names, as the program reads them.\<close>

definition reclaimed_entries :: "instruction \<Rightarrow> (pubkey \<times> pubkey \<times> u64) list" where
  "reclaimed_entries ix =
     (case instruction_parse ReclaimBuffer reclaim_buffer_parse_body (ix_data ix) (instruction_addresses ix) of
        Inr input \<Rightarrow> map (\<lambda>b. (bu_buffer_pda b, bu_mint b, bu_burn_limit b)) (buffers_iter (rbi_buffers input))
      | Inl e \<Rightarrow> [])"

lemma reclaimed_entries_build: "rbb_buffers b \<noteq> [] \<Longrightarrow> reclaimed_entries (reclaim_buffer_instruction b) = rbb_buffers b"
  unfolding reclaimed_entries_def
  by (subst reclaim_buffer_codec.parse_build)
    (simp_all add: reclaim_buffer_input_def buffers_iter_def zip_map_map zip_same_conv_map case_prod_beta' comp_def)

lemma reclaimed_entries_all:
  assumes "iteration_spec C" and "\<forall>(k, vs) \<in> set gs. vs \<noteq> []"
  shows "mset (concat (map reclaimed_entries (reclaim_instructions C program_id state_pda authority target gs))) =
    mset (map snd (group_entries gs))"
proof -
  have order: "mset (cl_order_buffers C gs) = mset gs" using assms(1) by (simp add: iteration_spec_def)
  have "\<forall>(k, vs) \<in> set (cl_order_buffers C gs). vs \<noteq> []"
    using assms iteration_spec_sets(4) by blast
  then have "map reclaimed_entries (reclaim_instructions C program_id state_pda authority target gs) =
      map snd (cl_order_buffers C gs)"
    by (auto simp: reclaim_instructions_def reclaimed_entries_build)
  then have "concat (map reclaimed_entries (reclaim_instructions C program_id state_pda authority target gs)) =
      map snd (group_entries (cl_order_buffers C gs))"
    by (simp add: group_entries_def map_concat case_prod_beta' comp_def)
  then show ?thesis using group_entries_mset [OF order] by simp
qed

lemma buffer_reclaim_plan_inv:
  assumes "buffer_reclaim_plan C w ctx buffers = Inr plan"
  obtains accounts where "cl_get_multiple_accounts C w (map ba_address buffers) = Some accounts"
    and "reclaim_inv C (cx_program_id ctx) (zip buffers accounts) plan"
proof -
  from assms obtain accounts where accounts: "cl_get_multiple_accounts C w (map ba_address buffers) = Some accounts"
    and plan: "reclaim_buffers_plan C (cx_program_id ctx) (map (ba_address \<circ> fst) ([] :: (BufferArg \<times> account option) list)) (zip buffers accounts) ([], [], []) =
      Inr plan"
    by (auto simp: buffer_reclaim_plan_def bindE_Inr_iff ok_or_Inr_iff)
  have "reclaim_inv C (cx_program_id ctx) [] ([], [], [])" by (simp add: reclaim_inv_def)
  from that [OF accounts reclaim_buffers_plan_inv [OF plan this, simplified]] show thesis .
qed

lemma closes_zip:
  assumes "closes C program_id (zip buffers accounts) (tp, address, mint, limit)"
    and len: "length accounts = length buffers"
  shows "\<exists>i < length buffers. \<exists>account amount.
    ba_address (buffers ! i) = address \<and> address \<notin> ba_address ` set (take i buffers) \<and>
    limit = ba_max_burn (buffers ! i) \<and> accounts ! i = Some account \<and>
    cl_unpack_token_account C (acc_data account) = Some (mint, amount) \<and> amount \<le> limit \<and>
    address = fst (find_buffer_pda (cl_platform C) program_id mint)"
proof -
  have firsts: "fst ` set (take i (zip buffers accounts)) = set (take i buffers)" for i
    using len by (metis length_take list.set_map map_fst_zip take_zip)
  from assms show ?thesis unfolding closes_def firsts by auto
qed

section \<open>Properties\<close>

text \<open>
  C40: the \<open>ReclaimBuffer\<close> instructions \<open>cow buffer reclaim\<close> sends name every buffer to be closed
  once and no other. Each is named with the mint whose buffer it is, with the burn limit of the
  first argument that gives it, and held no more than that limit when it was fetched. Every
  buffer of the command line is either among them or reported as not empty, never both.
\<close>

theorem cli_buffer_reclaim_within_limits:
  assumes iter: "iteration_spec C"
    and plan: "buffer_reclaim_plan C w ctx buffers = Inr (by_program, to_close, non_empty)"
    and node: "\<forall>ks accounts. cl_get_multiple_accounts C w ks = Some accounts \<longrightarrow> length accounts = length ks"
  shows "\<exists>accounts. cl_get_multiple_accounts C w (map ba_address buffers) = Some accounts \<and>
    (let es = concat (map reclaimed_entries (reclaim_instructions C (cx_program_id ctx) state_pda authority target by_program)) in
     mset (map fst es) = mset to_close \<and> distinct (to_close @ non_empty) \<and>
     set (to_close @ non_empty) = ba_address ` set buffers \<and>
     (\<forall>(address, mint, limit) \<in> set es. \<exists>i < length buffers. \<exists>account amount.
        ba_address (buffers ! i) = address \<and> address \<notin> ba_address ` set (take i buffers) \<and>
        limit = ba_max_burn (buffers ! i) \<and> accounts ! i = Some account \<and>
        cl_unpack_token_account C (acc_data account) = Some (mint, amount) \<and> amount \<le> limit \<and>
        address = fst (find_buffer_pda (cl_platform C) (cx_program_id ctx) mint)))"
proof -
  from plan obtain accounts where accounts: "cl_get_multiple_accounts C w (map ba_address buffers) = Some accounts"
    and inv: "reclaim_inv C (cx_program_id ctx) (zip buffers accounts) (by_program, to_close, non_empty)"
    by (rule buffer_reclaim_plan_inv)
  let ?es = "concat (map reclaimed_entries (reclaim_instructions C (cx_program_id ctx) state_pda authority target by_program))"
  have len: "length accounts = length buffers" using node [rule_format, OF accounts] by simp
  have firsts: "fst ` set (zip buffers accounts) = set buffers"
    using len by (metis map_fst_zip set_map)
  have es: "mset ?es = mset (map snd (group_entries by_program))"
    by (rule reclaimed_entries_all [OF iter]) (use inv in \<open>simp add: reclaim_inv_def\<close>)
  have "mset (map fst ?es) = mset (map (fst \<circ> snd) (group_entries by_program))"
    by (simp only: mset_map es multiset.map_comp)
  moreover have "\<exists>i < length buffers. \<exists>account amount.
        ba_address (buffers ! i) = address \<and> address \<notin> ba_address ` set (take i buffers) \<and>
        limit = ba_max_burn (buffers ! i) \<and> accounts ! i = Some account \<and>
        cl_unpack_token_account C (acc_data account) = Some (mint, amount) \<and> amount \<le> limit \<and>
        address = fst (find_buffer_pda (cl_platform C) (cx_program_id ctx) mint)"
    if "(address, mint, limit) \<in> set ?es" for address mint limit
  proof -
    from that mset_eq_setD [OF es] have "(address, mint, limit) \<in> snd ` set (group_entries by_program)"
      by (simp only: set_map)
    then obtain tp where "(tp, address, mint, limit) \<in> set (group_entries by_program)" by force
    with inv have "closes C (cx_program_id ctx) (zip buffers accounts) (tp, address, mint, limit)"
      by (simp add: reclaim_inv_def)
    from closes_zip [OF this len] show ?thesis .
  qed
  moreover have "mset (map (fst \<circ> snd) (group_entries by_program)) = mset to_close"
    "distinct (to_close @ non_empty)" "set (to_close @ non_empty) = ba_address ` set buffers"
    using inv firsts by (simp_all add: reclaim_inv_def)
  ultimately show ?thesis
    unfolding Let_def case_prod_beta' by (intro exI [of _ accounts] conjI accounts ballI) simp_all
qed

end
