(* ===== verification/CliSettle.thy ===== *)
theory CliSettle
  imports CliBuffers Settle
begin

text \<open>
  The \<open>settle\<close> command (\<open>test-cli/src/cmd/settle.rs\<close>): it fetches the orders, checks that what they
  sell covers what they buy mint by mint, creates the missing buffers and settles the orders
  against each other in one transaction. The lemmas show that the transaction funds itself, that
  its two settlement instructions name each other, and that the program reads from them a pull of
  each order's full sell amount into the buffer of its sell mint and a push of its buy amount.
\<close>

section \<open>Resolving the orders\<close>

record ResolvedIntent =
  ri_data :: OrderIntent
  ri_sell :: TokenAccountInfo
  ri_buy :: TokenAccountInfo

definition fetch_order_intent :: "'w cli \<Rightarrow> 'w \<Rightarrow> Context \<Rightarrow> OrderArg \<Rightarrow> OrderIntent cli_result" where
  "fetch_order_intent C w ctx order =
     (let pda = order_arg_pda C order (cx_program_id ctx) in
      bindE (ok_or (cl_get_account_data C w pda) (Bail ''failed to get order account data'')) (\<lambda>data.
      bindE (map_err (\<lambda>_. Bail ''failed to decode order'') (decoded_order_try_from (cl_platform C) data)) (\<lambda>order_account.
      Inr (da_intent order_account))))"

text \<open>\<open>collect\<close> into a \<open>Result\<close>: the first error, or all the values.\<close>

fun collect_results :: "('e + 'a) list \<Rightarrow> 'e + 'a list" where
  "collect_results [] = Inr []"
| "collect_results (r # rs) = bindE r (\<lambda>x. bindE (collect_results rs) (\<lambda>xs. Inr (x # xs)))"

definition resolve_intent :: "'w cli \<Rightarrow> 'w \<Rightarrow> OrderIntent \<Rightarrow> ResolvedIntent cli_result" where
  "resolve_intent C w intent =
     (case oi_buy intent of
        Native _ \<Rightarrow> Inl (Bail ''order buys native SOL'')
      | AssetToken buy \<Rightarrow>
          bindE (resolve_from_token_account C w (ta_token_account (oi_sell intent))) (\<lambda>sell.
          bindE (resolve_from_token_account C w (ta_token_account buy)) (\<lambda>buy.
          Inr \<lparr>ri_data = intent, ri_sell = sell, ri_buy = buy\<rparr>)))"

definition resolve_intents :: "'w cli \<Rightarrow> 'w \<Rightarrow> Context \<Rightarrow> OrderArg list \<Rightarrow> ResolvedIntent list cli_result" where
  "resolve_intents C w ctx orders =
     bindE (collect_results (map (fetch_order_intent C w ctx) orders)) (\<lambda>intents.
     collect_results (map (resolve_intent C w) intents))"

section \<open>Setting up\<close>

text \<open>
  A tally is the list of its entries in insertion order; so are the sets of mints to create, one
  per token program.
\<close>

type_synonym tally = "(pubkey \<times> u64) list"

fun tally_insert :: "pubkey \<Rightarrow> u64 \<Rightarrow> tally \<Rightarrow> tally" where
  "tally_insert mint amount [] = [(mint, amount)]"
| "tally_insert mint amount ((m, a) # t) = (if m = mint then (m, amount) # t else (m, a) # tally_insert mint amount t)"

text \<open>\<open>entry(program).or_default().insert(mint)\<close>.\<close>

fun insert_group :: "'k \<Rightarrow> 'v \<Rightarrow> ('k \<times> 'v list) list \<Rightarrow> ('k \<times> 'v list) list" where
  "insert_group k v [] = [(k, [v])]"
| "insert_group k v ((k', vs) # gs) =
     (if k = k' then (k', if v \<in> set vs then vs else vs @ [v]) # gs else (k', vs) # insert_group k v gs)"

definition tally_and_register_buffer ::
  "'w cli \<Rightarrow> 'w \<Rightarrow> Context \<Rightarrow> TokenAccountInfo \<Rightarrow> u64 \<Rightarrow> tally \<times> (TokenProgram \<times> pubkey list) list \<Rightarrow>
   (tally \<times> (TokenProgram \<times> pubkey list) list) cli_result" where
  "tally_and_register_buffer C w ctx token amount = (\<lambda>(tally, mint_buffers_to_create).
     let mint = ti_mint token in
     case map_of tally mint of
       Some cur_amount \<Rightarrow>
         bindE (ok_or (checked_add cur_amount amount) (Bail ''trade amount tally overflow'')) (\<lambda>new_amount.
         Inr (tally_insert mint new_amount tally, mint_buffers_to_create))
     | None \<Rightarrow>
         (let buffer_pda = fst (find_buffer_pda (cl_platform C) (cx_program_id ctx) mint) in
          Inr (tally_insert mint amount tally,
            if cl_get_account C w buffer_pda = None
            then insert_group (ti_token_program token) mint mint_buffers_to_create
            else mint_buffers_to_create)))"

type_synonym settle_setup = "tally \<times> tally \<times> (TokenProgram \<times> pubkey list) list"

fun prepare_setup_loop :: "'w cli \<Rightarrow> 'w \<Rightarrow> Context \<Rightarrow> ResolvedIntent list \<Rightarrow> settle_setup \<Rightarrow> settle_setup cli_result" where
  "prepare_setup_loop C w ctx [] s = Inr s"
| "prepare_setup_loop C w ctx (intent # intents) (sell_amount_pulled, buy_amount_pushed, to_create) =
     bindE (tally_and_register_buffer C w ctx (ri_sell intent) (oi_sell_amount (ri_data intent))
         (sell_amount_pulled, to_create))
       (\<lambda>(sell_amount_pulled, to_create).
     bindE (tally_and_register_buffer C w ctx (ri_buy intent) (oi_buy_amount (ri_data intent))
         (buy_amount_pushed, to_create))
       (\<lambda>(buy_amount_pushed, to_create).
     prepare_setup_loop C w ctx intents (sell_amount_pulled, buy_amount_pushed, to_create)))"

text \<open>The entries bought, in the order of iteration.\<close>

fun cow_balance_loop :: "tally \<Rightarrow> tally \<Rightarrow> unit cli_result" where
  "cow_balance_loop sell_amount_pulled [] = Inr ()"
| "cow_balance_loop sell_amount_pulled ((mint, pushed) # rest) =
     bindE (ensure (pushed \<le> unwrap_or (map_of sell_amount_pulled mint) 0) (Bail ''orders can't be CoW'd'')) (\<lambda>_.
     cow_balance_loop sell_amount_pulled rest)"

definition ensure_cow_balance :: "'w cli \<Rightarrow> tally \<Rightarrow> tally \<Rightarrow> unit cli_result" where
  "ensure_cow_balance C sell_amount_pulled buy_amount_pushed =
     cow_balance_loop sell_amount_pulled (cl_order_tally C buy_amount_pushed)"

definition prepare_setup_ixs :: "'w cli \<Rightarrow> 'w \<Rightarrow> Context \<Rightarrow> ResolvedIntent list \<Rightarrow> instruction list cli_result" where
  "prepare_setup_ixs C w ctx intents =
     bindE (prepare_setup_loop C w ctx intents ([], [], [])) (\<lambda>(sell_amount_pulled, buy_amount_pushed, to_create).
     bindE (ensure_cow_balance C sell_amount_pulled buy_amount_pushed) (\<lambda>_.
     Inr (map (\<lambda>(token_program, mints). client_create_buffers (cl_platform C)
         \<lparr>ccb_program_id = cx_program_id ctx, ccb_payer = ctx_payer ctx, ccb_token_program = token_program,
          ccb_mints = cl_order_mints C mints\<rparr>)
       (cl_order_groups C to_create))))"

section \<open>The settlement\<close>

definition compute_pulls :: "'w cli \<Rightarrow> Context \<Rightarrow> ResolvedIntent list \<Rightarrow> Pull list list" where
  "compute_pulls C ctx intents =
     map (\<lambda>intent.
       [\<lparr>pl_destination = fst (find_buffer_pda (cl_platform C) (cx_program_id ctx) (ti_mint (ri_sell intent))),
         pl_amount = oi_sell_amount (ri_data intent)\<rparr>]) intents"

definition initialized_intents :: "'w cli \<Rightarrow> Context \<Rightarrow> ResolvedIntent list \<Rightarrow> InitializedIntent list" where
  "initialized_intents C ctx intents =
     map (\<lambda>(intent, pulls). \<lparr>ii_intent = ri_data intent, ii_pulls = pulls, ii_use_transfer_checked = False\<rparr>)
       (zip intents (compute_pulls C ctx intents))"

definition finalized_intents :: "ResolvedIntent list \<Rightarrow> FinalizedIntent list" where
  "finalized_intents intents =
     map (\<lambda>intent. \<lparr>fi_intent = ri_data intent, fi_amount = oi_buy_amount (ri_data intent),
       fi_use_transfer_checked = False\<rparr>) intents"

text \<open>
  The transaction of \<open>run\<close>: the setup, then \<open>BeginSettle\<close> and \<open>FinalizeSettle\<close>. Converting a builder
  panics where the interface's conversion does.
\<close>

definition settle_builders ::
  "'w cli \<Rightarrow> Context \<Rightarrow> ResolvedIntent list \<Rightarrow> u16 \<Rightarrow> u16 \<Rightarrow> ClientBeginSettle \<times> ClientFinalizeSettle" where
  "settle_builders C ctx intents begin_ix_index finalize_ix_index =
     (\<lparr>cbs_program_id = cx_program_id ctx, cbs_solver = ctx_payer ctx, cbs_finalize_ix_index = finalize_ix_index,
       cbs_auction_id = 0, cbs_only_token_program = None, cbs_orders = initialized_intents C ctx intents\<rparr>,
      \<lparr>cfs_program_id = cx_program_id ctx, cfs_begin_ix_index = begin_ix_index, cfs_only_token_program = None,
       cfs_orders = finalized_intents intents\<rparr>)"

definition settle_instructions ::
  "'w cli \<Rightarrow> 'w \<Rightarrow> Context \<Rightarrow> ResolvedIntent list \<Rightarrow> instruction list cli_result" where
  "settle_instructions C w ctx intents =
     bindE (prepare_setup_ixs C w ctx intents) (\<lambda>all_ixs.
     bindE (if length all_ixs + 1 < 2 ^ 16 then Inr (of_nat (length all_ixs), of_nat (length all_ixs + 1))
            else Inl (Bail ''too many instructions: begin/finalize index overflow''))
       (\<lambda>(begin_ix_index, finalize_ix_index).
     let (begin, finalize) = settle_builders C ctx intents begin_ix_index finalize_ix_index in
     bindE (map_err (\<lambda>_. CliPanic) (client_begin_settle (cl_platform C) begin)) (\<lambda>begin_ix.
     Inr (all_ixs @ [begin_ix, client_finalize_settle (cl_platform C) finalize]))))"

section \<open>Running it\<close>

datatype SettleOutcome =
    SettleSent signature u64
  | SettleProposed Proposed
  | Simulated u64
  | SimulationFailed string "u64 option" "string list"

definition status_line :: "'w cli \<Rightarrow> SettleOutcome \<Rightarrow> string" where
  "status_line C outcome =
     (case outcome of
        SettleSent sig units \<Rightarrow>
          ''settle: '' @ cl_signature_to_string C sig @ '' ('' @ show_nat (unat units) @ '' CU)''
      | SettleProposed p \<Rightarrow>
          ''settle: proposed as Squads transaction '' @ show_nat (unat (pd_transaction_index p)) @ '' ('' @
          cl_pubkey_to_string C (pd_proposal p) @ '')''
      | Simulated units \<Rightarrow> ''settle: dry run (simulated success, '' @ show_nat (unat units) @ '' CU)''
      | SimulationFailed err (Some units) _ \<Rightarrow>
          ''settle: dry run (SIMULATION FAILED: '' @ err @ '', '' @ show_nat (unat units) @ '' CU)''
      | SimulationFailed err None _ \<Rightarrow> ''settle: dry run (SIMULATION FAILED: '' @ err @ '')'')"

definition settlement_summary :: "'w cli \<Rightarrow> SettleOutcome \<Rightarrow> ResolvedIntent list \<Rightarrow> string list cli_result" where
  "settlement_summary C outcome intents =
     bindE (case outcome of SettleProposed p \<Rightarrow> print_summary (proposed_summary C p) | _ \<Rightarrow> Inr []) (\<lambda>proposed.
     Inr ([status_line C outcome] @ proposed @
       map (\<lambda>(i, intent). ''  order '' @ show_nat i @ '': pulled '' @
           show_nat (unat (oi_sell_amount (ri_data intent))) @ '' (sell '' @
           cl_pubkey_to_string C (ti_mint (ri_sell intent)) @ ''), pushed '' @
           show_nat (unat (oi_buy_amount (ri_data intent))) @ '' (buy '' @
           cl_pubkey_to_string C (ti_mint (ri_buy intent)) @ '')'')
         (zip [0..<length intents] intents) @
       (case outcome of
          SimulationFailed _ _ logs \<Rightarrow>
            if logs = [] then [''  (simulation returned no logs)'']
            else [''  simulation logs:''] @ map (\<lambda>line. ''    '' @ line) logs
        | _ \<Rightarrow> [])))"

definition print_settlement_summary ::
  "'w cli \<Rightarrow> SettleOutcome \<Rightarrow> ResolvedIntent list \<Rightarrow> unit cli_result \<Rightarrow> 'w \<Rightarrow> 'w outcome" where
  "print_settlement_summary C outcome intents r w =
     (case settlement_summary C outcome intents of Inl e \<Rightarrow> fail e w | Inr lines \<Rightarrow> (lines, r, w))"

text \<open>A dry run simulates; a reverted simulation is reported and fails.\<close>

definition settle_dry_run :: "'w cli \<Rightarrow> Context \<Rightarrow> ResolvedIntent list \<Rightarrow> instruction list \<Rightarrow> 'w \<Rightarrow> 'w outcome" where
  "settle_dry_run C ctx intents ixs w =
     (case simulate C ctx w ixs of
        None \<Rightarrow> fail (Bail ''dry run simulation of settlement transaction failed'') w
      | Some simulated \<Rightarrow>
          (case sim_err simulated of
             Some err \<Rightarrow>
               print_settlement_summary C
                 (SimulationFailed err (sim_units_consumed simulated) (unwrap_or (sim_logs simulated) [])) intents
                 (Inl (Bail ''dry run simulation of settlement transaction failed'')) w
           | None \<Rightarrow>
               (case sim_units_consumed simulated of
                  None \<Rightarrow> fail (Bail ''simulation result doesn't include units_consumed'') w
                | Some units \<Rightarrow> print_settlement_summary C (Simulated units) intents (Inr ()) w)))"

definition settle_submit :: "'w cli \<Rightarrow> Context \<Rightarrow> ResolvedIntent list \<Rightarrow> instruction list \<Rightarrow> 'w \<Rightarrow> 'w outcome" where
  "settle_submit C ctx intents ixs w =
     (case submit C ctx ixs [] w of
        (Inl e, w') \<Rightarrow> fail e w'
      | (Inr (ProposedTx p), w') \<Rightarrow> print_settlement_summary C (SettleProposed p) intents (Inr ()) w'
      | (Inr (Sent sig), w') \<Rightarrow>
          (case cl_transaction_units C w' sig of
             None \<Rightarrow> fail (Bail ''could not pull data of confirmed transaction'') w'
           | Some None \<Rightarrow> fail (Bail ''transaction has no context'') w'
           | Some (Some None) \<Rightarrow> fail (Bail ''transaction meta doesn't include compute_units_consumed'') w'
           | Some (Some (Some units)) \<Rightarrow>
               print_settlement_summary C (SettleSent sig units) intents (Inr ()) w'))"

definition settle_run :: "'w cli \<Rightarrow> Context \<Rightarrow> OrderArg list \<Rightarrow> bool \<Rightarrow> 'w \<Rightarrow> 'w outcome" where
  "settle_run C ctx orders dry_run w =
     (case bindE (resolve_intents C w ctx orders) (\<lambda>intents.
        bindE (settle_instructions C w ctx intents) (\<lambda>ixs. Inr (intents, ixs))) of
        Inl e \<Rightarrow> fail e w
      | Inr (intents, ixs) \<Rightarrow>
          if dry_run then settle_dry_run C ctx intents ixs w else settle_submit C ctx intents ixs w)"

section \<open>The tallies are sums\<close>

definition tally_at :: "tally \<Rightarrow> pubkey \<Rightarrow> nat" where
  "tally_at t mint = (case map_of t mint of None \<Rightarrow> 0 | Some a \<Rightarrow> unat a)"

definition sold :: "ResolvedIntent list \<Rightarrow> pubkey \<Rightarrow> nat" where
  "sold intents mint =
     sum_list (map (\<lambda>r. if ti_mint (ri_sell r) = mint then unat (oi_sell_amount (ri_data r)) else 0) intents)"

definition bought :: "ResolvedIntent list \<Rightarrow> pubkey \<Rightarrow> nat" where
  "bought intents mint =
     sum_list (map (\<lambda>r. if ti_mint (ri_buy r) = mint then unat (oi_buy_amount (ri_data r)) else 0) intents)"

lemma map_of_tally_insert [simp]: "map_of (tally_insert m a t) = (map_of t)(m \<mapsto> a)"
  by (induction t rule: tally_insert.induct [of _ m a]) auto

lemma tally_insert_keys: "fst ` set (tally_insert m a t) = insert m (fst ` set t)"
  by (induction t rule: tally_insert.induct [of _ m a]) auto

lemma tally_insert_distinct: "distinct (map fst t) \<Longrightarrow> distinct (map fst (tally_insert m a t))"
  by (induction t rule: tally_insert.induct [of _ m a]) (auto simp: tally_insert_keys [unfolded image_iff] image_iff)

lemma tally_at_less: "tally_at t mint < 2 ^ 64"
  unfolding tally_at_def using unsigned_less [where ?'a = nat and ?'b = 64] by (simp split: option.split)

lemma tally_step_Inr_iff:
  "(\<exists>t' g'. tally_and_register_buffer C w ctx token amount (t, g) = Inr (t', g')) \<longleftrightarrow>
    tally_at t (ti_mint token) + unat amount < 2 ^ 64"
proof (cases "map_of t (ti_mint token)")
  case None
  then show ?thesis
    using unsigned_less [of amount, where ?'a = nat]
    by (simp add: tally_and_register_buffer_def tally_at_def Let_def)
next
  case (Some cur)
  then show ?thesis
    by (auto simp: tally_and_register_buffer_def tally_at_def Let_def bindE_Inr_iff ok_or_Inr_iff checked_add_def)
qed

lemma tally_step_at:
  assumes "tally_and_register_buffer C w ctx token amount (t, g) = Inr (t', g')"
  shows "tally_at t' mint = tally_at t mint + (if ti_mint token = mint then unat amount else 0)"
  using assms
  by (auto simp: tally_and_register_buffer_def tally_at_def Let_def bindE_Inr_iff ok_or_Inr_iff checked_add_Some_iff
      split: option.splits)

lemma tally_step_distinct:
  assumes "tally_and_register_buffer C w ctx token amount (t, g) = Inr (t', g')" and "distinct (map fst t)"
  shows "distinct (map fst t')"
  using assms tally_insert_distinct
  by (auto simp: tally_and_register_buffer_def Let_def bindE_Inr_iff split: option.splits)

lemma prepare_setup_Cons:
  "prepare_setup_loop C w ctx (r # rs) (p, q, g) = Inr s \<longleftrightarrow>
    (\<exists>p' g' q' g''.
      tally_and_register_buffer C w ctx (ri_sell r) (oi_sell_amount (ri_data r)) (p, g) = Inr (p', g') \<and>
      tally_and_register_buffer C w ctx (ri_buy r) (oi_buy_amount (ri_data r)) (q, g') = Inr (q', g'') \<and>
      prepare_setup_loop C w ctx rs (p', q', g'') = Inr s)"
  by (auto simp: bindE_Inr_iff)

lemma prepare_setup_sums:
  assumes "prepare_setup_loop C w ctx rs (p, q, g) = Inr (p', q', g')"
  shows "tally_at p' mint = tally_at p mint + sold rs mint \<and> tally_at q' mint = tally_at q mint + bought rs mint"
  using assms
proof (induction rs arbitrary: p q g)
  case (Cons r rs)
  then obtain p1 g1 q1 g2 where
    "tally_and_register_buffer C w ctx (ri_sell r) (oi_sell_amount (ri_data r)) (p, g) = Inr (p1, g1)"
    "tally_and_register_buffer C w ctx (ri_buy r) (oi_buy_amount (ri_data r)) (q, g1) = Inr (q1, g2)"
    "prepare_setup_loop C w ctx rs (p1, q1, g2) = Inr (p', q', g')"
    unfolding prepare_setup_Cons by blast
  with Cons.IH [of p1 q1 g2] show ?case
    by (simp add: tally_step_at sold_def bought_def)
qed (simp add: sold_def bought_def)

lemma prepare_setup_distinct:
  assumes "prepare_setup_loop C w ctx rs (p, q, g) = Inr (p', q', g')" and "distinct (map fst q)"
  shows "distinct (map fst q')"
  using assms
proof (induction rs arbitrary: p q g)
  case (Cons r rs)
  then obtain p1 g1 q1 g2 where
    "tally_and_register_buffer C w ctx (ri_buy r) (oi_buy_amount (ri_data r)) (q, g1) = Inr (q1, g2)"
    "prepare_setup_loop C w ctx rs (p1, q1, g2) = Inr (p', q', g')"
    unfolding prepare_setup_Cons by blast
  with Cons.IH [of p1 q1 g2] tally_step_distinct [of C w ctx "ri_buy r"] Cons.prems(2) show ?case by simp
qed simp

lemma prepare_setup_total:
  assumes "\<forall>mint. tally_at p mint + sold rs mint < 2 ^ 64 \<and> tally_at q mint + bought rs mint < 2 ^ 64"
  shows "\<exists>s. prepare_setup_loop C w ctx rs (p, q, g) = Inr s"
  using assms
proof (induction rs arbitrary: p q g)
  case (Cons r rs)
  have "tally_at p (ti_mint (ri_sell r)) + unat (oi_sell_amount (ri_data r)) < 2 ^ 64"
    "tally_at q (ti_mint (ri_buy r)) + unat (oi_buy_amount (ri_data r)) < 2 ^ 64"
    using Cons.prems [rule_format, of "ti_mint (ri_sell r)"] Cons.prems [rule_format, of "ti_mint (ri_buy r)"]
    by (simp_all add: sold_def bought_def)
  then obtain p1 g1 q1 g2 where
    steps: "tally_and_register_buffer C w ctx (ri_sell r) (oi_sell_amount (ri_data r)) (p, g) = Inr (p1, g1)"
    "tally_and_register_buffer C w ctx (ri_buy r) (oi_buy_amount (ri_data r)) (q, g1) = Inr (q1, g2)"
    using tally_step_Inr_iff by metis
  have "\<forall>mint. tally_at p1 mint + sold rs mint < 2 ^ 64 \<and> tally_at q1 mint + bought rs mint < 2 ^ 64"
    using Cons.prems by (simp add: tally_step_at [OF steps(1)] tally_step_at [OF steps(2)] sold_def bought_def
        add.assoc split del: if_split)
  from Cons.IH [OF this] steps show ?case unfolding prepare_setup_Cons by blast
qed simp

lemma cow_balance_loop_Inr_iff:
  "cow_balance_loop p q = Inr () \<longleftrightarrow> (\<forall>(mint, a) \<in> set q. a \<le> unwrap_or (map_of p mint) 0)"
  by (induction q) (auto simp: bindE_Inr_iff ensure_Inr_iff)

lemma unwrap_or_tally: "unat (unwrap_or (map_of t mint) 0) = tally_at t mint"
  by (simp add: unwrap_or_def tally_at_def split: option.splits)

lemma ensure_cow_balance_Inr_iff:
  assumes "iteration_spec C" and "distinct (map fst q)"
  shows "ensure_cow_balance C p q = Inr () \<longleftrightarrow> (\<forall>mint. tally_at q mint \<le> tally_at p mint)"
proof -
  have "ensure_cow_balance C p q = Inr () \<longleftrightarrow> (\<forall>(mint, a) \<in> set q. unat a \<le> tally_at p mint)"
    using iteration_spec_sets(1) [OF assms(1)]
    by (simp add: ensure_cow_balance_def cow_balance_loop_Inr_iff word_le_nat_alt unwrap_or_tally)
  also have "\<dots> \<longleftrightarrow> (\<forall>mint. tally_at q mint \<le> tally_at p mint)"
  proof
    assume le: "\<forall>(mint, a) \<in> set q. unat a \<le> tally_at p mint"
    show "\<forall>mint. tally_at q mint \<le> tally_at p mint"
      using le by (auto simp: tally_at_def [of q] split: option.split dest: map_of_SomeD)
  next
    assume le: "\<forall>mint. tally_at q mint \<le> tally_at p mint"
    have "unat a \<le> tally_at p mint" if "(mint, a) \<in> set q" for mint a
      using le [rule_format, of mint] that assms(2) by (simp add: tally_at_def [of q])
    then show "\<forall>(mint, a) \<in> set q. unat a \<le> tally_at p mint" by blast
  qed
  finally show ?thesis .
qed

lemma tally_at_Nil [simp]: "tally_at [] mint = 0"
  by (simp add: tally_at_def)

lemma prepare_setup_succeeds_iff:
  assumes "iteration_spec C"
  shows "(\<exists>ixs. prepare_setup_ixs C w ctx intents = Inr ixs) \<longleftrightarrow>
    (\<forall>mint. bought intents mint \<le> sold intents mint \<and> sold intents mint < 2 ^ 64)"
proof
  assume "\<exists>ixs. prepare_setup_ixs C w ctx intents = Inr ixs"
  then obtain p q g where loop: "prepare_setup_loop C w ctx intents ([], [], []) = Inr (p, q, g)"
    and cow: "ensure_cow_balance C p q = Inr ()"
    by (auto simp: prepare_setup_ixs_def bindE_Inr_iff)
  have "\<forall>mint. tally_at q mint \<le> tally_at p mint"
    using cow ensure_cow_balance_Inr_iff [OF assms prepare_setup_distinct [OF loop]] by simp
  then show "\<forall>mint. bought intents mint \<le> sold intents mint \<and> sold intents mint < 2 ^ 64"
    using prepare_setup_sums [OF loop] tally_at_less [of p] by simp
next
  assume fits: "\<forall>mint. bought intents mint \<le> sold intents mint \<and> sold intents mint < 2 ^ 64"
  then have "\<forall>mint. tally_at [] mint + sold intents mint < 2 ^ 64 \<and> tally_at [] mint + bought intents mint < 2 ^ 64"
    using le_less_trans by (simp del: power_numeral_even power_numeral_odd) blast
  then obtain p q g where loop: "prepare_setup_loop C w ctx intents ([], [], []) = Inr (p, q, g)"
    using prepare_setup_total by (metis prod_cases3)
  have "ensure_cow_balance C p q = Inr ()"
    using fits prepare_setup_sums [OF loop] ensure_cow_balance_Inr_iff [OF assms prepare_setup_distinct [OF loop]] by simp
  with loop show "\<exists>ixs. prepare_setup_ixs C w ctx intents = Inr ixs"
    by (simp add: prepare_setup_ixs_def)
qed

section \<open>The setup creates the missing buffers\<close>

definition buffer_missing :: "'w cli \<Rightarrow> 'w \<Rightarrow> Context \<Rightarrow> pubkey \<Rightarrow> bool" where
  "buffer_missing C w ctx mint \<longleftrightarrow>
     cl_get_account C w (fst (find_buffer_pda (cl_platform C) (cx_program_id ctx) mint)) = None"

definition traded_mints :: "ResolvedIntent list \<Rightarrow> pubkey set" where
  "traded_mints intents = (\<lambda>r. ti_mint (ri_sell r)) ` set intents \<union> (\<lambda>r. ti_mint (ri_buy r)) ` set intents"

lemma insert_group_entries: "set (group_entries (insert_group k v gs)) = insert (k, v) (set (group_entries gs))"
  by (induction k v gs rule: insert_group.induct) auto

lemma insert_group_nonempty:
  "(\<forall>(k, vs) \<in> set gs. vs \<noteq> []) \<Longrightarrow> \<forall>(k, vs) \<in> set (insert_group k v gs). vs \<noteq> []"
  by (induction k v gs rule: insert_group.induct) auto

text \<open>The groups hold the mints seen so far whose buffer is missing.\<close>

definition registered_ok :: "'w cli \<Rightarrow> 'w \<Rightarrow> Context \<Rightarrow> pubkey set \<Rightarrow> (TokenProgram \<times> pubkey list) list \<Rightarrow> bool" where
  "registered_ok C w ctx seen g \<longleftrightarrow>
     snd ` set (group_entries g) = {m \<in> seen. buffer_missing C w ctx m} \<and> (\<forall>(k, vs) \<in> set g. vs \<noteq> [])"

lemma tally_step_registers:
  assumes "tally_and_register_buffer C w ctx token amount (t, g) = Inr (t', g')"
    and "registered_ok C w ctx (fst ` set t \<union> other) g"
  shows "fst ` set t' = insert (ti_mint token) (fst ` set t)"
    and "registered_ok C w ctx (fst ` set t' \<union> other) g'"
proof -
  from assms(1) obtain a where "t' = tally_insert (ti_mint token) a t"
    by (auto simp: tally_and_register_buffer_def Let_def bindE_Inr_iff split: option.splits)
  then show keys: "fst ` set t' = insert (ti_mint token) (fst ` set t)"
    by (simp only: tally_insert_keys)
  have g': "g' = (if map_of t (ti_mint token) = None \<and> buffer_missing C w ctx (ti_mint token)
      then insert_group (ti_token_program token) (ti_mint token) g else g)"
    using assms(1)
    by (auto simp: tally_and_register_buffer_def buffer_missing_def Let_def bindE_Inr_iff split: option.splits)
  have "ti_mint token \<in> fst ` set t" if "map_of t (ti_mint token) \<noteq> None"
    using that by (metis map_of_eq_None_iff)
  moreover have "\<forall>(k, vs) \<in> set g'. vs \<noteq> []"
    using assms(2) insert_group_nonempty [of g] by (simp add: g' registered_ok_def)
  ultimately show "registered_ok C w ctx (fst ` set t' \<union> other) g'"
    using assms(2) unfolding registered_ok_def keys by (auto simp: g' insert_group_entries)
qed

lemma prepare_setup_registers:
  assumes "prepare_setup_loop C w ctx rs (p, q, g) = Inr (p', q', g')"
    and "registered_ok C w ctx (fst ` set p \<union> fst ` set q) g"
  shows "registered_ok C w ctx (fst ` set p \<union> fst ` set q \<union> traded_mints rs) g'"
  using assms
proof (induction rs arbitrary: p q g)
  case (Cons r rs)
  from Cons.prems(1) obtain p1 g1 q1 g2 where
    sell: "tally_and_register_buffer C w ctx (ri_sell r) (oi_sell_amount (ri_data r)) (p, g) = Inr (p1, g1)"
    and buy: "tally_and_register_buffer C w ctx (ri_buy r) (oi_buy_amount (ri_data r)) (q, g1) = Inr (q1, g2)"
    and rest: "prepare_setup_loop C w ctx rs (p1, q1, g2) = Inr (p', q', g')"
    unfolding prepare_setup_Cons by blast
  note sold = tally_step_registers [OF sell Cons.prems(2)]
  from sold(2) have "registered_ok C w ctx (fst ` set q \<union> fst ` set p1) g1" by (simp add: Un_commute)
  note bought = tally_step_registers [OF buy this]
  from bought(2) have "registered_ok C w ctx (fst ` set p1 \<union> fst ` set q1) g2" by (simp add: Un_commute)
  from Cons.IH [OF rest this] show ?case
    by (simp add: sold(1) bought(1) traded_mints_def Un_ac insert_commute)
qed (simp add: traded_mints_def)

lemma setup_creates_missing:
  assumes iter: "iteration_spec C" and "prepare_setup_ixs C w ctx intents = Inr setup"
  shows "set (concat (map created_pairs setup)) =
    (\<lambda>m. [fst (find_buffer_pda (cl_platform C) (cx_program_id ctx) m), m]) `
      {m \<in> traded_mints intents. buffer_missing C w ctx m}"
proof -
  let ?pair = "\<lambda>m. [fst (find_buffer_pda (cl_platform C) (cx_program_id ctx) m), m]"
  from assms(2) obtain p q g where loop: "prepare_setup_loop C w ctx intents ([], [], []) = Inr (p, q, g)"
    and setup_eq: "setup = map (\<lambda>(tp, mints). client_create_buffers (cl_platform C)
      \<lparr>ccb_program_id = cx_program_id ctx, ccb_payer = ctx_payer ctx, ccb_token_program = tp,
       ccb_mints = cl_order_mints C mints\<rparr>) (cl_order_groups C g)"
    by (auto simp: prepare_setup_ixs_def bindE_Inr_iff)
  have ok: "registered_ok C w ctx (traded_mints intents) g"
    using prepare_setup_registers [OF loop] by (simp add: registered_ok_def)
  have "created_pairs (client_create_buffers (cl_platform C)
      \<lparr>ccb_program_id = cx_program_id ctx, ccb_payer = ctx_payer ctx, ccb_token_program = tp,
       ccb_mints = cl_order_mints C mints\<rparr>) = map ?pair (cl_order_mints C mints)"
    if "(tp, mints) \<in> set (cl_order_groups C g)" for tp mints
  proof -
    have "mints \<noteq> []" using that ok iteration_spec_sets(2) [OF iter] by (auto simp: registered_ok_def)
    then have "cl_order_mints C mints \<noteq> []" using iteration_spec_sets(3) [OF iter] by (metis set_empty)
    then show ?thesis by (simp add: created_pairs_client)
  qed
  then have "map created_pairs setup = map (\<lambda>(tp, mints). map ?pair (cl_order_mints C mints)) (cl_order_groups C g)"
    unfolding setup_eq by auto
  then have "set (concat (map created_pairs setup)) = ?pair ` snd ` set (group_entries g)"
    using iteration_spec_sets [OF iter] by (auto simp: group_entries_def image_iff Bex_def) blast
  then show ?thesis using ok by (simp add: registered_ok_def)
qed

section \<open>What the program reads from the transaction\<close>

text \<open>The one pull and the one push of an order, by the addresses and amounts they move.\<close>

definition cli_pull :: "'w cli \<Rightarrow> Context \<Rightarrow> ResolvedIntent \<Rightarrow> pubkey \<times> pubkey list \<times> u64 list" where
  "cli_pull C ctx r =
     (ta_token_account (oi_sell (ri_data r)),
      [fst (find_buffer_pda (cl_platform C) (cx_program_id ctx) (ti_mint (ri_sell r)))],
      [oi_sell_amount (ri_data r)])"

definition cli_push :: "'w cli \<Rightarrow> Context \<Rightarrow> ResolvedIntent \<Rightarrow> pubkey \<times> pubkey \<times> u64" where
  "cli_push C ctx r =
     (case oi_buy (ri_data r) of
        AssetToken buy \<Rightarrow>
          (fst (find_buffer_pda (cl_platform C) (cx_program_id ctx) (ta_mint buy)), ta_token_account buy,
           oi_buy_amount (ri_data r))
      | Native account \<Rightarrow>
          (fst (find_native_sol_buffer_pda (cl_platform C) (cx_program_id ctx)), account, oi_buy_amount (ri_data r)))"

abbreviation settle_order :: "'w cli \<Rightarrow> Context \<Rightarrow> ResolvedIntent list \<Rightarrow> ResolvedIntent list" where
  "settle_order C ctx intents \<equiv>
     sort_key (\<lambda>r. client_order_address (cl_platform C) (cx_program_id ctx) (ri_data r)) intents"

lemma initialized_intents_map:
  "initialized_intents C ctx intents =
    map (\<lambda>r. \<lparr>ii_intent = ri_data r,
      ii_pulls = [\<lparr>pl_destination = fst (find_buffer_pda (cl_platform C) (cx_program_id ctx) (ti_mint (ri_sell r))),
        pl_amount = oi_sell_amount (ri_data r)\<rparr>], ii_use_transfer_checked = False\<rparr>) intents"
  unfolding initialized_intents_def compute_pulls_def by (induction intents) simp_all

lemma settle_begin_parses:
  fixes C ctx intents i j
  defines "b \<equiv> fst (settle_builders C ctx intents i j)"
  assumes "length intents < 256" and "client_begin_settle (cl_platform C) b = Inr begin_ix"
  shows "\<exists>input orders.
    instruction_parse BeginSettle begin_settle_parse_body (ix_data begin_ix) (instruction_addresses begin_ix) = Inr input \<and>
    bsi_finalize_ix_index input = j \<and> bsi_solver_account input = ctx_payer ctx \<and>
    settled_orders_iter (bsi_orders input) = map Inr orders \<and>
    map so_order_pda orders = map (\<lambda>r. client_order_address (cl_platform C) (cx_program_id ctx) (ri_data r)) (settle_order C ctx intents) \<and>
    map (\<lambda>so. (so_sell_token_account so, so_destinations so, map from_le (so_amounts so))) orders =
      map (cli_pull C ctx) (settle_order C ctx intents)"
proof -
  let ?P = "cl_platform C"
  let ?b = "client_begin_settle_builder ?P b"
  have fields: "cbs_program_id b = cx_program_id ctx" "cbs_finalize_ix_index b = j" "cbs_solver b = ctx_payer ctx"
    "cbs_orders b = initialized_intents C ctx intents"
    by (simp_all add: b_def settle_builders_def)
  have wf: "begin_settle_wf ?b"
    by (rule client_begin_settle_wf) (use assms(2) in \<open>simp_all add: fields initialized_intents_map\<close>)
  have ix: "begin_ix = begin_settle_layout ?P ?b"
    using assms(3) by (auto simp: client_begin_settle_def begin_settle_instruction_def result_simps)
  have orders: "begin_settle_orders ?P ?b =
      map (client_settled_order ?P (cx_program_id ctx)) (map (\<lambda>r. \<lparr>ii_intent = ri_data r,
        ii_pulls = [\<lparr>pl_destination = fst (find_buffer_pda ?P (cx_program_id ctx) (ti_mint (ri_sell r))),
          pl_amount = oi_sell_amount (ri_data r)\<rparr>], ii_use_transfer_checked = False\<rparr>) (settle_order C ctx intents))"
    by (simp only: client_begin_settle_orders fields initialized_intents_map sort_key_map) simp
  have "map so_order_pda (begin_settle_orders ?P ?b) =
      map (\<lambda>r. client_order_address ?P (cx_program_id ctx) (ri_data r)) (settle_order C ctx intents)"
    "map (\<lambda>so. (so_sell_token_account so, so_destinations so, map from_le (so_amounts so))) (begin_settle_orders ?P ?b) =
      map (cli_pull C ctx) (settle_order C ctx intents)"
    by (simp_all add: orders client_settled_order_def cli_pull_def comp_def)
  then show ?thesis
    unfolding ix
    by (intro exI [of _ "begin_settle_input ?P ?b"] exI [of _ "begin_settle_orders ?P ?b"])
      (simp add: begin_settle_codec.parse_build [OF wf] begin_settle_input_iter [OF wf],
       simp add: begin_settle_input_def client_begin_settle_builder_def fields)
qed

lemma settle_finalize_parses:
  fixes C ctx intents i j
  defines "f \<equiv> snd (settle_builders C ctx intents i j)"
  shows "\<exists>input.
    instruction_parse FinalizeSettle finalize_settle_parse_body (ix_data (client_finalize_settle (cl_platform C) f))
      (instruction_addresses (client_finalize_settle (cl_platform C) f)) = Inr input \<and>
    fsi_begin_ix_index input = i \<and>
    map (\<lambda>p. (pu_source_buffer p, pu_destination p, pu_amount p)) (pushes_iter (fsi_pushes input)) =
      map (cli_push C ctx) (settle_order C ctx intents)"
proof -
  let ?P = "cl_platform C"
  let ?pushes = "map (\<lambda>o1. finalized_intent_push ?P o1 (cx_program_id ctx))
    (sort_key (\<lambda>o1. client_order_address ?P (cx_program_id ctx) (fi_intent o1)) (finalized_intents intents))"
  let ?f = "pushes_builder ?P (cx_program_id ctx) i None ?pushes"
  have ix: "client_finalize_settle ?P f = finalize_settle_instruction ?P ?f"
    by (simp add: f_def settle_builders_def client_finalize_settle_def instruction_from_pushes_def)
  have push: "(op_source_buffer (finalized_intent_push ?P \<lparr>fi_intent = ri_data r, fi_amount = oi_buy_amount (ri_data r),
        fi_use_transfer_checked = False\<rparr> (cx_program_id ctx)),
      op_destination (finalized_intent_push ?P \<lparr>fi_intent = ri_data r, fi_amount = oi_buy_amount (ri_data r),
        fi_use_transfer_checked = False\<rparr> (cx_program_id ctx)),
      op_amount (finalized_intent_push ?P \<lparr>fi_intent = ri_data r, fi_amount = oi_buy_amount (ri_data r),
        fi_use_transfer_checked = False\<rparr> (cx_program_id ctx))) = cli_push C ctx r" for r
    by (cases "oi_buy (ri_data r)") (simp_all add: finalized_intent_push_def cli_push_def Let_def case_prod_beta)
  have "map (\<lambda>p. (pu_source_buffer p, pu_destination p, pu_amount p))
      (pushes_iter (fsi_pushes (finalize_settle_input ?P ?f))) = map (cli_push C ctx) (settle_order C ctx intents)"
    by (simp add: pushes_builder_iter finalized_intents_def sort_key_map comp_def push)
  then show ?thesis
    unfolding ix
    by (intro exI [of _ "finalize_settle_input ?P ?f"])
      (simp add: finalize_settle_codec.parse_build [OF pushes_builder_wf],
       simp add: finalize_settle_input_def pushes_builder_def)
qed

lemma settle_instructions_Inr:
  assumes "settle_instructions C w ctx intents = Inr ixs"
  obtains setup_ixs begin_ix where "prepare_setup_ixs C w ctx intents = Inr setup_ixs"
    and "length setup_ixs + 1 < 2 ^ 16"
    and "client_begin_settle (cl_platform C)
      (fst (settle_builders C ctx intents (of_nat (length setup_ixs)) (of_nat (length setup_ixs + 1)))) = Inr begin_ix"
    and "ixs = setup_ixs @ [begin_ix, client_finalize_settle (cl_platform C)
      (snd (settle_builders C ctx intents (of_nat (length setup_ixs)) (of_nat (length setup_ixs + 1))))]"
  using assms that
  by (auto simp: settle_instructions_def bindE_Inr_iff map_err_Inr_iff Let_def case_prod_beta split: if_splits)

lemma client_begin_settle_total:
  "\<exists>ix. client_begin_settle (cl_platform C) (fst (settle_builders C ctx intents i j)) = Inr ix"
  by (simp add: client_begin_settle_def begin_settle_instruction_def client_begin_settle_builder_def settle_builders_def)

lemma client_begin_settle_data:
  assumes "client_begin_settle P b = Inr ix"
  shows "ix_program_id ix = cbs_program_id b \<and>
    (\<exists>body. ix_data ix = ix_discriminator BeginSettle # to_le 2 (cbs_finalize_ix_index b) @ body)"
  using assms
  by (auto simp: client_begin_settle_def begin_settle_instruction_def bindE_Inr_iff begin_settle_layout_def
      client_begin_settle_builder_def Let_def)

lemma client_finalize_settle_data:
  "ix_program_id (client_finalize_settle P f) = cfs_program_id f \<and>
    (\<exists>body. ix_data (client_finalize_settle P f) = ix_discriminator FinalizeSettle # to_le 2 (cfs_begin_ix_index f) @ body)"
  by (simp add: client_finalize_settle_def instruction_from_pushes_def finalize_settle_instruction_def pushes_builder_def Let_def)

lemma settle_pairing:
  assumes len: "length setup_ixs + 1 < 2 ^ 16"
    and built: "client_begin_settle P b = Inr begin_ix"
    and b: "cbs_program_id b = prog" "cbs_finalize_ix_index b = of_nat (length setup_ixs + 1)"
    and f: "cfs_program_id f = prog" "cfs_begin_ix_index f = of_nat (length setup_ixs)"
  shows "let ixs = setup_ixs @ [begin_ix, client_finalize_settle P f];
      i = of_nat (length setup_ixs); j = of_nat (length setup_ixs + 1) in
    validate_counterpart prog ixs i j FinalizeSettle = Inr () \<and>
    validate_counterpart prog ixs j i BeginSettle = Inr () \<and>
    validate_no_nested_settlement prog ixs i j = Inr ()"
proof -
  let ?i = "of_nat (length setup_ixs) :: u16" and ?j = "of_nat (length setup_ixs + 1) :: u16"
  have at: "unat ?i = length setup_ixs" "unat ?j = length setup_ixs + 1"
    using len by (simp_all add: unat_of_nat_fits(2) del: of_nat_Suc of_nat_add)
  then have order: "\<not> ?j \<le> ?i" by (simp only: word_le_nat_alt)
  have "checked_add ?i 1 = Some ?j" using at by (simp only: checked_add_Some_iff) simp
  then have nested: "validate_no_nested_settlement prog ixs ?i ?j = Inr ()" for ixs
    using order at by (simp add: validate_no_nested_settlement_def del: of_nat_Suc of_nat_add)
  show ?thesis
    using client_begin_settle_data [OF built] client_finalize_settle_data [of P f] at b f nested
    unfolding Let_def validate_counterpart_Inr_iff by (auto simp: nth_append simp del: of_nat_Suc of_nat_add)
qed

section \<open>Properties\<close>

text \<open>
  C38: \<open>cow settle\<close> builds a settlement exactly when it funds itself: for every mint, the orders
  together sell into its buffer at least what is pushed out of it, as exact sums, and the sums fit
  a \<open>u64\<close>. It never relies on what the buffers held before.
\<close>

theorem cli_settlement_self_funding:
  assumes "iteration_spec C"
  shows "(\<exists>setup_ixs. prepare_setup_ixs C w ctx intents = Inr setup_ixs) \<longleftrightarrow>
    (\<forall>mint.
      sum_list (map (\<lambda>r. unat (oi_buy_amount (ri_data r))) (filter (\<lambda>r. ti_mint (ri_buy r) = mint) intents)) \<le>
      sum_list (map (\<lambda>r. unat (oi_sell_amount (ri_data r))) (filter (\<lambda>r. ti_mint (ri_sell r) = mint) intents)) \<and>
      sum_list (map (\<lambda>r. unat (oi_sell_amount (ri_data r))) (filter (\<lambda>r. ti_mint (ri_sell r) = mint) intents)) < 2 ^ 64)"
  using prepare_setup_succeeds_iff [OF assms, of w ctx intents]
  by (simp add: sold_def bought_def sum_list_map_filter' eq_commute [of _ "ti_mint _"])

text \<open>
  C23: in the transaction \<open>cow settle\<close> builds for up to 255 orders, the setup creates exactly the
  missing buffers of the traded mints, and the last two instructions pass the program's pairing
  checks against each other. The program reads from them the orders sorted by address: from each
  one its full sell amount is pulled into the buffer of its sell mint, and exactly its buy amount
  is pushed out of the buffer of its buy mint to its buy account.
\<close>

theorem cli_settlement_transaction:
  assumes "iteration_spec C" and "settle_instructions C w ctx intents = Inr ixs" and "length intents < 256"
  shows "\<exists>setup_ixs begin_ix finalize_ix begin_input finalize_input orders.
    ixs = setup_ixs @ [begin_ix, finalize_ix] \<and>
    (let i = of_nat (length setup_ixs); j = of_nat (length setup_ixs + 1); prog = cx_program_id ctx;
         sorted = settle_order C ctx intents in
     set (concat (map created_pairs setup_ixs)) =
       (\<lambda>m. [fst (find_buffer_pda (cl_platform C) prog m), m]) ` {m \<in> traded_mints intents. buffer_missing C w ctx m} \<and>
     validate_counterpart prog ixs i j FinalizeSettle = Inr () \<and>
     validate_counterpart prog ixs j i BeginSettle = Inr () \<and>
     validate_no_nested_settlement prog ixs i j = Inr () \<and>
     instruction_parse BeginSettle begin_settle_parse_body (ix_data begin_ix) (instruction_addresses begin_ix) = Inr begin_input \<and>
     bsi_finalize_ix_index begin_input = j \<and> bsi_solver_account begin_input = ctx_payer ctx \<and>
     settled_orders_iter (bsi_orders begin_input) = map Inr orders \<and>
     map so_order_pda orders = map (\<lambda>r. client_order_address (cl_platform C) prog (ri_data r)) sorted \<and>
     map (\<lambda>so. (so_sell_token_account so, so_destinations so, map from_le (so_amounts so))) orders =
       map (cli_pull C ctx) sorted \<and>
     instruction_parse FinalizeSettle finalize_settle_parse_body (ix_data finalize_ix) (instruction_addresses finalize_ix) =
       Inr finalize_input \<and>
     fsi_begin_ix_index finalize_input = i \<and>
     map (\<lambda>p. (pu_source_buffer p, pu_destination p, pu_amount p)) (pushes_iter (fsi_pushes finalize_input)) =
       map (cli_push C ctx) sorted)"
proof -
  from assms(2) obtain setup_ixs begin_ix where prepared: "prepare_setup_ixs C w ctx intents = Inr setup_ixs"
    and len: "length setup_ixs + 1 < 2 ^ 16"
    and built: "client_begin_settle (cl_platform C)
      (fst (settle_builders C ctx intents (of_nat (length setup_ixs)) (of_nat (length setup_ixs + 1)))) = Inr begin_ix"
    and ixs: "ixs = setup_ixs @ [begin_ix, client_finalize_settle (cl_platform C)
      (snd (settle_builders C ctx intents (of_nat (length setup_ixs)) (of_nat (length setup_ixs + 1))))]"
    by (rule settle_instructions_Inr)
  let ?f = "snd (settle_builders C ctx intents (of_nat (length setup_ixs)) (of_nat (length setup_ixs + 1)))"
  have pairing: "let ixs = setup_ixs @ [begin_ix, client_finalize_settle (cl_platform C) ?f];
      i = of_nat (length setup_ixs); j = of_nat (length setup_ixs + 1) in
    validate_counterpart (cx_program_id ctx) ixs i j FinalizeSettle = Inr () \<and>
    validate_counterpart (cx_program_id ctx) ixs j i BeginSettle = Inr () \<and>
    validate_no_nested_settlement (cx_program_id ctx) ixs i j = Inr ()"
    by (rule settle_pairing [OF len built]) (simp_all add: settle_builders_def)
  from settle_begin_parses [OF assms(3) built] obtain begin_input orders where
    "instruction_parse BeginSettle begin_settle_parse_body (ix_data begin_ix) (instruction_addresses begin_ix) = Inr begin_input"
    "bsi_finalize_ix_index begin_input = of_nat (length setup_ixs + 1)" "bsi_solver_account begin_input = ctx_payer ctx"
    "settled_orders_iter (bsi_orders begin_input) = map Inr orders"
    "map so_order_pda orders =
      map (\<lambda>r. client_order_address (cl_platform C) (cx_program_id ctx) (ri_data r)) (settle_order C ctx intents)"
    "map (\<lambda>so. (so_sell_token_account so, so_destinations so, map from_le (so_amounts so))) orders =
      map (cli_pull C ctx) (settle_order C ctx intents)"
    by blast
  moreover from settle_finalize_parses [of C ctx intents "of_nat (length setup_ixs)" "of_nat (length setup_ixs + 1)"]
  obtain finalize_input where
    "instruction_parse FinalizeSettle finalize_settle_parse_body (ix_data (client_finalize_settle (cl_platform C) ?f))
      (instruction_addresses (client_finalize_settle (cl_platform C) ?f)) = Inr finalize_input"
    "fsi_begin_ix_index finalize_input = of_nat (length setup_ixs)"
    "map (\<lambda>p. (pu_source_buffer p, pu_destination p, pu_amount p)) (pushes_iter (fsi_pushes finalize_input)) =
      map (cli_push C ctx) (settle_order C ctx intents)"
    by blast
  ultimately show ?thesis
    using pairing setup_creates_missing [OF assms(1) prepared] unfolding Let_def ixs by blast
qed

end
