(* ===== verification/CliMain.thy ===== *)
theory CliMain
  imports CliSettle
begin

text \<open>
  The tool as a whole (\<open>test-cli/src/main.rs\<close> and the \<open>mod.rs\<close> of the command groups): the context is
  read from the global arguments, then one command runs. The lemmas show that every command
  changes the chain by at most one submission, so that with a multisig configured no command sends
  anything but a proposal to it.
\<close>

section \<open>The commands\<close>

datatype SolverCommand =
    SolverAdd pubkey "KeypairArg option"
  | SolverRemove pubkey "KeypairArg option" "pubkey option"
  | SolverList

datatype AuthorityCommand = AuthorityTransfer Role pubkey "KeypairArg option" | AuthorityList

datatype BufferCommand =
    BufferCreate "pubkey list"
  | BufferReclaim pubkey "BufferArg list" "KeypairArg option"

datatype Commands =
    InitializeCommand InitializeArgs
  | SellCommand "string list" CommonArgs
  | BuyCommand "string list" CommonArgs
  | SettleCommand "OrderArg list" bool
  | ReclaimCommand "OrderArg list"
  | BufferCommands BufferCommand
  | SolverCommands SolverCommand
  | AuthorityCommands AuthorityCommand

text \<open>A command that only lists prints its lines and leaves the chain as it is.\<close>

definition listing :: "string list cli_result \<Rightarrow> 'w \<Rightarrow> 'w outcome" where
  "listing r w = (case r of Inl e \<Rightarrow> fail e w | Inr lines \<Rightarrow> (lines, Inr (), w))"

text \<open>\<open>interactive\<close> tells whether standard output is a terminal.\<close>

definition solver_run :: "'w cli \<Rightarrow> Context \<Rightarrow> SolverCommand \<Rightarrow> bool \<Rightarrow> 'w \<Rightarrow> 'w outcome" where
  "solver_run C ctx command interactive w =
     (case command of
        SolverAdd solver authority \<Rightarrow> solver_add_run C ctx solver authority w
      | SolverRemove solver authority recipient \<Rightarrow> solver_remove_run C ctx solver authority recipient w
      | SolverList \<Rightarrow> listing (solver_list_run C ctx interactive w) w)"

definition authority_run :: "'w cli \<Rightarrow> Context \<Rightarrow> AuthorityCommand \<Rightarrow> 'w \<Rightarrow> 'w outcome" where
  "authority_run C ctx command w =
     (case command of
        AuthorityTransfer role new_authority signer \<Rightarrow> authority_transfer_run C ctx role new_authority signer w
      | AuthorityList \<Rightarrow> listing (authority_list_run C ctx w) w)"

definition buffer_run :: "'w cli \<Rightarrow> Context \<Rightarrow> BufferCommand \<Rightarrow> 'w \<Rightarrow> 'w outcome" where
  "buffer_run C ctx command w =
     (case command of
        BufferCreate mints \<Rightarrow> buffer_create_run C ctx mints w
      | BufferReclaim receiver buffers authority \<Rightarrow> buffer_reclaim_run C ctx receiver buffers authority w)"

definition run_command :: "'w cli \<Rightarrow> Context \<Rightarrow> Commands \<Rightarrow> bool \<Rightarrow> 'w \<Rightarrow> 'w outcome" where
  "run_command C ctx command interactive w =
     (case command of
        InitializeCommand args \<Rightarrow> initialize_run C ctx args w
      | SellCommand terms common \<Rightarrow> run_order C ctx Sell terms common w
      | BuyCommand terms common \<Rightarrow> run_order C ctx Buy terms common w
      | SettleCommand orders dry_run \<Rightarrow> settle_run C ctx orders dry_run w
      | ReclaimCommand orders \<Rightarrow> reclaim_run C ctx orders w
      | BufferCommands command \<Rightarrow> buffer_run C ctx command w
      | SolverCommands command \<Rightarrow> solver_run C ctx command interactive w
      | AuthorityCommands command \<Rightarrow> authority_run C ctx command w)"

definition cli_main :: "'w cli \<Rightarrow> Cli \<Rightarrow> Commands \<Rightarrow> bool \<Rightarrow> 'w \<Rightarrow> 'w outcome" where
  "cli_main C args command interactive w =
     (case context_from_args C w args of
        Inl e \<Rightarrow> fail e w
      | Inr ctx \<Rightarrow> run_command C ctx command interactive w)"

section \<open>One submission at most\<close>

definition chain_after :: "'w outcome \<Rightarrow> 'w" where
  "chain_after r = snd (snd r)"

text \<open>The chains a command can end in: the one it started from, or that after one submission.\<close>

definition submits_once :: "'w cli \<Rightarrow> Context \<Rightarrow> 'w \<Rightarrow> 'w \<Rightarrow> bool" where
  "submits_once C ctx w w' \<longleftrightarrow> w' = w \<or> (\<exists>ixs signers. w' = snd (submit C ctx ixs signers w))"

lemma submits_once_refl [simp]: "submits_once C ctx w w"
  by (simp add: submits_once_def)

lemma submits_once_submit: "submit C ctx ixs signers w = (r, w') \<Longrightarrow> submits_once C ctx w w'"
  unfolding submits_once_def by (metis snd_conv)

lemma chain_after_simps [simp]:
  "chain_after (fail e w) = w" "chain_after (print_rows rows w) = w" "chain_after (finish r f) = snd r"
  "chain_after (listing ls w) = w" "chain_after (print_settlement_summary C outcome intents res w) = w"
  "chain_after (lines, res, w) = w"
  by (simp_all add: chain_after_def fail_def print_rows_def finish_def listing_def print_settlement_summary_def
      split: sum.split prod.split)

lemma submits_once_finish: "submits_once C ctx w (chain_after (finish (submit C ctx ixs signers w) rows))"
  unfolding chain_after_simps submits_once_def by blast

text \<open>By cases: a command that fails before submitting, or that ends with a submission.\<close>

lemmas submits_once_intros = submits_once_refl submits_once_finish submits_once_submit

lemma small_runs_submit_once:
  "submits_once C ctx w (chain_after (initialize_run C ctx args w))"
  "submits_once C ctx w (chain_after (solver_run C ctx scommand interactive w))"
  "submits_once C ctx w (chain_after (authority_run C ctx acommand w))"
  by (auto simp: initialize_run_def solver_run_def solver_add_run_def solver_remove_run_def authority_run_def
      authority_transfer_run_def Let_def intro: submits_once_intros simp del: chain_after_simps(3)
      split: option.split sum.split SolverCommand.split AuthorityCommand.split)

lemma order_run_submits_once: "submits_once C ctx w (chain_after (run_order C ctx kind terms common w))"
  by (auto simp: run_order_def order_execute_def Let_def intro: submits_once_intros simp del: chain_after_simps(3)
      split: sum.split)

lemma reclaim_run_submits_once: "submits_once C ctx w (chain_after (reclaim_run C ctx args w))"
  by (auto simp: reclaim_run_def intro: submits_once_intros split: sum.split prod.split list.split)

lemma buffer_run_submits_once: "submits_once C ctx w (chain_after (buffer_run C ctx command w))"
  by (auto simp: buffer_run_def buffer_create_run_def buffer_reclaim_run_def Let_def intro: submits_once_intros
      simp del: chain_after_simps(3) split: sum.split prod.split option.split Submission.split BufferCommand.split)

lemma settle_run_submits_once: "submits_once C ctx w (chain_after (settle_run C ctx orders dry_run w))"
  by (auto simp: settle_run_def settle_dry_run_def settle_submit_def intro: submits_once_intros
      split: sum.split prod.split option.split Submission.split)

lemma run_command_submits_once: "submits_once C ctx w (chain_after (run_command C ctx command interactive w))"
  by (cases command)
    (simp_all add: run_command_def small_runs_submit_once order_run_submits_once reclaim_run_submits_once
      buffer_run_submits_once settle_run_submits_once)

section \<open>What a submission can send\<close>

lemma send_chain:
  "snd (send C ctx ixs signers w) = w \<or>
    (\<exists>blockhash. cl_latest_blockhash C w = Some blockhash \<and>
      snd (send C ctx ixs signers w) = snd (cl_send_and_confirm C w
        \<lparr>tx_instructions = ixs, tx_fee_payer = cx_signer ctx, tx_signers = signers, tx_blockhash = blockhash\<rparr>))"
  by (auto simp: send_def Let_def split: option.split prod.split)

text \<open>The instructions and keypairs of the transaction a submission may send.\<close>

definition submittable :: "Context \<Rightarrow> instruction list \<Rightarrow> pubkey list \<Rightarrow> bool" where
  "submittable ctx ixs signers \<longleftrightarrow>
     (cx_squads ctx \<noteq> None \<longrightarrow> signers = [cx_signer ctx] \<and>
       (\<forall>ix \<in> set ixs. ix_program_id ix = SQUADS_MULTISIG_PROGRAM_ID \<and> ix_signers ix = {cx_signer ctx}))"

lemma submit_chain:
  "snd (submit C ctx ixs signers w) = w \<or>
    (\<exists>ixs' signers'. submittable ctx ixs' signers' \<and>
      snd (submit C ctx ixs signers w) = snd (send C ctx ixs' signers' w))"
proof (cases "cx_squads ctx")
  case None
  then have "snd (submit C ctx ixs signers w) = snd (send C ctx ixs (cx_signer ctx #
      concat (map (\<lambda>s. case s of TxKeypair k \<Rightarrow> [k] | TxVault _ \<Rightarrow> []) signers)) w)"
    by (simp add: submit_def Let_def split: prod.split)
  then show ?thesis using None unfolding submittable_def by blast
next
  case (Some squads)
  show ?thesis
  proof (cases "\<exists>s \<in> set signers. tx_signer_pubkey s \<noteq> sv_vault squads")
    case True
    then show ?thesis by (simp add: submit_def Some)
  next
    case False
    show ?thesis
    proof (cases "bindE (multisig_fetch C w (sv_multisig squads))
        (\<lambda>m. propose C m (cx_signer ctx) (sv_vault_index squads) ixs)")
      case (Inl e)
      with False show ?thesis by (simp add: submit_def Some)
    next
      case (Inr p)
      then obtain m where "propose C m (cx_signer ctx) (sv_vault_index squads) ixs = Inr p"
        by (auto simp: bindE_Inr_iff)
      then have "submittable ctx (pp_instructions p) [cx_signer ctx]"
        unfolding submittable_def using propose_signers by blast
      moreover have "snd (submit C ctx ixs signers w) = snd (send C ctx (pp_instructions p) [cx_signer ctx] w)"
        using False Inr by (auto simp: submit_def Some split: prod.split)
      ultimately show ?thesis by blast
    qed
  qed
qed

lemma context_squads:
  "context_from_args C w args = Inr ctx \<Longrightarrow>
    cl_read_keypair C (cli_keypair args) = Some (cx_signer ctx) \<and>
    (cx_squads ctx \<noteq> None \<longleftrightarrow> cli_squads_multisig args \<noteq> None)"
  by (auto simp: context_from_args_def bindE_Inr_iff ok_or_Inr_iff Let_def split: option.splits)

section \<open>Properties\<close>

text \<open>
  C22: a run of the tool, whatever the command, either leaves the chain as it is or sends a single
  transaction, paid for by the local keypair. With \<open>--squads-multisig\<close> that transaction is signed by
  the local keypair alone and consists of instructions of the multisig program that ask for no
  other signature: no command bypasses the multisig.
\<close>

theorem cli_sends_one_transaction:
  assumes "cli_main C args command interactive w = (lines, res, w')" and "w' \<noteq> w"
  shows "\<exists>tx. w' = snd (cl_send_and_confirm C w tx) \<and>
    cl_read_keypair C (cli_keypair args) = Some (tx_fee_payer tx) \<and>
    (cli_squads_multisig args \<noteq> None \<longrightarrow>
       tx_signers tx = [tx_fee_payer tx] \<and>
       (\<forall>ix \<in> set (tx_instructions tx).
          ix_program_id ix = SQUADS_MULTISIG_PROGRAM_ID \<and> ix_signers ix = {tx_fee_payer tx}))"
proof (cases "context_from_args C w args")
  case (Inl e)
  with assms show ?thesis by (simp add: cli_main_def fail_def)
next
  case ctx: (Inr ctx)
  with assms(1) have "chain_after (run_command C ctx command interactive w) = w'"
    by (simp add: cli_main_def chain_after_def)
  with run_command_submits_once [of C ctx w command interactive] assms(2)
  obtain ixs signers where "w' = snd (submit C ctx ixs signers w)" by (auto simp: submits_once_def)
  with submit_chain [of C ctx ixs signers w] assms(2) obtain ixs' signers'
    where sent: "submittable ctx ixs' signers'" "w' = snd (send C ctx ixs' signers' w)" by auto
  with send_chain [of C ctx ixs' signers' w] assms(2) obtain blockhash where
    "w' = snd (cl_send_and_confirm C w
      \<lparr>tx_instructions = ixs', tx_fee_payer = cx_signer ctx, tx_signers = signers', tx_blockhash = blockhash\<rparr>)" by auto
  then show ?thesis
    using sent(1) context_squads [OF ctx] unfolding submittable_def
    by (intro exI [of _ "\<lparr>tx_instructions = ixs', tx_fee_payer = cx_signer ctx, tx_signers = signers',
      tx_blockhash = blockhash\<rparr>"]) simp
qed

end
