(* ===== verification/CliWitnesses.thy ===== *)
theory CliWitnesses
  imports CliMain Scenario
begin

text \<open>
  A concrete node and wallet for the command line tool, on the platform of the run: two mints with
  a token account each, one of their two buffers, and a multisig with one member. The properties
  of the tool are applied to it, which shows that their hypotheses hold together.
\<close>

section \<open>A node\<close>

definition toy_show :: "pubkey \<Rightarrow> string" where
  "toy_show k = map (\<lambda>b. char_of (unat b)) (to_bytes k)"

definition toy_read :: "string \<Rightarrow> pubkey option" where
  "toy_read s = (if length s = 32 then Some (new_from_array (map (\<lambda>c. of_nat (of_char c)) s)) else None)"

abbreviation mint_a :: pubkey where "mint_a \<equiv> addr 5"
abbreviation mint_b :: pubkey where "mint_b \<equiv> addr 6"

definition token_data :: "pubkey \<Rightarrow> u64 \<Rightarrow> bytes" where
  "token_data mint amount = to_bytes mint @ to_le 8 amount"

abbreviation token_owned :: "bytes \<Rightarrow> account" where
  "token_owned d \<equiv> \<lparr>acc_owner = spl_token, acc_lamports = 10, acc_data = d\<rparr>"

definition node :: "pubkey \<Rightarrow> account option" where
  "node k =
     (if k = mint_a \<or> k = mint_b then Some (token_owned [6])
      else if k = addr 21 \<or> k = addr 105 then Some (token_owned (token_data mint_a 3))
      else if k = addr 22 then Some (token_owned (token_data mint_b 3))
      else if k = addr 50 then
        Some \<lparr>acc_owner = SQUADS_MULTISIG_PROGRAM_ID, acc_lamports = 10, acc_data = MULTISIG_DISCRIMINATOR\<rparr>
      else None)"

definition toy_ix :: "u8 \<Rightarrow> instruction" where
  "toy_ix b = \<lparr>ix_program_id = spl_token, ix_accounts = [], ix_data = [b]\<rparr>"

abbreviation toy_account :: MultisigAccount where
  "toy_account \<equiv> \<lparr>ma_discriminator = MULTISIG_DISCRIMINATOR, ma_create_key = addr 1, ma_config_authority = addr 0,
     ma_threshold = 1, ma_time_lock = 0, ma_transaction_index = 7, ma_stale_transaction_index = 0,
     ma_rent_collector = None, ma_bump = 255, ma_members = [\<lparr>mb_key = addr 40, mb_mask = 1\<rparr>]\<rparr>"

definition toy_cli :: "nat cli" where
  "toy_cli =
    \<lparr>cl_platform = toy, cl_pubkey_from_str = toy_read, cl_pubkey_to_string = toy_show,
     cl_signature_to_string = (\<lambda>_. ''sig''), cl_error_to_string = (\<lambda>_. ''error''),
     cl_debug_settlement_error = (\<lambda>_. ''settlement error''), cl_unicode_uppercase = (\<lambda>s. s), cl_now = 100,
     cl_read_keypair = (\<lambda>_. Some (addr 40)), cl_get_account = (\<lambda>_. node),
     cl_get_account_data = (\<lambda>_ k. map_option acc_data (node k)),
     cl_get_multiple_accounts = (\<lambda>_ ks. Some (map node ks)), cl_genesis_hash = (\<lambda>_. None),
     cl_latest_blockhash = (\<lambda>_. Some (addr 60)), cl_signable = (\<lambda>_. True),
     cl_send_and_confirm = (\<lambda>w _. (Inr [1], w + 1)), cl_simulate = (\<lambda>_ _ _. None),
     cl_transaction_units = (\<lambda>_ _. None),
     cl_unpack_token_account = (\<lambda>d. if length d = 40 then Some (new_from_array (take 32 d), from_le (drop 32 d)) else None),
     cl_unpack_mint = (\<lambda>d. if length d = 1 then Some (hd d) else None), cl_native_mint = addr 7,
     cl_associated_token_address = (\<lambda>_ mint _. addr (hd (to_bytes mint) + 16)),
     cl_create_ata_idempotent = (\<lambda>_ _ _ _. toy_ix 1), cl_system_transfer = (\<lambda>_ _ _. toy_ix 2),
     cl_sync_native = (\<lambda>_ _. Some (toy_ix 3)), cl_approve = (\<lambda>_ _ _ _ _. Some (toy_ix 4)),
     cl_ui_amount = (\<lambda>s _. Some (of_nat (length s))),
     cl_message_new = (\<lambda>_ payer. \<lparr>msg_num_required_signatures = 1, msg_num_readonly_signed = 0,
       msg_num_readonly_unsigned = 0, msg_account_keys = [payer], msg_instructions = []\<rparr>),
     cl_borsh_multisig = (\<lambda>_. Some toy_account),
     cl_borsh_vault_transaction_create = (\<lambda>_ _ m _. m), cl_borsh_proposal_create = (\<lambda>_ _. []),
     cl_borsh_proposal_approve = (\<lambda>_. []),
     cl_order_tally = (\<lambda>xs. xs), cl_order_groups = rev, cl_order_mints = (\<lambda>xs. xs), cl_order_buffers = rev\<rparr>"

abbreviation desk :: Context where
  "desk \<equiv> \<lparr>cx_signer = addr 40, cx_program_id = program, cx_squads = None\<rparr>"

abbreviation shared_desk :: Context where
  "shared_desk \<equiv> \<lparr>cx_signer = addr 40, cx_program_id = program,
     cx_squads = Some \<lparr>sv_multisig = addr 50, sv_vault_index = 0, sv_vault = addr 150\<rparr>\<rparr>"

lemma toy_read_show: "toy_read (toy_show k) = Some k"
  by (simp add: toy_read_def toy_show_def comp_def unat_u8_lt)

lemma toy_base58: "base58_spec toy_cli"
  using toy_read_show by (auto simp: base58_spec_def toy_cli_def) (auto simp: toy_read_def toy_show_def split: if_splits)

lemma toy_iteration: "iteration_spec toy_cli"
  by (simp add: iteration_spec_def toy_cli_def)

lemma toy_unpack [simp]: "cl_unpack_token_account toy_cli (token_data mint amount) = Some (mint, amount)"
  by (simp add: toy_cli_def token_data_def)

lemma toy_platform [simp]: "cl_platform toy_cli = toy"
  by (simp add: toy_cli_def)

section \<open>Arguments\<close>

lemma show_digits: "show_digit 0 = CHR ''0''" "show_digit 7 = CHR ''7''"
  by code_simp+

lemma hex_addr: "hex_of_hash (addr 7) = concat (replicate 32 ''07'')"
  by (simp add: hex_of_hash_def hex_byte_def show_digits)

theorem order_arg_roundtrip_witness:
  "base58_spec toy_cli \<and>
   order_arg_from_str toy_cli (order_arg_display toy_cli (OrderUid (addr 7))) = Inr (OrderUid (addr 7)) \<and>
   order_arg_display toy_cli (OrderUid (addr 7)) = map ascii_lower (concat (replicate 32 ''07''))"
proof -
  have parses: "order_arg_from_str toy_cli (hex_of_hash (addr 7)) = Inr (OrderUid (addr 7))"
    using order_arg_roundtrip [OF toy_base58, of "OrderUid (addr 7)"] by simp
  moreover have "CHR ''+'' \<notin> set (hex_of_hash (addr 7))" by (simp add: hex_addr)
  ultimately show ?thesis
    using order_arg_roundtrip [OF toy_base58, of "OrderUid (addr 7)" "hex_of_hash (addr 7)" "addr 7"] toy_base58
    by (simp add: hex_addr)
qed

section \<open>The multisig\<close>

abbreviation toy_message :: message where
  "toy_message \<equiv> \<lparr>msg_num_required_signatures = 1, msg_num_readonly_signed = 0, msg_num_readonly_unsigned = 0,
     msg_account_keys = [addr 150], msg_instructions = []\<rparr>"

lemma toy_message_encodes: "transaction_message toy_message = Inr ([1, 1, 0, 1] @ to_bytes (addr 150) @ [0, 0])"
  by (simp add: transaction_message_def usize_checked_sub_def checked_sub_def len_u8_def Let_def del: to_bytes_fill32)

theorem squads_message_determined_witness:
  "transaction_message toy_message = Inr ([1, 1, 0, 1] @ to_bytes (addr 150) @ [0, 0]) \<and>
   transaction_message (toy_message\<lparr>msg_account_keys := [addr 52]\<rparr>) \<noteq> Inr ([1, 1, 0, 1] @ to_bytes (addr 150) @ [0, 0])"
  using squads_message_determined [OF toy_message_encodes, of "toy_message\<lparr>msg_account_keys := [addr 52]\<rparr>"]
    toy_message_encodes by (simp del: to_bytes_fill32)

abbreviation toy_multisig :: Multisig where
  "toy_multisig \<equiv> \<lparr>ms_address = addr 50,
     ms_account = toy_account\<rparr>"

lemma toy_multisig_addresses [simp]:
  "multisig_vault toy_cli toy_multisig i = addr 150"
  "multisig_transaction toy_cli toy_multisig n = addr 150"
  "multisig_proposal toy_cli toy_multisig n = addr 150"
  by (simp_all add: multisig_vault_def multisig_transaction_def multisig_proposal_def squads_find_pda_def
      toy_at_def toy_find_def)

lemma toy_message_new [simp]: "cl_message_new toy_cli ixs (addr 150) = toy_message"
  by (simp add: toy_cli_def)

lemma toy_multisig_fetch: "multisig_fetch toy_cli 0 (addr 50) = Inr toy_multisig"
  by (simp add: multisig_fetch_def multisig_decode_def squads_decode_def toy_cli_def node_def
      MULTISIG_DISCRIMINATOR_def)

lemma toy_submission:
  assumes "set signers \<subseteq> {TxVault (addr 150)}"
  shows "submit toy_cli shared_desk ixs signers 0 =
    (Inr (ProposedTx \<lparr>pd_signature = [1], pd_multisig = addr 50, pd_vault = addr 150, pd_transaction_index = 8,
       pd_transaction = addr 150, pd_proposal = addr 150, pd_approved = False\<rparr>), 1)"
proof -
  have "member_permissions toy_multisig (addr 40) = Inr 1" by (simp add: member_permissions_def)
  moreover have "(1 :: u8) AND PERMISSION_INITIATE \<noteq> 0" "(1 :: u8) AND PERMISSION_VOTE = 0"
    by (simp_all add: PERMISSION_INITIATE_def PERMISSION_VOTE_def)
  moreover have "checked_add (7 :: u64) 1 = Some 8" by (simp add: checked_add_Some_iff)
  moreover have "send toy_cli shared_desk ixs' [addr 40] 0 = (Inr [1], 1)" for ixs'
    by (simp add: send_def toy_cli_def Let_def)
  moreover have "\<not> (\<exists>s \<in> set signers. tx_signer_pubkey s \<noteq> addr 150)" using assms by auto
  ultimately show ?thesis
    by (simp add: submit_def toy_multisig_fetch propose_def toy_message_encodes Let_def del: to_bytes_fill32)
qed

theorem squads_submission_only_proposes_witness:
  "\<exists>p sig. propose toy_cli toy_multisig (addr 40) 0 [toy_ix 9] = Inr p \<and>
     (\<forall>ix \<in> set (pp_instructions p). ix_program_id ix = SQUADS_MULTISIG_PROGRAM_ID \<and> ix_signers ix = {addr 40}) \<and>
     unat (pp_transaction_index p) = 8 \<and> \<not> pp_approved p \<and>
     submit toy_cli shared_desk [toy_ix 9] [] 0 =
       (Inr (ProposedTx \<lparr>pd_signature = sig, pd_multisig = addr 50, pd_vault = addr 150,
          pd_transaction_index = pp_transaction_index p, pd_transaction = pp_transaction p,
          pd_proposal = pp_proposal p, pd_approved = pp_approved p\<rparr>), 1)"
proof -
  from squads_submission_only_proposes [OF _ toy_submission [of "[]" "[toy_ix 9]"]] obtain m p sig where
    m: "multisig_fetch toy_cli 0 (addr 50) = Inr m"
    and p: "propose toy_cli m (addr 40) 0 [toy_ix 9] = Inr p"
      "\<forall>ix \<in> set (pp_instructions p). ix_program_id ix = SQUADS_MULTISIG_PROGRAM_ID \<and> ix_signers ix = {addr 40}"
      "unat (pp_transaction_index p) = unat (ma_transaction_index (ms_account m)) + 1"
    and sub: "ProposedTx \<lparr>pd_signature = [1], pd_multisig = addr 50, pd_vault = addr 150, pd_transaction_index = 8,
       pd_transaction = addr 150, pd_proposal = addr 150, pd_approved = False\<rparr> =
       ProposedTx \<lparr>pd_signature = sig, pd_multisig = addr 50, pd_vault = addr 150,
          pd_transaction_index = pp_transaction_index p, pd_transaction = pp_transaction p,
          pd_proposal = pp_proposal p, pd_approved = pp_approved p\<rparr>"
    by fastforce
  have "m = toy_multisig" using m toy_multisig_fetch by simp
  moreover have "unat (pp_transaction_index p) = 8" "\<not> pp_approved p" using sub by simp_all
  ultimately show ?thesis using p(1,2) toy_submission [of "[]" "[toy_ix 9]", unfolded sub] by auto
qed

section \<open>Orders and buffers\<close>

lemma to_uppercase_toy: "length (to_uppercase toy_cli s) = length s"
  by (simp add: to_uppercase_def toy_cli_def)

lemma toy_account_resolves:
  assumes "k = addr 21 \<and> m = mint_a \<or> k = addr 22 \<and> m = mint_b"
  shows "resolve toy_cli 0 owner (toy_show k) =
    Inr \<lparr>td_handle = \<lparr>ti_account = k, ti_mint = m, ti_token_program = SplToken\<rparr>, td_decimals = 6, td_create_ata = None\<rparr>"
proof -
  have "length (to_uppercase toy_cli (toy_show k)) = 32" by (simp add: to_uppercase_toy) (simp add: toy_show_def)
  then have "to_uppercase toy_cli (toy_show k) \<noteq> ''SOL''" "to_uppercase toy_cli (toy_show k) \<noteq> ''WSOL''" by auto
  moreover have "cl_pubkey_from_str toy_cli (toy_show k) = Some k" by (simp add: toy_cli_def toy_read_show)
  moreover have "cl_get_account toy_cli 0 k = Some (token_owned (token_data m 3))"
    "cl_get_account toy_cli 0 m = Some (token_owned [6])" "cl_unpack_mint toy_cli [6] = Some 6"
    using assms by (auto simp: toy_cli_def node_def)
  moreover have "token_program_of toy_cli (token_owned d) = Inr SplToken" for d
    by (simp add: token_program_of_def token_program_try_from_def token_program_all_def toy_at_def)
  ultimately show ?thesis
    by (simp add: resolve_def interpret_token_from_user_input_def fetch_mint_def Let_def)
qed

abbreviation sell_three :: CommonArgs where
  "sell_three \<equiv> \<lparr>ca_valid_to = 1000, ca_partially_fillable = True\<rparr>"

abbreviation sell_terms :: "string list" where
  "sell_terms \<equiv> [''abc'', toy_show (addr 21), ''for'', ''ab'', toy_show (addr 22)]"

lemma toy_show_length: "length (toy_show k) = 32"
  by (simp add: toy_show_def)

theorem cli_order_placed_witness:
  "\<exists>parsed pre approve_ix create_ix intent input sell buy. order_parse toy_cli 0 desk Sell sell_terms = Inr parsed \<and>
     order_instructions toy_cli 0 desk parsed sell_three = Inr (pre @ [approve_ix, create_ix], intent) \<and>
     wf_intent toy intent \<and> oi_owner intent = addr 40 \<and>
     asked_for toy_cli 0 (addr 40) Sell sell_terms sell (oi_sell_amount intent) buy (oi_buy_amount intent) \<and>
     oi_buy intent = AssetToken \<lparr>ta_mint = ti_mint (td_handle buy), ta_token_account = ti_account (td_handle buy)\<rparr> \<and>
     instruction_parse CreateOrder create_order_parse_body (ix_data create_ix) (instruction_addresses create_ix) = Inr input \<and>
     intent_try_from toy (coi_intent_bytes input) = Inr intent"
proof -
  have amount: "cl_ui_amount toy_cli s d = Some (of_nat (length s))" for s d by (simp add: toy_cli_def)
  have "length (map ascii_lower (toy_show (addr 21))) \<noteq> length (map ascii_lower ''sol'')"
    by (simp add: toy_show_length)
  then have not_sol: "\<not> eq_ignore_ascii_case (toy_show (addr 21)) ''sol''"
    unfolding eq_ignore_ascii_case_def by metis
  have parsed: "\<exists>parsed. order_parse toy_cli 0 desk Sell sell_terms = Inr parsed \<and> \<not> po_sell_is_sol parsed \<and>
      ti_mint (td_handle (po_buy parsed)) = mint_b"
    using not_sol
    by (simp add: order_parse_def counter_terms_def toy_account_resolves resolve_amount_def amount nonzero_new_def)
  then obtain parsed where parsed: "order_parse toy_cli 0 desk Sell sell_terms = Inr parsed"
    and "\<not> po_sell_is_sol parsed" "ti_mint (td_handle (po_buy parsed)) = mint_b" by blast
  then have "\<exists>ixs intent. order_instructions toy_cli 0 desk parsed sell_three = Inr (ixs, intent)"
    by (simp add: order_instructions_def Let_def approve_def asset_try_from_def ENCODED_NATIVE_SOL_TRANSFER_def
        toy_cli_def toy_at_def)
  then obtain ixs intent where "order_instructions toy_cli 0 desk parsed sell_three = Inr (ixs, intent)" by blast
  with cli_order_placed [OF parsed this] parsed show ?thesis
    by (elim exE conjE) (simp only: ctx_payer_def toy_platform split: option.split, simp, blast)
qed

lemma toy_get_accounts: "cl_get_multiple_accounts toy_cli w ks = Some (map node ks)"
  by (simp add: toy_cli_def)

abbreviation burn_limit :: "u64 \<Rightarrow> BufferArg" where
  "burn_limit n \<equiv> \<lparr>ba_address = addr 105, ba_max_burn = n\<rparr>"

lemma toy_decode_buffer:
  "decode_buffer toy_cli (token_owned (token_data mint_a 3)) (addr 105) program =
    Inr \<lparr>bst_token_program = SplToken, bst_mint = mint_a, bst_amount = 3\<rparr>"
  by (simp add: decode_buffer_def token_program_of_def) (simp add: token_program_try_from_def token_program_all_def toy_at_def)

lemma toy_reclaim_plan:
  "buffer_reclaim_plan toy_cli 0 desk [burn_limit 3, burn_limit 0] =
    Inr ([(SplToken, [(addr 105, mint_a, 3)])], [addr 105], [])"
proof -
  have "node (addr 105) = Some (token_owned (token_data mint_a 3))" by (simp add: node_def)
  then show ?thesis by (simp add: buffer_reclaim_plan_def toy_get_accounts toy_decode_buffer Let_def)
qed

theorem cli_buffer_reclaim_within_limits_witness:
  "iteration_spec toy_cli \<and>
   (let es = concat (map reclaimed_entries (reclaim_instructions toy_cli program (addr 102) (addr 40) (addr 41)
      [(SplToken, [(addr 105, mint_a, 3)])])) in
    mset (map fst es) = {#addr 105#} \<and> (\<forall>(address, mint, limit) \<in> set es. limit = 3 \<and> addr 105 = address))"
proof -
  define es where "es = concat (map reclaimed_entries (reclaim_instructions toy_cli program (addr 102) (addr 40) (addr 41)
      [(SplToken, [(addr 105, mint_a, 3)])]))"
  define buffers where "buffers = [burn_limit 3, burn_limit 0]"
  have "\<forall>ks accounts. cl_get_multiple_accounts toy_cli 0 ks = Some accounts \<longrightarrow> length accounts = length ks"
    by (simp add: toy_get_accounts)
  note limits = cli_buffer_reclaim_within_limits [OF toy_iteration toy_reclaim_plan this, of "addr 102" "addr 40" "addr 41",
      unfolded Let_def Context.select_convs, folded es_def buffers_def]
  from limits have closed: "mset (map fst es) = mset [addr 105]" by blast
  have "limit = 3 \<and> addr 105 = address" if "(address, mint, limit) \<in> set es" for address mint limit
  proof -
    from limits have "case (address, mint, limit) of (address, mint, limit) \<Rightarrow> \<exists>i < length buffers.
        ba_address (buffers ! i) = address \<and> address \<notin> ba_address ` set (take i buffers) \<and>
        limit = ba_max_burn (buffers ! i)"
      by (elim exE conjE) (drule bspec [OF _ that], auto)
    then obtain i where i: "i < length buffers" "ba_address (buffers ! i) = address"
      "address \<notin> ba_address ` set (take i buffers)" "limit = ba_max_burn (buffers ! i)"
      by auto
    show ?thesis
    proof (cases i)
      case 0
      with i show ?thesis by (simp add: buffers_def)
    next
      case (Suc n)
      with i show ?thesis by (simp add: buffers_def)
    qed
  qed
  with closed toy_iteration show ?thesis unfolding es_def [symmetric] Let_def by auto
qed

section \<open>A settlement\<close>

text \<open>Two orders that swap the two mints; the buffer of the second one is missing.\<close>

definition swap_order :: "pubkey \<Rightarrow> pubkey \<Rightarrow> pubkey \<Rightarrow> pubkey \<Rightarrow> u64 \<Rightarrow> ResolvedIntent" where
  "swap_order sell_mint sell_account buy_mint buy_account buy_amount =
    \<lparr>ri_data = \<lparr>oi_owner = addr 41, oi_sell = \<lparr>ta_mint = sell_mint, ta_token_account = sell_account\<rparr>,
       oi_buy = AssetToken \<lparr>ta_mint = buy_mint, ta_token_account = buy_account\<rparr>, oi_sell_amount = 3,
       oi_buy_amount = buy_amount, oi_valid_to = 1000, oi_flags = \<lparr>fl_kind = Sell, fl_partially_fillable = True\<rparr>,
       oi_app_data = addr 0\<rparr>,
     ri_sell = \<lparr>ti_account = sell_account, ti_mint = sell_mint, ti_token_program = SplToken\<rparr>,
     ri_buy = \<lparr>ti_account = buy_account, ti_mint = buy_mint, ti_token_program = SplToken\<rparr>\<rparr>"

definition swap :: "ResolvedIntent list" where
  "swap = [swap_order mint_a (addr 21) mint_b (addr 22) 2, swap_order mint_b (addr 22) mint_a (addr 21) 3]"

text \<open>The first order alone buys what nothing sells.\<close>

theorem cli_settlement_self_funding_witness:
  "iteration_spec toy_cli \<and> (\<exists>setup_ixs. prepare_setup_ixs toy_cli 0 desk swap = Inr setup_ixs) \<and>
   \<not> (\<exists>setup_ixs. prepare_setup_ixs toy_cli 0 desk (take 1 swap) = Inr setup_ixs)"
proof -
  have "\<exists>setup_ixs. prepare_setup_ixs toy_cli 0 desk swap = Inr setup_ixs"
    unfolding cli_settlement_self_funding [OF toy_iteration] by (auto simp: swap_def swap_order_def)
  moreover have "\<not> (\<exists>setup_ixs. prepare_setup_ixs toy_cli 0 desk (take 1 swap) = Inr setup_ixs)"
    unfolding cli_settlement_self_funding [OF toy_iteration]
    by (auto simp: swap_def swap_order_def intro!: exI [of _ mint_b])
  ultimately show ?thesis using toy_iteration by blast
qed

lemma swap_setup: "\<exists>ix. prepare_setup_ixs toy_cli 0 desk swap = Inr [ix]"
proof -
  have node: "cl_get_account toy_cli 0 (addr 106) = None" "\<exists>a. cl_get_account toy_cli 0 (addr 105) = Some a"
    and order: "cl_order_tally toy_cli = (\<lambda>xs. xs)" "cl_order_groups toy_cli = rev"
    by (simp_all add: toy_cli_def node_def)
  have "prepare_setup_loop toy_cli 0 desk swap ([], [], []) =
      Inr ([(mint_a, 3), (mint_b, 3)], [(mint_b, 2), (mint_a, 3)], [(SplToken, [mint_b])])"
    using node by (auto simp: swap_def swap_order_def tally_and_register_buffer_def Let_def)
  then show ?thesis by (simp add: prepare_setup_ixs_def ensure_cow_balance_def order unwrap_or_def)
qed

lemma swap_instructions: "\<exists>ixs. settle_instructions toy_cli 0 desk swap = Inr ixs"
proof -
  obtain ix where "prepare_setup_ixs toy_cli 0 desk swap = Inr [ix]" using swap_setup by blast
  moreover obtain begin_ix where "client_begin_settle toy (fst (settle_builders toy_cli desk swap 1 2)) = Inr begin_ix"
    using client_begin_settle_total [of toy_cli desk swap 1 2] by auto
  ultimately show ?thesis by (simp add: settle_instructions_def Let_def case_prod_beta)
qed

theorem cli_settlement_transaction_witness:
  "\<exists>setup_ixs begin_ix finalize_ix finalize_input.
    settle_instructions toy_cli 0 desk swap = Inr (setup_ixs @ [begin_ix, finalize_ix]) \<and>
    set (concat (map created_pairs setup_ixs)) = {[addr 106, mint_b]} \<and>
    instruction_parse FinalizeSettle finalize_settle_parse_body (ix_data finalize_ix) (instruction_addresses finalize_ix) =
      Inr finalize_input \<and>
    length (pushes_iter (fsi_pushes finalize_input)) = 2"
proof -
  from swap_instructions obtain ixs where ixs: "settle_instructions toy_cli 0 desk swap = Inr ixs" by blast
  have few: "length swap < 256" by (simp add: swap_def)
  have missing: "{m \<in> traded_mints swap. buffer_missing toy_cli 0 desk m} = {mint_b}"
    by (auto simp: traded_mints_def swap_def swap_order_def buffer_missing_def) (auto simp: toy_cli_def node_def)
  from cli_settlement_transaction [OF toy_iteration ixs, unfolded Let_def Context.select_convs missing toy_platform]
  obtain setup_ixs begin_ix finalize_ix finalize_input where
    split: "ixs = setup_ixs @ [begin_ix, finalize_ix]"
    and created: "set (concat (map created_pairs setup_ixs)) = (\<lambda>m. [fst (find_buffer_pda toy program m), m]) ` {mint_b}"
    and read: "instruction_parse FinalizeSettle finalize_settle_parse_body (ix_data finalize_ix)
      (instruction_addresses finalize_ix) = Inr finalize_input"
    and pushes: "map (\<lambda>p. (pu_source_buffer p, pu_destination p, pu_amount p)) (pushes_iter (fsi_pushes finalize_input)) =
       map (cli_push toy_cli desk) (settle_order toy_cli desk swap)"
    using few unfolding toy_platform Context.select_convs by blast
  have "length (pushes_iter (fsi_pushes finalize_input)) = length swap"
    using arg_cong [OF pushes, of length] by simp
  with ixs created read show ?thesis
    by (intro exI [of _ setup_ixs] exI [of _ begin_ix] exI [of _ finalize_ix] exI [of _ finalize_input])
      (simp add: split swap_def)
qed

section \<open>The whole tool\<close>

text \<open>\<open>cow solver add\<close>, proposed to the multisig.\<close>

abbreviation shared_args :: Cli where
  "shared_args \<equiv> \<lparr>cli_keypair = ''id.json'', cli_program_id = ProgramAddress program,
     cli_squads_multisig = Some (addr 50), cli_squads_vault_index = None\<rparr>"

theorem cli_sends_one_transaction_witness:
  "\<exists>tx :: transaction. chain_after (cli_main toy_cli shared_args (SolverCommands (SolverAdd (addr 9) None)) False 0) = 1 \<and>
     tx_fee_payer tx = addr 40 \<and> tx_signers tx = [addr 40] \<and>
     (\<forall>ix \<in> set (tx_instructions tx). ix_program_id ix = SQUADS_MULTISIG_PROGRAM_ID \<and> ix_signers ix = {addr 40})"
proof -
  let ?r = "cli_main toy_cli shared_args (SolverCommands (SolverAdd (addr 9) None)) False 0"
  have keypair: "cl_read_keypair toy_cli path = Some (addr 40)" for path by (simp add: toy_cli_def)
  then have "context_from_args toy_cli 0 shared_args = Inr shared_desk"
    by (simp add: context_from_args_def toy_multisig_fetch)
  moreover have "signer_or toy_cli shared_desk None = Inr (TxVault (addr 150))" by (simp add: signer_or_def)
  ultimately have "\<exists>ixs f. ?r = finish (submit toy_cli shared_desk ixs [TxVault (addr 150)] 0) f"
    unfolding cli_main_def run_command_def solver_run_def solver_add_run_def Let_def by auto
  then obtain ixs f where "?r = finish (submit toy_cli shared_desk ixs [TxVault (addr 150)] 0) f" by blast
  then have chain: "chain_after ?r = 1"
    using toy_submission [of "[TxVault (addr 150)]" ixs] by simp
  obtain lines res w' where r: "?r = (lines, res, w')" using prod_cases3 by blast
  with chain have "w' \<noteq> 0" by simp
  from cli_sends_one_transaction [OF r this] obtain tx where
    "w' = snd (cl_send_and_confirm toy_cli 0 tx)" "cl_read_keypair toy_cli (cli_keypair shared_args) = Some (tx_fee_payer tx)"
    "cli_squads_multisig shared_args \<noteq> None \<longrightarrow> tx_signers tx = [tx_fee_payer tx] \<and>
       (\<forall>ix \<in> set (tx_instructions tx).
          ix_program_id ix = SQUADS_MULTISIG_PROGRAM_ID \<and> ix_signers ix = {tx_fee_payer tx})"
    by (elim exE conjE)
  then show ?thesis using chain keypair by auto
qed

end
