(* ===== verification/EndToEnd.thy ===== *)
theory EndToEnd
  imports CliMain Processor
begin

text \<open>
  The command line tool and the program together. What one side builds, the other side reads from
  the accounts the runtime hands it: \<open>account_parser\<close> is the contract of a parser that only looks
  at the positions of its accounts, interpreted for every instruction the tool builds. The
  theorems follow an order through its life: \<open>cow sell\<close> or \<open>cow buy\<close> places it, the program stores
  it, the tool reads it back, and the settlement the tool builds fills it exactly.
\<close>

section \<open>Parsers only move accounts\<close>

text \<open>
  A parser is used at two account types: at addresses, on a built instruction, and at account
  views, in the program. Reading the addresses of the views before or after parsing is the same.
\<close>

locale account_parser =
  fixes own :: SettlementInstruction
    and parse_views :: "bytes \<Rightarrow> account_view list \<Rightarrow> 'v result"
    and parse_addresses :: "bytes \<Rightarrow> pubkey list \<Rightarrow> 'a result"
    and forget :: "'v \<Rightarrow> 'a"
  assumes natural: "parse_addresses data (map av_address views) = map_sum id forget (parse_views data views)"
begin

lemma parse_natural:
  "instruction_parse own parse_addresses data (map av_address views) =
    map_sum id forget (instruction_parse own parse_views data views)"
  by (cases "recover_discriminator data") (auto simp: instruction_parse_def natural)

text \<open>The program reads from the views what the addresses of the instruction parse to.\<close>

lemma parsed_views:
  assumes "instruction_parse own parse_addresses data (map av_address views) = Inr input"
  obtains input' where "instruction_parse own parse_views data views = Inr input'" and "forget input' = input"
  using assms unfolding parse_natural
  by (cases "instruction_parse own parse_views data views") auto

end

lemma length_3_cases:
  "(\<exists>a b c rest. xs = a # b # c # rest) \<or> xs = [] \<or> (\<exists>a. xs = [a]) \<or> (\<exists>a b. xs = [a, b])"
  by (cases xs; cases "tl xs"; cases "tl (tl xs)") auto

definition create_order_addresses :: "account_view CreateOrderInput \<Rightarrow> pubkey CreateOrderInput" where
  "create_order_addresses input = \<lparr>coi_intent_bytes = coi_intent_bytes input, coi_owner = av_address (coi_owner input),
     coi_created_by = av_address (coi_created_by input), coi_order_pda = av_address (coi_order_pda input)\<rparr>"

interpretation create_order_accounts: account_parser CreateOrder create_order_parse_body create_order_parse_body
  create_order_addresses
  by unfold_locales
    (auto simp: create_order_parse_body_def create_order_addresses_def bindE_def ensure_def split: list.split sum.split)

definition settled_order_addresses :: "account_view SettledOrder \<Rightarrow> pubkey SettledOrder" where
  "settled_order_addresses so = \<lparr>so_order_pda = av_address (so_order_pda so),
     so_sell_token_account = av_address (so_sell_token_account so), so_sell_mint = av_address (so_sell_mint so),
     so_destinations = map av_address (so_destinations so), so_amounts = so_amounts so\<rparr>"

lemma settled_orders_from_natural:
  "settled_orders_from (map av_address views) counts amounts =
    map (map_sum id settled_order_addresses) (settled_orders_from views counts amounts)"
proof (induction counts arbitrary: views amounts)
  case (Cons c counts)
  from length_3_cases [of views] show ?case
    by (elim disjE exE) (simp_all add: settled_order_addresses_def take_map Cons.IH drop_map)
qed simp

definition settled_orders_addresses :: "account_view SettledOrders \<Rightarrow> pubkey SettledOrders" where
  "settled_orders_addresses orders = \<lparr>sos_order_accounts = map av_address (sos_order_accounts orders),
     sos_counts = sos_counts orders, sos_amounts = sos_amounts orders\<rparr>"

lemma settled_orders_iter_natural:
  "settled_orders_iter (settled_orders_addresses orders) =
    map (map_sum id settled_order_addresses) (settled_orders_iter orders)"
  by (simp add: settled_orders_iter_def settled_orders_addresses_def settled_orders_from_natural)

lemma map_sum_Inr:
  assumes "map (map_sum f g) xs = map Inr ys"
  obtains zs where "xs = map Inr zs" and "ys = map g zs"
proof -
  have "\<exists>zs. xs = map Inr zs \<and> ys = map g zs"
    using assms
  proof (induction xs arbitrary: ys)
    case (Cons x xs)
    then obtain y ys' where "ys = y # ys'" "map_sum f g x = Inr y" "map (map_sum f g) xs = map Inr ys'" by auto
    with Cons.IH [of ys'] show ?case by (cases x) (auto intro: exI [of _ "_ # _"])
  qed simp
  with that show thesis by blast
qed

definition begin_settle_addresses :: "account_view BeginSettleInput \<Rightarrow> pubkey BeginSettleInput" where
  "begin_settle_addresses input = \<lparr>bsi_finalize_ix_index = bsi_finalize_ix_index input,
     bsi_auction_id = bsi_auction_id input, bsi_solver_account = av_address (bsi_solver_account input),
     bsi_instructions_sysvar_account = av_address (bsi_instructions_sysvar_account input),
     bsi_state_pda_account = av_address (bsi_state_pda_account input),
     bsi_orders = settled_orders_addresses (bsi_orders input)\<rparr>"

interpretation begin_settle_accounts: account_parser BeginSettle begin_settle_parse_body begin_settle_parse_body
  begin_settle_addresses
  by unfold_locales
    (auto simp: begin_settle_parse_body_def begin_settle_addresses_def settled_orders_addresses_def bindE_def
      ensure_def ok_or_def Let_def split: list.split sum.split prod.split option.split)

text \<open>The accounts are chunked before the addresses are read, or after.\<close>

lemma as_chunks_natural:
  "0 < n \<Longrightarrow> as_chunks n (map f xs) = map_prod (map (map f)) (map f) (as_chunks n xs)"
proof (induction n xs rule: as_chunks.induct)
  case (1 n xs)
  then show ?case by (auto simp: as_chunks.simps [of n xs] as_chunks.simps [of n "map f xs"] take_map drop_map
      split: prod.splits)
qed

definition push_addresses :: "account_view Push \<Rightarrow> pubkey Push" where
  "push_addresses push = \<lparr>pu_source_buffer = av_address (pu_source_buffer push),
     pu_destination = av_address (pu_destination push), pu_mint = av_address (pu_mint push),
     pu_bump = pu_bump push, pu_amount = pu_amount push\<rparr>"

definition finalize_settle_addresses :: "account_view FinalizeSettleInput \<Rightarrow> pubkey FinalizeSettleInput" where
  "finalize_settle_addresses input = \<lparr>fsi_begin_ix_index = fsi_begin_ix_index input,
     fsi_instructions_sysvar_account = av_address (fsi_instructions_sysvar_account input),
     fsi_state_pda_account = av_address (fsi_state_pda_account input),
     fsi_pushes = \<lparr>ps_push_accounts = map (map av_address) (ps_push_accounts (fsi_pushes input)),
       ps_bumps = ps_bumps (fsi_pushes input), ps_amounts = ps_amounts (fsi_pushes input)\<rparr>\<rparr>"

interpretation finalize_settle_accounts: account_parser FinalizeSettle finalize_settle_parse_body
  finalize_settle_parse_body finalize_settle_addresses
  by unfold_locales
    (auto simp: finalize_settle_parse_body_def finalize_settle_addresses_def bindE_def as_chunks_natural
      FINALIZE_PUSH_ACCOUNTS_def Let_def map_prod_def split: list.split sum.split prod.split)

section \<open>An order is stored as it was placed\<close>

text \<open>What a successful \<open>CreateOrder\<close> leaves at the order's address.\<close>

lemma create_order_stores:
  assumes rules: "runtime_rules P prog"
    and parse: "instruction_parse CreateOrder create_order_parse_body data views = Inr input"
    and run: "process_create_order P prog views data accs = Inr accs'"
  defines "a \<equiv> av_address (coi_order_pda input)"
  shows "av_is_signer (coi_owner input)" and "\<not> is_order prog accs a" and "is_order prog accs' a"
    and "order_intent_bytes (acc_data (accs' a)) = coi_intent_bytes input"
    and "order_created_by (acc_data (accs' a)) = av_address (coi_created_by input)"
    and "order_cancelled (acc_data (accs' a)) = Inr False"
    and "order_filled_amounts (acc_data (accs' a)) = \<lparr>fa_withdrawn = 0, fa_received = 0\<rparr>"
proof -
  let ?c = "\<lparr>cp_program_id = prog, cp_payer = coi_created_by input, cp_pda = coi_order_pda input,
    cp_size = of_nat ORDER_SIZE, cp_owner = prog, cp_seeds = order_pda_seeds (hash_bytes P (coi_intent_bytes input))\<rparr>"
  from run parse have signer: "av_is_signer (coi_owner input)"
    and new: "process_new_onchain_order P prog (coi_order_pda input) (coi_intent_bytes input)
      (av_address (coi_owner input)) (coi_created_by input) False accs = Inr accs'"
    by (auto simp: process_create_order_def split: if_splits)
  show "av_is_signer (coi_owner input)" by (rule signer)
  from new obtain bump mid order where mid: "create_idempotent P ?c accs = Inr (True, bump, mid)"
    and order: "order_initialize (acc_data (view_account mid (coi_order_pda input))) bump False 0 0
      (av_address (coi_created_by input)) (coi_intent_bytes input) = Inr order"
    and accs': "accs' = set_data a order mid"
    unfolding a_def by (rule process_new_onchain_order_Inr)
  have len: "length (coi_intent_bytes input) = INTENT_SIZE"
    using parse length_create_order_intent by (auto simp: instruction_parse_Inr_iff)
  note created = created_was_no_order [OF _ _ mid, of prog, simplified]
  note reads = order_initialize_reads [OF order len]
  show "\<not> is_order prog accs a" using created(1) rules by (simp add: runtime_rules_def a_def)
  show "is_order prog accs' a" using created(2) rules reads(2) by (simp add: runtime_rules_def accs' a_def)
  show "order_intent_bytes (acc_data (accs' a)) = coi_intent_bytes input"
    "order_created_by (acc_data (accs' a)) = av_address (coi_created_by input)"
    "order_cancelled (acc_data (accs' a)) = Inr False"
    "order_filled_amounts (acc_data (accs' a)) = \<lparr>fa_withdrawn = 0, fa_received = 0\<rparr>"
    using reads by (simp_all add: accs')
qed

text \<open>The client decodes every order of a reachable state.\<close>

lemma reachable_order_decoded:
  assumes "reachable prog accs" and "is_order prog accs a"
    and "intent_try_from P (order_intent_bytes (acc_data (accs a))) = Inr i"
  obtains d where "decoded_order_try_from P (acc_data (accs a)) = Inr d" and "da_intent d = i"
    and "da_created_by d = order_created_by (acc_data (accs a))"
proof -
  have "order_inv (acc_data (accs a))"
    using reachable_orders_inv [OF assms(1)] assms(2) by (simp add: orders_inv_def)
  then obtain c where "order_cancelled (acc_data (accs a)) = Inr c"
    using assms(2) by (auto simp: order_inv_def)
  with assms(2,3) show thesis
    by (intro that [of "\<lparr>da_bump = order_bump (acc_data (accs a)), da_cancelled = c,
      da_amount_withdrawn = fa_withdrawn (order_filled_amounts (acc_data (accs a))),
      da_amount_received = fa_received (order_filled_amounts (acc_data (accs a))),
      da_created_by = order_created_by (acc_data (accs a)), da_intent = i\<rparr>"])
      (simp_all add: decoded_order_try_from_def Let_def)
qed

section \<open>Property: the order placed is the order read back\<close>

text \<open>The last instruction of an order placed with the tool, by what the program parses from it.\<close>

lemma placed_order_parses:
  assumes "order_parse C w ctx kind terms = Inr parsed"
    and "order_instructions C w ctx parsed common = Inr (ixs, intent)"
  obtains input where
    "instruction_parse CreateOrder create_order_parse_body (ix_data (last ixs)) (instruction_addresses (last ixs)) = Inr input"
    and "coi_intent_bytes input = intent_encode (cl_platform C) intent" and "wf_intent (cl_platform C) intent"
    and "coi_owner input = ctx_payer ctx" and "coi_created_by input = ctx_payer ctx"
    and "coi_order_pda input = client_order_address (cl_platform C) (cx_program_id ctx) intent"
proof -
  let ?P = "cl_platform C"
  note parsed = order_parse_Inr [OF assms(1)]
  obtain pre approve_ix where ixs: "ixs = pre @ [approve_ix, client_create_order ?P
      \<lparr>cco_program_id = cx_program_id ctx, cco_owner = ctx_payer ctx, cco_created_by = ctx_payer ctx, cco_intent = intent\<rparr>]"
    and canonical: "canonical_asset ?P (oi_buy intent)"
    and amounts: "oi_sell_amount intent = po_sell_amount parsed" "oi_buy_amount intent = po_buy_amount parsed"
    by (rule order_instructions_Inr [OF assms(2)]) simp
  let ?b = "\<lparr>co_program_id = cx_program_id ctx, co_owner = ctx_payer ctx, co_created_by = ctx_payer ctx,
    co_order_pda = client_order_address ?P (cx_program_id ctx) intent, co_intent_bytes = intent_encode ?P intent\<rparr>"
  have last: "last ixs = create_order_instruction ?P ?b"
    by (simp add: ixs client_create_order_def client_order_address_def intent_uid_def Let_def)
  have "wf_intent ?P intent" using parsed canonical amounts by (simp add: wf_intent_def)
  with create_order_codec.parse_build [of ?b ?P] show thesis
    by (intro that [of "create_order_input ?b"]) (simp_all add: last create_order_input_def length_intent_encode)
qed

lemma create_order_dispatch:
  assumes "instruction_parse CreateOrder pb data xs = Inr input"
  shows "process_instruction P prog views data accs = process_create_order P prog views data accs"
  using assms by (auto simp: process_instruction_def instruction_parse_Inr_iff simp del: ix_discriminator.simps)

lemma begin_settle_dispatch:
  assumes "instruction_parse BeginSettle pb data xs = Inr input"
  shows "process_instruction P prog views data accs = process_begin_settle P prog views data accs"
  using assms by (auto simp: process_instruction_def instruction_parse_Inr_iff simp del: ix_discriminator.simps)

text \<open>
  C15: an order placed with \<open>cow sell\<close> or \<open>cow buy\<close> survives the chain. When the program runs the
  instruction the tool built, on accounts at the addresses it lists, the payer signed and a new
  order of the program is at the order's address, unfilled. Whatever runs afterwards, as long as
  the order is not closed, the tool's \<open>--uid\<close> lookup finds exactly the intent that was placed, and
  its rent goes back to the payer.
\<close>

theorem cli_order_survives:
  fixes C :: "'w cli" and ctx :: Context and intent :: OrderIntent
  defines "a \<equiv> client_order_address (cl_platform C) (cx_program_id ctx) intent"
  assumes "order_parse C w ctx kind terms = Inr parsed"
    and "order_instructions C w ctx parsed common = Inr (ixs, intent)"
    and "runtime_rules P (cx_program_id ctx)" and "reachable (cx_program_id ctx) accs"
    and "map av_address views = instruction_addresses (last ixs)"
    and "process_instruction P (cx_program_id ctx) views (ix_data (last ixs)) accs = Inr accs'"
    and "run_without_closing (cx_program_id ctx) a accs' later"
    and "cl_get_account_data C w' a = Some (acc_data (later a))"
  shows "(\<exists>v \<in> set views. av_address v = ctx_payer ctx \<and> av_is_signer v) \<and>
    \<not> is_order (cx_program_id ctx) accs a \<and> is_order (cx_program_id ctx) accs' a \<and>
    order_filled_amounts (acc_data (accs' a)) = \<lparr>fa_withdrawn = 0, fa_received = 0\<rparr> \<and>
    order_cancelled (acc_data (accs' a)) = Inr False \<and>
    fetch_order_intent C w' ctx (OrderUid (intent_uid (cl_platform C) intent)) = Inr intent \<and>
    order_created_by (acc_data (later a)) = ctx_payer ctx"
proof -
  let ?prog = "cx_program_id ctx"
  from assms(2,3) obtain input where
    parse: "instruction_parse CreateOrder create_order_parse_body (ix_data (last ixs)) (instruction_addresses (last ixs)) = Inr input"
    and "coi_intent_bytes input = intent_encode (cl_platform C) intent" and wf: "wf_intent (cl_platform C) intent"
    and "coi_owner input = ctx_payer ctx" and "coi_created_by input = ctx_payer ctx" and "coi_order_pda input = a"
    unfolding a_def by (rule placed_order_parses)
  moreover from parse obtain input' where
    views: "instruction_parse CreateOrder create_order_parse_body (ix_data (last ixs)) views = Inr input'"
    and "create_order_addresses input' = input"
    using create_order_accounts.parsed_views assms(6) by metis
  ultimately have input': "coi_intent_bytes input' = intent_encode (cl_platform C) intent"
    "av_address (coi_owner input') = ctx_payer ctx" "av_address (coi_created_by input') = ctx_payer ctx"
    "av_address (coi_order_pda input') = a"
    by (auto simp: create_order_addresses_def)
  have "process_create_order P ?prog views (ix_data (last ixs)) accs = Inr accs'"
    using assms(7) create_order_dispatch [OF parse] by simp
  note stored = create_order_stores [OF assms(4) views this, unfolded input']
  have "coi_owner input' \<in> set views"
    using views by (auto simp: create_order_parse_body_def result_simps split: list.splits)
  moreover have reach: "reachable ?prog accs'"
    using assms(5) program_step [OF assms(4,7)] by (rule reachable.stepped)
  note evolved = run_evolves [OF assms(8) reach stored(3)]
  have later: "reachable ?prog later" by (rule run_reachable [OF assms(8) reach])
  have order: "is_order ?prog later a" using evolved order_evolves_attached by blast
  have "intent_try_from (cl_platform C) (order_intent_bytes (acc_data (later a))) = Inr intent"
    using evolved stored(4) intent_try_from_encode [OF wf] by (simp add: order_evolves_def)
  from reachable_order_decoded [OF later order this] obtain d where
    "decoded_order_try_from (cl_platform C) (acc_data (later a)) = Inr d" "da_intent d = intent" by blast
  then have "fetch_order_intent C w' ctx (OrderUid (intent_uid (cl_platform C) intent)) = Inr intent"
    using assms(9) by (simp add: fetch_order_intent_def client_order_address_def a_def Let_def)
  ultimately show ?thesis
    using stored input' evolved by (auto simp: order_evolves_def)
qed

section \<open>The settlement, as the program reads it\<close>

lemma pulled_cli_pull:
  assumes "(so_sell_token_account (settled_order_addresses so), so_destinations (settled_order_addresses so),
    map from_le (so_amounts (settled_order_addresses so))) = cli_pull C ctx r"
  shows "pulled so = unat (oi_sell_amount (ri_data r))"
proof -
  have "length (so_destinations so) = 1" "map from_le (so_amounts so) = [oi_sell_amount (ri_data r)]"
    using assms by (auto simp: cli_pull_def settled_order_addresses_def dest: arg_cong [of _ _ length])
  then show ?thesis by (auto simp: pulled_def length_Suc_conv)
qed

lemma pushes_iter_natural:
  assumes "\<forall>t \<in> set (ps_push_accounts pushes). length t = 3"
  shows "pushes_iter \<lparr>ps_push_accounts = map (map av_address) (ps_push_accounts pushes), ps_bumps = ps_bumps pushes,
      ps_amounts = ps_amounts pushes\<rparr> = map push_addresses (pushes_iter pushes)"
  using assms
  by (auto simp: pushes_iter_def push_addresses_def zip_map1 case_prod_beta dest!: set_zip_leftD)

text \<open>
  The orders and pushes that the program settles when it runs the \<open>BeginSettle\<close> of the tool's
  transaction: the program reads them off account views, the tool described them by addresses.
\<close>

lemma settle_pushes_read:
  fixes C ctx intents i j ix
  defines "ix \<equiv> client_finalize_settle (cl_platform C) (snd (settle_builders C ctx intents i j))"
  shows "\<exists>pushes. finalize_pushes ix = Inr pushes \<and>
    map (\<lambda>p. (pp_source_buffer p, pp_destination p, pp_amount p)) pushes = map (cli_push C ctx) (settle_order C ctx intents)"
proof -
  let ?views = "map (\<lambda>k. \<lparr>av_address = k, av_is_signer = False, av_is_writable = False\<rparr>) (instruction_addresses ix)"
  have addresses: "map av_address ?views = instruction_addresses ix" by (simp add: comp_def)
  from settle_finalize_parses [of C ctx intents i j, folded ix_def] obtain input where
    "instruction_parse FinalizeSettle finalize_settle_parse_body (ix_data ix) (instruction_addresses ix) = Inr input"
    and cli: "map (\<lambda>p. (pu_source_buffer p, pu_destination p, pu_amount p)) (pushes_iter (fsi_pushes input)) =
      map (cli_push C ctx) (settle_order C ctx intents)"
    by blast
  then obtain input' where
    parse: "instruction_parse FinalizeSettle finalize_settle_parse_body (ix_data ix) ?views = Inr input'"
    and input: "finalize_settle_addresses input' = input"
    using finalize_settle_accounts.parsed_views [of "ix_data ix" ?views, unfolded addresses] by blast
  have "\<forall>t \<in> set (ps_push_accounts (fsi_pushes input')). length t = 3"
    using parse as_chunks_inverse(2) [of 3]
    by (fastforce simp: finalize_settle_parse_body_def result_simps FINALIZE_PUSH_ACCOUNTS_def split: if_splits)
  from pushes_iter_natural [OF this]
  have "pushes_iter (fsi_pushes input) = map push_addresses (pushes_iter (fsi_pushes input'))"
    by (simp add: input [symmetric] finalize_settle_addresses_def)
  then have "map (\<lambda>p. (pp_source_buffer p, pp_destination p, pp_amount p))
      (map paired_push (pushes_iter (fsi_pushes input'))) = map (cli_push C ctx) (settle_order C ctx intents)"
    using cli by (simp add: push_addresses_def paired_push_def comp_def)
  moreover have "finalize_pushes ix = Inr (map paired_push (pushes_iter (fsi_pushes input')))"
    using finalize_pushes_parsed [OF parse] addresses by simp
  ultimately show ?thesis by blast
qed

lemma settle_orders_read:
  fixes C ctx intents i j
  assumes "client_begin_settle (cl_platform C) (fst (settle_builders C ctx intents i j)) = Inr ix"
    and "length intents < 256" and "map av_address views = instruction_addresses ix"
  obtains input orders where
    "instruction_parse BeginSettle begin_settle_parse_body (ix_data ix) views = Inr input"
    and "bsi_finalize_ix_index input = j"
    and "settled_orders_iter (bsi_orders input) = map Inr orders"
    and "map order_address orders =
      map (\<lambda>r. client_order_address (cl_platform C) (cx_program_id ctx) (ri_data r)) (settle_order C ctx intents)"
    and "map pulled orders = map (\<lambda>r. unat (oi_sell_amount (ri_data r))) (settle_order C ctx intents)"
proof -
  from settle_begin_parses [OF assms(2,1)] obtain input_a orders_a where
    "instruction_parse BeginSettle begin_settle_parse_body (ix_data ix) (map av_address views) = Inr input_a"
    and j: "bsi_finalize_ix_index input_a = j"
    and items: "settled_orders_iter (bsi_orders input_a) = map Inr orders_a"
    and pdas: "map so_order_pda orders_a =
      map (\<lambda>r. client_order_address (cl_platform C) (cx_program_id ctx) (ri_data r)) (settle_order C ctx intents)"
    and pulls: "map (\<lambda>so. (so_sell_token_account so, so_destinations so, map from_le (so_amounts so))) orders_a =
      map (cli_pull C ctx) (settle_order C ctx intents)"
    unfolding assms(3) by blast
  then obtain input where
    parse: "instruction_parse BeginSettle begin_settle_parse_body (ix_data ix) views = Inr input"
    and input: "begin_settle_addresses input = input_a"
    using begin_settle_accounts.parsed_views by metis
  have "map (map_sum id settled_order_addresses) (settled_orders_iter (bsi_orders input)) = map Inr orders_a"
    using items by (simp add: input [symmetric] begin_settle_addresses_def settled_orders_iter_natural)
  then obtain orders where orders: "settled_orders_iter (bsi_orders input) = map Inr orders"
    and orders_a: "orders_a = map settled_order_addresses orders"
    by (rule map_sum_Inr)
  have "map order_address orders = map so_order_pda orders_a"
    by (simp add: orders_a settled_order_addresses_def comp_def)
  moreover have "map pulled orders = map (\<lambda>r. unat (oi_sell_amount (ri_data r))) (settle_order C ctx intents)"
  proof (rule nth_equalityI)
    show len: "length (map pulled orders) = length (map (\<lambda>r. unat (oi_sell_amount (ri_data r))) (settle_order C ctx intents))"
      using arg_cong [OF pulls, of length] by (simp add: orders_a)
    fix k assume "k < length (map pulled orders)"
    then have k: "k < length orders" "k < length (settle_order C ctx intents)" using len by simp_all
    with arg_cong [OF pulls, of "\<lambda>xs. xs ! k"] have "pulled (orders ! k) = unat (oi_sell_amount (ri_data (settle_order C ctx intents ! k)))"
      by (intro pulled_cli_pull [of _ C ctx]) (simp add: orders_a)
    with k show "map pulled orders ! k = map (\<lambda>r. unat (oi_sell_amount (ri_data r))) (settle_order C ctx intents) ! k"
      by simp
  qed
  ultimately show thesis
    using that parse orders j pdas by (simp add: input [symmetric] begin_settle_addresses_def)
qed

section \<open>Property: the settlement built is the settlement executed\<close>

text \<open>
  An order that a successful \<open>BeginSettle\<close> settled with its full sell amount pulled and its buy
  amount pushed was untouched before and is filled after.
\<close>

lemma full_settlement_fills:
  assumes settled: "order_settled P prog now accs accs' so push"
    and inv: "orders_inv prog accs'" and owner: "acc_owner (accs' (order_address so)) = prog"
    and intent: "intent_try_from P1 (order_intent_bytes (acc_data (accs (order_address so)))) = Inr i"
    and full: "pulled so = unat (oi_sell_amount i)" "pp_amount push = oi_buy_amount i"
  defines "before \<equiv> order_filled_amounts (acc_data (accs (order_address so)))"
    and "after \<equiv> order_filled_amounts (acc_data (accs' (order_address so)))"
  shows "fa_withdrawn before = 0" and "fa_withdrawn after = oi_sell_amount i"
    and "unat (fa_received after) = unat (fa_received before) + unat (oi_buy_amount i)"
    and "may_close P2 (acc_data (accs' (order_address so))) (order_intent_bytes (acc_data (accs' (order_address so)))) None"
proof -
  note acc = accessor_agrees(5,6,8) [OF intent]
  note evolves = order_settled_evolves [OF settled]
  have same: "order_intent_bytes (acc_data (accs' (order_address so))) = order_intent_bytes (acc_data (accs (order_address so)))"
    using evolves by (simp add: order_evolves_def)
  have moved: "unat (fa_withdrawn after) = unat (fa_withdrawn before) + unat (oi_sell_amount i)"
    "unat (fa_received after) = unat (fa_received before) + unat (oi_buy_amount i)"
    using settled full by (simp_all add: order_settled_def Let_def before_def after_def)
  have "order_inv (acc_data (accs' (order_address so)))"
    using inv owner by (simp add: orders_inv_def)
  then have "fill_ok (order_intent_bytes (acc_data (accs (order_address so)))) after"
    using order_evolves_attached [OF evolves] same by (simp add: order_inv_def after_def)
  from fill_ok_withdrawn_le [OF this acc(1)] have "unat (fa_withdrawn after) \<le> unat (oi_sell_amount i)"
    by (simp add: word_le_nat_alt)
  with moved show zero: "fa_withdrawn before = 0" and full_after: "fa_withdrawn after = oi_sell_amount i"
    and "unat (fa_received after) = unat (fa_received before) + unat (oi_buy_amount i)"
    by (simp_all add: unat_eq_zero flip: word_unat_eq_iff)
  have "oi_buy_amount i \<le> fa_received after"
    using moved(2) by (simp add: word_le_nat_alt)
  then show "may_close P2 (acc_data (accs' (order_address so))) (order_intent_bytes (acc_data (accs' (order_address so)))) None"
    using full_after by (simp add: may_close_def same fill_progress_def acc after_def [symmetric] split: OrderKind.split)
qed

text \<open>The orders that run settles, and the pushes it settles them against, are those of the tool's plan.\<close>

lemma built_settlement_settles:
  fixes C :: "'w cli" and ctx :: Context
  defines "prog \<equiv> cx_program_id ctx"
  assumes "settle_instructions C w ctx intents = Inr ixs" and "length intents < 256" and rules: "runtime_rules P prog"
    and "pf_instructions P = ixs" and "map av_address views = instruction_addresses (ixs ! (length ixs - 2))"
    and "process_instruction P prog views (ix_data (ixs ! (length ixs - 2))) accs = Inr accs'"
  obtains now orders pushes where "orders_settled P prog now orders pushes accs accs'"
    and "map order_address orders = map (\<lambda>r. client_order_address (cl_platform C) prog (ri_data r)) (settle_order C ctx intents)"
    and "map pulled orders = map (\<lambda>r. unat (oi_sell_amount (ri_data r))) (settle_order C ctx intents)"
    and "map (\<lambda>p. (pp_source_buffer p, pp_destination p, pp_amount p)) pushes = map (cli_push C ctx) (settle_order C ctx intents)"
proof -
  let ?sorted = "settle_order C ctx intents" and ?address = "\<lambda>r. client_order_address (cl_platform C) prog (ri_data r)"
  from assms(2) obtain setup_ixs begin_ix where len: "length setup_ixs + 1 < 2 ^ 16"
    and built: "client_begin_settle (cl_platform C)
      (fst (settle_builders C ctx intents (of_nat (length setup_ixs)) (of_nat (length setup_ixs + 1)))) = Inr begin_ix"
    and ixs: "ixs = setup_ixs @ [begin_ix, client_finalize_settle (cl_platform C)
      (snd (settle_builders C ctx intents (of_nat (length setup_ixs)) (of_nat (length setup_ixs + 1))))]"
    by (rule settle_instructions_Inr)
  have begin_at: "ixs ! (length ixs - 2) = begin_ix" by (simp add: ixs nth_append)
  from settle_orders_read [OF built assms(3)] assms(6) obtain input orders where
    parse: "instruction_parse BeginSettle begin_settle_parse_body (ix_data begin_ix) views = Inr input"
    and j: "bsi_finalize_ix_index input = of_nat (length setup_ixs + 1)"
    and items: "settled_orders_iter (bsi_orders input) = map Inr orders"
    and pdas: "map order_address orders = map ?address ?sorted"
    and pulls: "map pulled orders = map (\<lambda>r. unat (oi_sell_amount (ri_data r))) ?sorted"
    unfolding begin_at prog_def by metis
  have run: "process_begin_settle P prog views (ix_data begin_ix) accs = Inr accs'"
    using assms(7) begin_settle_dispatch [OF parse] by (simp add: begin_at)
  have frame: "invoke_frame P prog" using rules by (simp add: runtime_rules_def)
  from run obtain input' :: "account_view BeginSettleInput" and body now pushes where
    "ix_data begin_ix = ix_discriminator BeginSettle # body" "begin_settle_parse_body body views = Inr input'"
    and pushes: "finalize_pushes (pf_instructions P ! unat (bsi_finalize_ix_index input')) = Inr pushes"
    and loop: "settle_orders_loop P prog (bsi_state_pda_account input') [STATE_PDA_SIGNER_SEEDS P] now
      (settled_orders_iter (bsi_orders input')) None pushes accs = Inr accs'"
    by (rule process_begin_settle_Inr) blast
  then have "input' = input" using parse by (auto simp: instruction_parse_Inr_iff simp del: ix_discriminator.simps)
  with loop items have settled: "orders_settled P prog now orders pushes accs accs'"
    using settle_orders_loop_settled [OF frame loop] by (auto simp: inj_map_eq_map)
  have "unat (of_nat (length setup_ixs + 1) :: u16) = length setup_ixs + 1"
    using len by (simp add: unat_of_nat_fits(2) del: of_nat_Suc of_nat_add)
  then have "finalize_pushes (client_finalize_settle (cl_platform C)
      (snd (settle_builders C ctx intents (of_nat (length setup_ixs)) (of_nat (length setup_ixs + 1))))) = Inr pushes"
    using pushes by (simp add: \<open>input' = input\<close> j assms(5) ixs nth_append del: of_nat_Suc of_nat_add)
  then have paid: "map (\<lambda>p. (pp_source_buffer p, pp_destination p, pp_amount p)) pushes = map (cli_push C ctx) ?sorted"
    using settle_pushes_read [of C ctx intents "of_nat (length setup_ixs)" "of_nat (length setup_ixs + 1)"] by (simp del: of_nat_Suc of_nat_add)
  show thesis by (rule that [OF settled pdas pulls paid])
qed

text \<open>
  C14: when the program runs the \<open>BeginSettle\<close> of the transaction that \<open>cow settle\<close> built, on
  accounts at the addresses it lists, every one of the orders that is on chain under its intent is
  filled: nothing had been withdrawn from it before, exactly its sell amount has been after, it
  has received its buy amount on top of what it had, and it may be reclaimed at once, by anyone. The tool never
  settles an order twice, and never partially.
\<close>

theorem cli_settlement_fills_orders:
  fixes C :: "'w cli" and ctx :: Context
  defines "prog \<equiv> cx_program_id ctx"
  assumes "settle_instructions C w ctx intents = Inr ixs" and "length intents < 256"
    and "runtime_rules P prog" and "reachable prog accs"
    and "pf_instructions P = ixs" and "unat (pf_current_index P) = length ixs - 2"
    and "map av_address views = instruction_addresses (ixs ! (length ixs - 2))"
    and "process_instruction P prog views (ix_data (ixs ! (length ixs - 2))) accs = Inr accs'"
    and "r \<in> set intents" and "is_order prog accs (client_order_address (cl_platform C) prog (ri_data r))"
    and "intent_try_from (cl_platform C) (order_intent_bytes (acc_data (accs
      (client_order_address (cl_platform C) prog (ri_data r))))) = Inr (ri_data r)"
  shows "let a = client_order_address (cl_platform C) prog (ri_data r);
      before = order_filled_amounts (acc_data (accs a)); after = order_filled_amounts (acc_data (accs' a)) in
    fa_withdrawn before = 0 \<and> fa_withdrawn after = oi_sell_amount (ri_data r) \<and>
    unat (fa_received after) = unat (fa_received before) + unat (oi_buy_amount (ri_data r)) \<and>
    is_order prog accs' a \<and> may_close P' (acc_data (accs' a)) (order_intent_bytes (acc_data (accs' a))) None"
proof -
  let ?sorted = "settle_order C ctx intents" and ?address = "\<lambda>r. client_order_address (cl_platform C) prog (ri_data r)"
  from built_settlement_settles [OF assms(2,3) assms(4,6,8,9) [unfolded prog_def]] obtain now orders pushes where
    settled: "orders_settled P prog now orders pushes accs accs'"
    and pdas: "map order_address orders = map ?address ?sorted"
    and pulls: "map pulled orders = map (\<lambda>r. unat (oi_sell_amount (ri_data r))) ?sorted"
    and paid: "map (\<lambda>p. (pp_source_buffer p, pp_destination p, pp_amount p)) pushes = map (cli_push C ctx) ?sorted"
    unfolding prog_def by blast
  from assms(10) obtain k where k: "k < length ?sorted" "?sorted ! k = r" by (metis in_set_conv_nth set_sort)
  have lens: "length orders = length ?sorted" "length pushes = length ?sorted"
    using arg_cong [OF pdas, of length] arg_cong [OF paid, of length] by simp_all
  have a: "order_address (orders ! k) = ?address r"
    using arg_cong [OF pdas, of "\<lambda>xs. xs ! k"] k lens by simp
  have full: "pulled (orders ! k) = unat (oi_sell_amount (ri_data r))" "pp_amount (pushes ! k) = oi_buy_amount (ri_data r)"
    using arg_cong [OF pulls, of "\<lambda>xs. xs ! k"] arg_cong [OF paid, of "\<lambda>xs. snd (snd (xs ! k))"] k lens
    by (simp_all add: cli_push_def split: Asset.splits)
  have step: "order_settled P prog now accs accs' (orders ! k) (pushes ! k)"
    using settled assms(11) k lens a by (simp add: orders_settled_def list_all2_conv_all_nth)
  have owner: "acc_owner (accs' (?address r)) = prog" using settled assms(11) by (simp add: orders_settled_def)
  have "reachable prog accs'" using assms(5) program_step [OF assms(4,9)] by (rule reachable.stepped)
  note filled = full_settlement_fills [OF step reachable_orders_inv [OF this], unfolded a, OF owner assms(12) full]
  show ?thesis
    using filled owner order_evolves_attached [OF order_settled_evolves [OF step]] by (simp add: Let_def a)
qed

end
