(* ===== verification/EndToEndRun.thy ===== *)
theory EndToEndRun
  imports EndToEnd CliWitnesses Witnesses
begin

text \<open>
  An order's life on the platform of the run, from the tool's side: a trader places an order that
  sells one token account into another of the same mint, the program stores it, and a solver
  settles it with the transaction that the tool builds. The node of the tool reports the chain of
  the run, so the theorems of the composition apply at these steps.
\<close>

section \<open>The chain and a node that reports it\<close>

abbreviation spare_account :: pubkey where "spare_account \<equiv> addr 83"

definition chainE :: accounts where
  "chainE = chain2(spare_account := \<lparr>acc_owner = spl_token, acc_lamports = 5,
     acc_data = Run.token_data buy_mint trader 9\<rparr>)"

lemma chainE_reachable: "reachable program chainE"
proof -
  have "acc_owner (chain2 spare_account) \<noteq> program" by (simp add: chain2_def chain1_def chain0_def)
  then have "owned_frame program chain2 chainE" by (auto simp: owned_frame_def chainE_def)
  then show ?thesis by (intro reachable.stepped [OF chain2_reachable] external_step)
qed

lemma chainE_accounts:
  "chainE spare_account = \<lparr>acc_owner = spl_token, acc_lamports = 5, acc_data = Run.token_data buy_mint trader 9\<rparr>"
  "chainE buy_account = \<lparr>acc_owner = spl_token, acc_lamports = 5, acc_data = Run.token_data buy_mint trader 0\<rparr>"
  "chainE buy_mint = \<lparr>acc_owner = spl_token, acc_lamports = 5, acc_data = [1]\<rparr>"
  "chainE buy_buffer = \<lparr>acc_owner = spl_token, acc_lamports = 5, acc_data = Run.token_data buy_mint state_pda 70\<rparr>"
  "chainE order_pda = \<lparr>acc_owner = system_program, acc_lamports = 0, acc_data = []\<rparr>"
  "chainE state_pda = \<lparr>acc_owner = program, acc_lamports = 10, acc_data = one_solver\<rparr>"
  by (simp_all add: chainE_def chain2_def chain1_def chain0_def)

section \<open>The order\<close>

definition refill :: OrderIntent where
  "refill = \<lparr>oi_owner = trader, oi_sell = \<lparr>ta_mint = buy_mint, ta_token_account = spare_account\<rparr>,
     oi_buy = AssetToken \<lparr>ta_mint = buy_mint, ta_token_account = buy_account\<rparr>, oi_sell_amount = 3,
     oi_buy_amount = 2, oi_valid_to = 1000, oi_flags = \<lparr>fl_kind = Sell, fl_partially_fillable = True\<rparr>,
     oi_app_data = addr 0\<rparr>"

definition refill_bytes :: bytes where
  "refill_bytes = intent_encode toy refill"

lemma refill_wf [simp]: "wf_intent (toy_at now ixs i) refill"
  by (simp add: wf_intent_def refill_def ENCODED_NATIVE_SOL_TRANSFER_def toy_at_def)

lemma refill_encode [simp]: "intent_encode (toy_at now ixs i) refill = refill_bytes"
  by (simp add: refill_bytes_def intent_encode_def refill_def)

lemma refill_decode [simp]: "intent_try_from (toy_at now ixs i) refill_bytes = Inr refill"
  using intent_try_from_encode [OF refill_wf, of now ixs i] by simp

lemma refill_checked [simp]: "check_bytes refill_bytes = Inr ()"
  using check_bytes_encode [OF refill_wf, of 100 "[]" 0] by simp

lemma length_refill_bytes [simp]: "length refill_bytes = INTENT_SIZE"
  unfolding refill_bytes_def by (rule length_intent_encode)

lemma refill_reads:
  "ia_owner refill_bytes = trader" "ia_sell_token_account refill_bytes = spare_account"
  "ia_sell_mint refill_bytes = buy_mint" "ia_buy_mint refill_bytes = buy_mint"
  "ia_buy_token_account refill_bytes = buy_account" "ia_sell_amount refill_bytes = Inr 3"
  "ia_buy_amount refill_bytes = Inr 2" "ia_valid_to refill_bytes = 1000"
  "ia_flags refill_bytes = Inr \<lparr>fl_kind = Sell, fl_partially_fillable = True\<rparr>"
  using accessor_agrees [OF refill_decode] by (simp_all add: refill_def)

lemma refill_hash [simp]: "hash_bytes (toy_at now ixs i) refill_bytes = addr 70"
  by (simp add: hash_bytes_def toy_at_def refill_bytes_def intent_encode_def refill_def)

lemma refill_uid [simp]: "intent_uid (toy_at now ixs i) refill = addr 70"
  using refill_hash by (simp add: intent_uid_def)

lemma refill_address [simp]: "client_order_address (toy_at now ixs i) program refill = order_pda"
  by (simp add: client_order_address_def find_order_pda_def)

definition refill_order :: "u64 \<Rightarrow> u64 \<Rightarrow> bytes" where
  "refill_order w r = [ORDER_DISCRIMINATOR] @ [255] @ [0] @ to_le 8 w @ to_le 8 r @ to_bytes trader @ refill_bytes"

lemma refill_order_init:
  "length bs = ORDER_SIZE \<Longrightarrow> order_initialize bs 255 False w r trader refill_bytes = Inr (refill_order w r)"
  by (simp add: order_initialize_def refill_order_def)

lemmas refill_order_reads =
  order_initialize_reads [OF refill_order_init [of "replicate ORDER_SIZE 0", simplified] length_refill_bytes]

text \<open>The accounts with the order at given counters, and after its sell amount has been pulled into the buffer.\<close>

definition chainO :: "u64 \<Rightarrow> u64 \<Rightarrow> accounts" where
  "chainO w r = chainE(order_pda := \<lparr>acc_owner = program, acc_lamports = 10, acc_data = refill_order w r\<rparr>)"

definition pulled_refill :: "accounts \<Rightarrow> accounts" where
  "pulled_refill accs = accs
     (spare_account := \<lparr>acc_owner = spl_token, acc_lamports = 5, acc_data = Run.token_data buy_mint trader 6\<rparr>,
      buy_buffer := \<lparr>acc_owner = spl_token, acc_lamports = 5, acc_data = Run.token_data buy_mint state_pda 73\<rparr>)"

abbreviation refill_views :: "account_view list" where
  "refill_views \<equiv> [signing trader, signing trader, plain order_pda, plain system_program]"

lemma run_create_refill:
  "process_instruction toy program refill_views (ix_discriminator CreateOrder # refill_bytes) chainE = Inr (chainO 0 0)"
proof -
  have uid: "ia_uid toy refill_bytes = addr 70" by (simp add: ia_uid_def)
  have "process_new_onchain_order toy program (plain order_pda) refill_bytes trader (signing trader) False chainE =
      Inr (chainO 0 0)"
    by (simp add: process_new_onchain_order_def ia_attach_def refill_reads toy_creates order_pda_seeds_def uid
        refill_order_init chainE_accounts chainO_def set_data_def del: to_bytes_fill32)
  then show ?thesis
    by (simp add: process_instruction_def process_create_order_def create_order_parse_body_def
        del: ix_discriminator.simps)
qed

text \<open>The tool's node: world 0 is before the order, any other world after.\<close>

definition market :: "nat \<Rightarrow> accounts" where
  "market w = (if w = 0 then chainE else chainO 0 0)"

definition market_cli :: "nat cli" where
  "market_cli = toy_cli\<lparr>cl_get_account := \<lambda>w k. Some (market w k),
     cl_get_account_data := \<lambda>w k. Some (acc_data (market w k)),
     cl_unpack_token_account := \<lambda>d. if length d = 72 then Some (new_from_array (slice 0 32 d), from_le (slice 64 8 d)) else None\<rparr>"

abbreviation trader_desk :: Context where
  "trader_desk \<equiv> \<lparr>cx_signer = trader, cx_program_id = program, cx_squads = None\<rparr>"

abbreviation solver_desk :: Context where
  "solver_desk \<equiv> \<lparr>cx_signer = solver, cx_program_id = program, cx_squads = None\<rparr>"

lemma market_platform [simp]: "cl_platform market_cli = toy"
  by (simp add: market_cli_def toy_cli_def)

lemma market_token_program: "token_program_of market_cli \<lparr>acc_owner = spl_token, acc_lamports = l, acc_data = d\<rparr> = Inr SplToken"
  by (simp add: token_program_of_def token_program_try_from_def token_program_all_def toy_at_def)

lemma market_unpack: "cl_unpack_token_account market_cli (Run.token_data mint owner amount) = Some (mint, amount)"
  by (simp add: market_cli_def Run.token_data_def layout_simps)

lemma market_accounts:
  "cl_get_account market_cli 0 spare_account = Some (chainE spare_account)"
  "cl_get_account market_cli 0 buy_account = Some (chainE buy_account)"
  "cl_get_account market_cli 0 buy_mint = Some (chainE buy_mint)"
  "\<exists>a. cl_get_account market_cli 1 k = Some a"
  by (simp_all add: market_cli_def market_def)

section \<open>Placing it\<close>

abbreviation refill_terms :: "string list" where
  "refill_terms \<equiv> [''abc'', toy_show spare_account, ''for'', ''ab'', toy_show buy_account]"

lemma market_resolves:
  assumes "k = spare_account \<or> k = buy_account"
  shows "resolve market_cli 0 owner (toy_show k) =
    Inr \<lparr>td_handle = \<lparr>ti_account = k, ti_mint = buy_mint, ti_token_program = SplToken\<rparr>, td_decimals = 1, td_create_ata = None\<rparr>"
proof -
  have "length (to_uppercase market_cli (toy_show k)) = 32"
    by (simp add: to_uppercase_def market_cli_def toy_cli_def toy_show_def)
  then have "to_uppercase market_cli (toy_show k) \<noteq> ''SOL''" "to_uppercase market_cli (toy_show k) \<noteq> ''WSOL''" by auto
  moreover have "cl_pubkey_from_str market_cli (toy_show k) = Some k"
    by (simp add: market_cli_def toy_cli_def toy_read_show)
  moreover have "cl_unpack_mint market_cli [1] = Some 1" by (simp add: market_cli_def toy_cli_def)
  ultimately show ?thesis
    using assms
    by (auto simp: resolve_def interpret_token_from_user_input_def fetch_mint_def Let_def market_accounts
        chainE_accounts market_token_program market_unpack)
qed

lemma refill_placed:
  "\<exists>parsed pre approve_ix. order_parse market_cli 0 trader_desk Sell refill_terms = Inr parsed \<and>
    order_instructions market_cli 0 trader_desk parsed sell_three = Inr (pre @ [approve_ix, client_create_order toy
      \<lparr>cco_program_id = program, cco_owner = trader, cco_created_by = trader, cco_intent = refill\<rparr>], refill)"
proof -
  have amount: "cl_ui_amount market_cli s d = Some (of_nat (length s))" for s d by (simp add: market_cli_def toy_cli_def)
  have "length (map ascii_lower (toy_show spare_account)) \<noteq> length (map ascii_lower ''sol'')"
    by (simp add: toy_show_length)
  then have "\<not> eq_ignore_ascii_case (toy_show spare_account) ''sol''"
    unfolding eq_ignore_ascii_case_def by metis
  then have "order_parse market_cli 0 trader_desk Sell refill_terms = Inr
      \<lparr>po_kind = Sell,
       po_sell = \<lparr>td_handle = \<lparr>ti_account = spare_account, ti_mint = buy_mint, ti_token_program = SplToken\<rparr>, td_decimals = 1, td_create_ata = None\<rparr>,
       po_sell_amount = 3, po_sell_is_sol = False,
       po_buy = \<lparr>td_handle = \<lparr>ti_account = buy_account, ti_mint = buy_mint, ti_token_program = SplToken\<rparr>, td_decimals = 1, td_create_ata = None\<rparr>,
       po_buy_amount = 2\<rparr>" (is "_ = Inr ?parsed")
    by (simp add: order_parse_def counter_terms_def market_resolves resolve_amount_def amount nonzero_new_def)
  moreover have "\<exists>approve_ix. approve market_cli program (td_handle (po_sell ?parsed)) trader 3 = Inr approve_ix"
    by (simp add: approve_def market_cli_def toy_cli_def)
  moreover have "asset_try_from toy \<lparr>ta_mint = buy_mint, ta_token_account = buy_account\<rparr> =
      Inr (AssetToken \<lparr>ta_mint = buy_mint, ta_token_account = buy_account\<rparr>)"
    by (simp add: asset_try_from_def ENCODED_NATIVE_SOL_TRANSFER_def toy_at_def)
  ultimately show ?thesis
    by (auto simp: order_instructions_def Let_def ctx_payer_def create_ata_ix_def refill_def)
qed

lemma refill_instruction:
  "ix_data (client_create_order toy \<lparr>cco_program_id = program, cco_owner = trader, cco_created_by = trader, cco_intent = refill\<rparr>) =
    ix_discriminator CreateOrder # refill_bytes"
  "instruction_addresses (client_create_order toy \<lparr>cco_program_id = program, cco_owner = trader, cco_created_by = trader, cco_intent = refill\<rparr>) =
    map av_address refill_views"
  by (simp_all add: client_create_order_def create_order_instruction_def Let_def find_order_pda_def)
    (simp add: toy_at_def)

theorem cli_order_survives_witness:
  "\<exists>parsed ixs. order_parse market_cli 0 trader_desk Sell refill_terms = Inr parsed \<and>
     order_instructions market_cli 0 trader_desk parsed sell_three = Inr (ixs, refill) \<and>
     process_instruction toy program refill_views (ix_data (last ixs)) chainE = Inr (chainO 0 0) \<and>
     is_order program (chainO 0 0) order_pda \<and>
     fetch_order_intent market_cli 1 trader_desk (OrderUid (addr 70)) = Inr refill"
proof -
  from refill_placed obtain parsed pre approve_ix where
    parsed: "order_parse market_cli 0 trader_desk Sell refill_terms = Inr parsed"
    and ixs: "order_instructions market_cli 0 trader_desk parsed sell_three = Inr (pre @ [approve_ix, client_create_order toy
      \<lparr>cco_program_id = program, cco_owner = trader, cco_created_by = trader, cco_intent = refill\<rparr>], refill)"
    by blast
  have now: "run_without_closing program order_pda (chainO 0 0) (chainO 0 0)" by (simp add: run_without_closing_def)
  have report: "cl_get_account_data market_cli 1 order_pda = Some (acc_data (chainO 0 0 order_pda))"
    by (simp add: market_cli_def market_def)
  show ?thesis
    using cli_order_survives [OF parsed ixs, of toy chainE refill_views "chainO 0 0" "chainO 0 0" 1]
      parsed ixs run_create_refill chainE_reachable now report
    by (auto simp: refill_instruction simp del: ix_discriminator.simps)
qed

section \<open>Settling it\<close>

definition refill_intent :: ResolvedIntent where
  "refill_intent = \<lparr>ri_data = refill,
     ri_sell = \<lparr>ti_account = spare_account, ti_mint = buy_mint, ti_token_program = SplToken\<rparr>,
     ri_buy = \<lparr>ti_account = buy_account, ti_mint = buy_mint, ti_token_program = SplToken\<rparr>\<rparr>"

text \<open>No buffer is missing, so the transaction is the two settlement instructions.\<close>

definition market_ixs :: "instruction list" where
  "market_ixs =
    [begin_settle_layout toy (client_begin_settle_builder toy (fst (settle_builders market_cli solver_desk [refill_intent] 0 1))),
     client_finalize_settle toy (snd (settle_builders market_cli solver_desk [refill_intent] 0 1))]"

lemma refill_settles: "settle_instructions market_cli 1 solver_desk [refill_intent] = Inr market_ixs"
proof -
  have order: "cl_order_tally market_cli = (\<lambda>xs. xs)" "cl_order_groups market_cli = rev"
    by (simp_all add: market_cli_def toy_cli_def)
  obtain a where "cl_get_account market_cli 1 (addr 191) = Some a" using market_accounts(4) by blast
  then have "prepare_setup_loop market_cli 1 solver_desk [refill_intent] ([], [], []) = Inr ([(buy_mint, 3)], [(buy_mint, 2)], [])"
    by (simp add: refill_intent_def refill_def tally_and_register_buffer_def Let_def)
  then have "prepare_setup_ixs market_cli 1 solver_desk [refill_intent] = Inr []"
    by (simp add: prepare_setup_ixs_def ensure_cow_balance_def order unwrap_or_def)
  moreover have "client_begin_settle toy (fst (settle_builders market_cli solver_desk [refill_intent] 0 1)) =
      Inr (begin_settle_layout toy (client_begin_settle_builder toy (fst (settle_builders market_cli solver_desk [refill_intent] 0 1))))"
    by (simp add: client_begin_settle_def begin_settle_instruction_def client_begin_settle_builder_def settle_builders_def)
  ultimately show ?thesis by (simp add: settle_instructions_def Let_def case_prod_beta market_ixs_def)
qed

abbreviation market_begin_data :: bytes where
  "market_begin_data \<equiv> ix_discriminator BeginSettle # to_le 2 (1 :: u16) @ to_le 8 (0 :: u64) @ [1] @ [1] @ to_le 8 (3 :: u64)"

abbreviation market_begin_views :: "account_view list" where
  "market_begin_views \<equiv> [signing solver, plain (addr 203), plain state_pda, plain spl_token, plain (addr 202),
     plain order_pda, plain spare_account, plain (addr 203), plain buy_buffer]"

lemma market_platform_keys:
  "pf_instructions_sysvar_id toy = addr 203" "pf_spl_token_id toy = spl_token" "pf_token_2022_id toy = addr 202"
  by (simp_all add: toy_at_def)

lemma market_state_pda: "pf_find_program_address toy STATE_PDA_SEEDS program = (state_pda, 255)"
  by (simp add: toy_at_def toy_find_def STATE_PDA_SEEDS_def)

lemma refill_fields:
  "oi_sell_amount refill = 3" "oi_buy_amount refill = 2" "ta_token_account (oi_sell refill) = spare_account"
  "oi_buy refill = AssetToken \<lparr>ta_mint = buy_mint, ta_token_account = buy_account\<rparr>"
  by (simp_all add: refill_def)

lemma market_begin:
  "ix_program_id (market_ixs ! 0) = program" "ix_data (market_ixs ! 0) = market_begin_data"
  "instruction_addresses (market_ixs ! 0) = map av_address market_begin_views"
  by (simp_all add: market_ixs_def begin_settle_layout_def client_begin_settle_builder_def settle_builders_def
      begin_settle_order_def initialized_intents_map refill_intent_def refill_fields token_program_metas_def
      token_program_all_def find_state_pda_def ctx_payer_def initialized_intent_sell_mint_def MINT_PLACEHOLDER_def
      market_platform_keys market_state_pda)

abbreviation market_finalize_data :: bytes where
  "market_finalize_data \<equiv> ix_discriminator FinalizeSettle # to_le 2 (0 :: u16) @ [255] @ to_le 8 (2 :: u64)"

lemma market_finalize:
  "ix_program_id (market_ixs ! 1) = program" "ix_data (market_ixs ! 1) = market_finalize_data"
  "instruction_addresses (market_ixs ! 1) =
    [addr 203, state_pda, spl_token, addr 202, buy_buffer, buy_account, addr 203]"
  by (simp_all add: market_ixs_def client_finalize_settle_def instruction_from_pushes_def finalize_settle_instruction_def
      pushes_builder_def settle_builders_def finalized_intents_def refill_intent_def refill_fields finalized_intent_push_def
      token_program_metas_def token_program_all_def find_state_pda_def MINT_PLACEHOLDER_def market_platform_keys
      market_state_pda Let_def)

definition refill_push :: PairedPush where
  "refill_push = \<lparr>pp_source_buffer = buy_buffer, pp_destination = buy_account, pp_bump = 255, pp_amount = 2\<rparr>"

definition settled_refill :: "account_view SettledOrder" where
  "settled_refill = \<lparr>so_order_pda = plain order_pda, so_sell_token_account = plain spare_account,
     so_sell_mint = plain (addr 203), so_destinations = [plain buy_buffer], so_amounts = [to_le 8 (3 :: u64)]\<rparr>"

definition market_input :: "account_view BeginSettleInput" where
  "market_input = \<lparr>bsi_finalize_ix_index = 1, bsi_auction_id = 0, bsi_solver_account = signing solver,
     bsi_instructions_sysvar_account = plain (addr 203), bsi_state_pda_account = plain state_pda,
     bsi_orders = \<lparr>sos_order_accounts = [plain order_pda, plain spare_account, plain (addr 203), plain buy_buffer],
       sos_counts = [1], sos_amounts = [to_le 8 (3 :: u64)]\<rparr>\<rparr>"

lemma market_parses: "instruction_parse BeginSettle begin_settle_parse_body market_begin_data market_begin_views = Inr market_input"
  unfolding parse_Cons
  by (simp add: begin_settle_parse_body_def market_input_def as_chunks_one usize_checked_mul_def usize_checked_add_def)

lemma market_orders: "settled_orders_iter (bsi_orders market_input) = [Inr settled_refill]"
  by (simp add: market_input_def settled_orders_iter_def settled_refill_def)

lemma market_pushes: "finalize_pushes (market_ixs ! 1) = Inr [refill_push]"
proof -
  have "finalize_push_data market_finalize_data = Inr ([255], [to_le 8 (2 :: u64)])"
    unfolding finalize_push_data_def recover_discriminator_Cons
    by (simp add: split_push_bytes_def as_chunks_one)
  moreover have "push_accounts (market_ixs ! 1) = [(buy_buffer, buy_account)]"
    using push_accounts_triples [of "market_ixs ! 1" "addr 203" state_pda spl_token "addr 202"
      "[[buy_buffer, buy_account, addr 203]]"] market_finalize(3) by simp
  ultimately show ?thesis
    unfolding finalize_pushes_def market_finalize(2) by (simp add: refill_push_def)
qed

lemma run_settle_refill:
  "process_order (toy_at 100 ixs i) program settled_refill refill_push 100 state signers (chainO 0 0) = Inr (pulled_refill (chainO 3 2))"
proof -
  have order: "chainO 0 0 order_pda = \<lparr>acc_owner = program, acc_lamports = 10, acc_data = refill_order 0 0\<rparr>"
    by (simp add: chainO_def)
  have sell: "chainO 0 0 spare_account = \<lparr>acc_owner = spl_token, acc_lamports = 5, acc_data = Run.token_data buy_mint trader 9\<rparr>"
    by (simp add: chainO_def chainE_accounts)
  have price: "validate_limit_price refill_bytes \<lparr>fa_withdrawn = 3, fa_received = 2\<rparr> = Inr ()"
    by (simp add: validate_limit_price_def refill_reads checked_mul_def)
  have amounts: "validated_final_amounts refill_bytes \<lparr>fa_withdrawn = 0, fa_received = 0\<rparr>
      \<lparr>fa_withdrawn = 3, fa_received = 2\<rparr> = Inr \<lparr>fa_withdrawn = 3, fa_received = 2\<rparr>"
    by (simp add: validated_final_amounts_def refill_reads checked_add_def)
  have set_amounts: "order_set_amounts \<lparr>fa_withdrawn = 3, fa_received = 2\<rparr> (refill_order 0 0) = refill_order 3 2"
    by (simp add: order_set_amounts_def refill_order_def splice_def)
  have buffer: "validate_buffer_pda (toy_at 100 ixs i) buy_buffer buy_mint 255 = Inr ()"
    using toy_unknown_mint [of 91 100 ixs i] by simp
  have mint: "read_mint_decimals (toy_at 100 ixs i) borrowed tp (plain (addr 203)) accs = Inr None" for borrowed tp accs
    by (simp add: read_mint_decimals_def maybe_mint_get_def MINT_PLACEHOLDER_def toy_at_def)
  have buffer_before: "chainO 0 0 buy_buffer = \<lparr>acc_owner = spl_token, acc_lamports = 5, acc_data = Run.token_data buy_mint state_pda 70\<rparr>"
    by (simp add: chainO_def chainE_accounts)
  have "toy_transfer [order_pda] spare_account buy_buffer 3 (chainO 0 0) = Inr (pulled_refill (chainO 0 0))"
    using toy_transfers [OF sell buffer_before, of "[order_pda]" 3] by (simp add: pulled_refill_def)
  then have pulls: "process_pulls (toy_at 100 ixs i) [order_pda] tp (plain spare_account) None state signers
      [(plain buy_buffer, to_le 8 (3 :: u64))] 0 (chainO 0 0) = Inr (3, pulled_refill (chainO 0 0))" for tp
    by (simp add: checked_add_def) (simp add: toy_at_def)
  have order_pulled: "pulled_refill (chainO 0 0) order_pda = chainO 0 0 order_pda" by (simp add: pulled_refill_def)
  have load: "order_load_from_pda (toy_at 100 ixs i) (chainO 0 0) (plain order_pda) program = Inr (refill_order 0 0)"
    by (simp add: order_load_from_pda_Inr_iff order_check_pda_def chainO_def refill_order_reads
        is_pda_with_signer_seeds_def order_pda_signer_seeds_def order_intent_uid_def)
  have "set_data order_pda (refill_order 3 2) (pulled_refill (chainO 0 0)) = pulled_refill (chainO 3 2)"
    by (simp add: chainO_def pulled_refill_def set_data_def fun_upd_twist)
  then show ?thesis
    unfolding process_order_def settled_refill_def refill_push_def
    by (simp add: Let_def load refill_order_reads ia_from_order_def ia_attach_def refill_reads buffer toy_tokens sell
        toy_reads_token mint pulls order_pulled order price amounts set_amounts del: process_pulls.simps)
qed

lemma run_market_begin:
  "process_begin_settle (toy_at 100 market_ixs 0) program market_begin_views market_begin_data (chainO 0 0) = Inr (pulled_refill (chainO 3 2))"
proof -
  have index: "unat (1 :: u16) = 1" by simp
  have len: "length market_ixs = 2" by (simp add: market_ixs_def)
  have counterpart: "validate_counterpart program market_ixs 0 1 FinalizeSettle = Inr ()"
    unfolding validate_counterpart_def load_instruction_at_def
    by (simp add: len market_finalize [unfolded One_nat_def] del: ix_discriminator.simps)
  have nested: "validate_no_nested_settlement program market_ixs 0 1 = Inr ()"
    by (simp add: validate_no_nested_settlement_def checked_add_def)
  have state: "chainO 0 0 state_pda = \<lparr>acc_owner = program, acc_lamports = 10, acc_data = one_solver\<rparr>"
    by (simp add: chainO_def chainE_accounts)
  have platform: "pf_stack_height (toy_at 100 market_ixs 0) = 1" "pf_current_index (toy_at 100 market_ixs 0) = 0"
      "pf_instructions (toy_at 100 market_ixs 0) = market_ixs" "pf_instructions_sysvar_id (toy_at 100 market_ixs 0) = addr 203"
      "pf_clock (toy_at 100 market_ixs 0) = Inr 100"
    by (simp_all add: toy_at_def)
  have settled: "settle_orders (toy_at 100 market_ixs 0) program (plain state_pda) signers (bsi_orders market_input)
      (market_ixs ! 1) (chainO 0 0) = Inr (pulled_refill (chainO 3 2))" for signers
    by (simp add: settle_orders_def platform market_pushes [unfolded One_nat_def] market_orders run_settle_refill)
  show ?thesis
    unfolding process_begin_settle_def market_parses
    by (simp add: is_cpi_call_def TRANSACTION_LEVEL_STACK_HEIGHT_def platform settled [unfolded market_input_def, simplified]
        market_input_def require_solver_def state one_solver_reads instructions_try_from_def counterpart nested
        load_instruction_at_def with_state_pda_signer_def validate_is_state_pda_def STATE_PDA_def [symmetric] len)
qed

theorem cli_settlement_fills_orders_witness:
  "settle_instructions market_cli 1 solver_desk [refill_intent] = Inr market_ixs \<and>
   process_instruction (toy_at 100 market_ixs 0) program market_begin_views (ix_data (market_ixs ! 0)) (chainO 0 0) =
     Inr (pulled_refill (chainO 3 2)) \<and>
   fa_withdrawn (order_filled_amounts (acc_data (pulled_refill (chainO 3 2) order_pda))) = 3 \<and>
   may_close toy (acc_data (pulled_refill (chainO 3 2) order_pda)) (order_intent_bytes (acc_data (pulled_refill (chainO 3 2) order_pda))) None"
proof -
  have run: "process_instruction (toy_at 100 market_ixs 0) program market_begin_views market_begin_data (chainO 0 0) =
      Inr (pulled_refill (chainO 3 2))"
    using run_market_begin by (simp add: process_instruction_def del: ix_discriminator.simps)
  have order: "is_order program (chainO 0 0) order_pda"
    "order_intent_bytes (acc_data (chainO 0 0 order_pda)) = refill_bytes"
    by (simp_all add: chainO_def refill_order_reads)
  have "reachable program (chainO 0 0)"
    by (rule run_reachable_step [OF chainE_reachable run_create_refill])
  moreover have "pf_instructions (toy_at 100 market_ixs 0) = market_ixs" "pf_current_index (toy_at 100 market_ixs 0) = 0"
    by (simp_all add: toy_at_def)
  moreover have "length market_ixs - 2 = 0" by (simp add: market_ixs_def)
  moreover have "client_order_address (cl_platform market_cli) program (ri_data refill_intent) = order_pda"
    by (simp add: refill_intent_def)
  moreover have "oi_sell_amount (ri_data refill_intent) = 3" "ri_data refill_intent = refill"
    by (simp_all add: refill_intent_def refill_fields)
  ultimately show ?thesis
    using cli_settlement_fills_orders [OF refill_settles, of "toy_at 100 market_ixs 0" "chainO 0 0" market_begin_views
      "pulled_refill (chainO 3 2)" refill_intent toy] refill_settles run order market_begin
    by (simp add: Let_def del: ix_discriminator.simps)
qed

end
