(* ===== verification/Fills.thy ===== *)
theory Fills
  imports Processor
begin

text \<open>
  Only \<open>BeginSettle\<close> moves the counters of an order. Every other handler either leaves an order as
  it is, or closes it, or creates one with nothing filled; the contract \<open>fill_preserving\<close> says so
  looking back from the accounts after, so that it composes over any number of steps.
\<close>

section \<open>The contract\<close>

definition no_fill :: "pubkey \<Rightarrow> accounts \<Rightarrow> accounts \<Rightarrow> bool" where
  "no_fill prog accs accs' \<longleftrightarrow>
     (\<forall>a. is_order prog accs' a \<longrightarrow>
        order_filled_amounts (acc_data (accs' a)) = \<lparr>fa_withdrawn = 0, fa_received = 0\<rparr> \<or>
        is_order prog accs a \<and> order_intent_bytes (acc_data (accs' a)) = order_intent_bytes (acc_data (accs a)) \<and>
        order_filled_amounts (acc_data (accs' a)) = order_filled_amounts (acc_data (accs a)))"

locale fill_preserving =
  fixes handle :: handler
  assumes keeps_fills: "runtime_rules P prog \<Longrightarrow> handle P prog views data accs = Inr accs' \<Longrightarrow> no_fill prog accs accs'"
begin

lemma fills_do_not_grow:
  "runtime_rules P prog \<Longrightarrow> handle P prog views data accs = Inr accs' \<Longrightarrow> is_order prog accs' a \<Longrightarrow>
    is_order prog accs a \<Longrightarrow>
    order_filled_amounts (acc_data (accs' a)) \<in>
      {\<lparr>fa_withdrawn = 0, fa_received = 0\<rparr>, order_filled_amounts (acc_data (accs a))}"
  using keeps_fills unfolding no_fill_def by blast

end

section \<open>Steps that fill nothing\<close>

lemma no_fill_refl [simp]: "no_fill prog accs accs"
  by (simp add: no_fill_def)

lemma no_fill_trans: "no_fill prog a b \<Longrightarrow> no_fill prog b c \<Longrightarrow> no_fill prog a c"
  unfolding no_fill_def by metis

lemma zeroed_no_order: "zeroed d \<Longrightarrow> order_attach d \<noteq> Inr d"
  by (cases d) (auto simp: zeroed_def order_attach_Inr_iff slice_def ORDER_DISCRIMINATOR_def)

lemma no_fill_frame: "owned_frame prog accs accs' \<Longrightarrow> no_fill prog accs accs'"
  unfolding no_fill_def owned_frame_def by (metis zeroed_no_order)

lemma no_fill_same:
  "(\<And>a. acc_owner (accs' a) = acc_owner (accs a) \<and> acc_data (accs' a) = acc_data (accs a)) \<Longrightarrow> no_fill prog accs accs'"
  by (simp add: no_fill_def)

text \<open>Overwriting one account with what is no order, or an order with nothing filled, or the same fill.\<close>

lemma no_fill_replace:
  assumes frame: "owned_frame prog accs mid"
    and other: "\<And>b. b \<noteq> a \<Longrightarrow> acc_owner (accs' b) = acc_owner (mid b) \<and> acc_data (accs' b) = acc_data (mid b)"
    and new: "is_order prog accs' a \<Longrightarrow>
      order_filled_amounts (acc_data (accs' a)) = \<lparr>fa_withdrawn = 0, fa_received = 0\<rparr> \<or>
      is_order prog mid a \<and> order_intent_bytes (acc_data (accs' a)) = order_intent_bytes (acc_data (mid a)) \<and>
      order_filled_amounts (acc_data (accs' a)) = order_filled_amounts (acc_data (mid a))"
  shows "no_fill prog accs accs'"
proof -
  have "no_fill prog mid accs'" using other new unfolding no_fill_def by metis
  then show ?thesis by (rule no_fill_trans [OF no_fill_frame [OF frame]])
qed

lemma state_write_no_fill:
  assumes "owned_frame prog accs mid" and "slice 0 1 (acc_data (accs' a)) \<noteq> [ORDER_DISCRIMINATOR]"
    and "\<And>b. b \<noteq> a \<Longrightarrow> acc_owner (accs' b) = acc_owner (mid b) \<and> acc_data (accs' b) = acc_data (mid b)"
  shows "no_fill prog accs accs'"
  using assms by (intro no_fill_replace [of prog accs mid a accs']) (simp_all add: order_attach_Inr_iff)

section \<open>The order handlers\<close>

lemma process_new_onchain_order_no_fill:
  assumes rules: "runtime_rules P prog" and len: "length intent = INTENT_SIZE"
    and run: "process_new_onchain_order P prog v intent expected by_v c accs = Inr accs'"
  shows "no_fill prog accs accs'"
proof -
  from run obtain bump mid order where "check_bytes intent = Inr ()" "expected = ia_owner intent"
    and mid: "create_idempotent P \<lparr>cp_program_id = prog, cp_payer = by_v, cp_pda = v, cp_size = of_nat ORDER_SIZE,
          cp_owner = prog, cp_seeds = order_pda_seeds (hash_bytes P intent)\<rparr> accs = Inr (True, bump, mid)"
    and order: "order_initialize (acc_data (view_account mid v)) bump c 0 0 (av_address by_v) intent = Inr order"
    and accs': "accs' = set_data (av_address v) order mid"
    by (rule process_new_onchain_order_Inr)
  have "owned_frame prog accs mid"
    using create_idempotent_frame [OF _ mid] rules by (simp add: runtime_rules_def)
  then show ?thesis
    using order_initialize_reads(6) [OF order len]
    by (intro no_fill_replace [of prog accs mid "av_address v" accs']) (simp_all add: accs')
qed

interpretation create_order_fills: fill_preserving process_create_order
  by unfold_locales
    (auto simp: process_create_order_def bindE_Inr_iff instruction_parse_Inr_iff
      dest: process_new_onchain_order_no_fill [OF _ length_create_order_intent] split: if_splits)

interpretation create_settlement_owned_order_fills: fill_preserving process_create_settlement_owned_order
  by unfold_locales
    (auto simp: process_create_settlement_owned_order_def bindE_Inr_iff instruction_parse_Inr_iff
      dest: process_new_onchain_order_no_fill [OF _ length_create_settlement_owned_order_intent] split: if_splits)

lemma process_cancel_order_no_fill:
  assumes rules: "runtime_rules P prog" and run: "process_cancel_order P prog views data accs = Inr accs'"
  shows "no_fill prog accs accs'"
  using run
proof (cases rule: process_cancel_order_Inr)
  case (existing v)
  then have "length (acc_data (view_account accs v)) = ORDER_SIZE" by (simp add: order_attach_Inr_iff)
  with existing show ?thesis
    by (intro no_fill_replace [OF owned_frame_refl, of "av_address v"]) (simp_all add: order_set_cancelled_reads)
next
  case (created v intent expected by_v)
  then show ?thesis using process_new_onchain_order_no_fill [OF rules] by blast
qed

interpretation cancel_order_fills: fill_preserving process_cancel_order
  by unfold_locales (rule process_cancel_order_no_fill)

interpretation reclaim_order_fills: fill_preserving "\<lambda>P prog. process_reclaim_order P"
proof
  fix P prog accs views data accs'
  assume rules: "runtime_rules P prog" and run: "process_reclaim_order P views data accs = Inr accs'"
  from run obtain order_v recipient rest credited closed where
    "views = order_v # recipient # rest" "is_reclaimable P order_v recipient (first rest) accs = Inr True"
    "unat credited = unat (acc_lamports (view_account accs recipient)) + unat (acc_lamports (view_account accs order_v))"
    and close: "pf_close P (set_lamports (av_address recipient) credited accs (av_address order_v)) = Inr closed"
    and accs': "accs' = (set_lamports (av_address recipient) credited accs)(av_address order_v := closed)"
    by (rule process_reclaim_order_Inr)
  have "closed = \<lparr>acc_owner = pf_system_program_id P, acc_lamports = 0, acc_data = []\<rparr>"
    using rules close unfolding runtime_rules_def close_spec_def by blast
  then show "no_fill prog accs accs'"
    by (intro state_write_no_fill [where a = "av_address order_v", OF owned_frame_refl]) (simp_all add: accs' slice_def)
qed

section \<open>The other handlers\<close>

interpretation create_buffer_fills: fill_preserving process_create_buffer
  by unfold_locales
    (auto simp: process_create_buffer_def bindE_Inr_iff runtime_rules_def
      intro: no_fill_frame create_buffers_loop_frame)

interpretation reclaim_buffer_fills: fill_preserving process_reclaim_buffer
  by unfold_locales
    (auto simp: process_reclaim_buffer_def with_state_pda_signer_def bindE_Inr_iff runtime_rules_def
      intro: no_fill_frame reclaim_buffers_loop_frame split: if_splits)

interpretation finalize_settle_fills: fill_preserving process_finalize_settle
proof
  fix P prog accs views data accs'
  assume rules: "runtime_rules P prog" and run: "process_finalize_settle P prog views data accs = Inr accs'"
  from run obtain input :: "account_view FinalizeSettleInput" where
    "push_funds P (fsi_state_pda_account input) [STATE_PDA_SIGNER_SEEDS P] (fsi_pushes input) accs = Inr accs'"
    by (rule process_finalize_settle_Inr) blast
  then obtain mid used where
    tokens: "push_tokens_loop P (fsi_state_pda_account input) [STATE_PDA_SIGNER_SEEDS P] (pushes_iter (fsi_pushes input)) accs = Inr mid"
    and native: "push_native_loop P (pushes_iter (fsi_pushes input)) False mid = Inr (used, accs')"
    by (rule push_funds_Inr) blast
  have "owned_frame prog accs mid"
    using push_tokens_loop_frame [OF _ tokens] rules by (simp add: runtime_rules_def)
  then show "no_fill prog accs accs'"
    using no_fill_trans [OF no_fill_frame no_fill_same] push_native_loop_effect(1) [OF native] by blast
qed

interpretation withdraw_native_sol_fills: fill_preserving "\<lambda>P prog. process_withdraw_native_sol P"
proof
  fix P prog accs views data accs'
  assume "process_withdraw_native_sol P views data accs = Inr accs'"
  then obtain source dest amount where "move_lamports source dest amount accs = Inr accs'"
    by (auto simp: process_withdraw_native_sol_def bindE_Inr_iff Let_def split: if_splits)
  then show "no_fill prog accs accs'"
    using move_lamports_frame(1,2) by (intro no_fill_same) blast
qed

interpretation initialize_fills: fill_preserving process_initialize
proof
  fix P prog accs views data accs'
  assume rules: "runtime_rules P prog" and run: "process_initialize P prog views data accs = Inr accs'"
  from run obtain payer state_v native_v rest input bump mid bump' mid' d where
    "views = payer # state_v # native_v # rest" "av_is_signer payer" "av_address payer = INITIALIZER"
    "initialize_parse_body (tl data) views = Inr input" "av_address state_v = STATE_PDA P"
    and mid: "create_idempotent P \<lparr>cp_program_id = prog, cp_payer = payer, cp_pda = state_v,
        cp_size = of_nat WIDTH_HEADER, cp_owner = prog, cp_seeds = STATE_PDA_SEEDS\<rparr> accs = Inr (True, bump, mid)"
    and mid': "create_idempotent P \<lparr>cp_program_id = prog, cp_payer = payer, cp_pda = native_v,
        cp_size = 0, cp_owner = prog, cp_seeds = NATIVE_SOL_BUFFER_PDA_SEEDS\<rparr> mid = Inr (True, bump', mid')"
    and d: "state_initialize (acc_data (mid' (STATE_PDA P)))
       \<lparr>sia_manager = ini_manager input, sia_solver_authority = ini_solver_authority input,
        sia_reclaim_authority = ini_reclaim_authority input,
        sia_settlement_owned_order_authority = ini_settlement_owned_order_authority input\<rparr> = Inr d"
    and accs': "accs' = set_data (STATE_PDA P) d mid'"
    by (rule process_initialize_Inr)
  have frame: "owned_frame prog accs mid'"
    using owned_frame_trans [OF create_idempotent_frame [OF _ mid] create_idempotent_frame [OF _ mid']] rules
    by (simp add: runtime_rules_def)
  have "slice 0 1 d = [STATE_DISCRIMINATOR]"
    using d by (auto simp: state_initialize_def splice_def slice_def result_simps)
  then show "no_fill prog accs accs'"
    using state_discriminator_not_order
    by (intro state_write_no_fill [where a = "STATE_PDA P", OF frame]) (simp_all add: accs')
qed

interpretation add_solver_fills: fill_preserving "\<lambda>P prog. process_add_solver P"
proof
  fix P prog accs views data accs'
  assume rules: "runtime_rules P prog" and run: "process_add_solver P views data accs = Inr accs'"
  from run obtain payer state_v solver mid acc d where
    mid: "mid = accs \<or> (\<exists>lamports. pf_invoke P [] (SystemTransfer payer state_v lamports) accs = Inr mid)"
    and acc: "state_attach (acc_data acc) = Inr (acc_data acc)" and d: "insert_solver solver (acc_data acc) = Inr d"
    and accs': "accs' = set_data (STATE_PDA P) d (mid(STATE_PDA P := acc))"
    by (rule process_add_solver_Inr) blast
  have frame: "owned_frame prog accs mid"
    using mid rules by (auto simp: runtime_rules_def intro: invoke_frameD)
  have "slice 0 1 d = [STATE_DISCRIMINATOR]"
    using insert_solver_discriminator [OF d] acc by (simp add: state_attach_Inr_iff)
  then show "no_fill prog accs accs'"
    using state_discriminator_not_order
    by (intro state_write_no_fill [where a = "STATE_PDA P", OF frame]) (simp_all add: accs')
qed

interpretation remove_solver_fills: fill_preserving "\<lambda>P prog. process_remove_solver P"
proof
  fix P prog accs views data accs'
  assume rules: "runtime_rules P prog" and run: "process_remove_solver P views data accs = Inr accs'"
  from run obtain state_v recipient solver d new_len acc surplus where
    state: "state_attach (acc_data (accs (STATE_PDA P))) = Inr (acc_data (accs (STATE_PDA P)))"
    and d: "remove_solver solver (acc_data (accs (STATE_PDA P))) = Inr (d, new_len)"
    and acc: "pf_resize P (set_data (STATE_PDA P) d accs (STATE_PDA P)) new_len = Inr acc"
    and move: "move_lamports state_v recipient surplus ((set_data (STATE_PDA P) d accs)(STATE_PDA P := acc)) = Inr accs'"
    by (rule process_remove_solver_Inr) blast
  have "acc_data acc = take new_len (d @ replicate (new_len - length d) 0)"
    using resize_specD [OF _ acc] rules by (simp add: runtime_rules_def)
  moreover have "slice 0 1 d = [STATE_DISCRIMINATOR]"
    using remove_solver_discriminator [OF d] state by (simp add: state_attach_Inr_iff)
  ultimately have "slice 0 1 (acc_data acc) \<noteq> [ORDER_DISCRIMINATOR]"
    using state_discriminator_not_order by (cases d; cases new_len) (auto simp: slice_def)
  then show "no_fill prog accs accs'"
    using move_lamports_frame(1,2) [OF move]
    by (intro state_write_no_fill [where a = "STATE_PDA P", OF owned_frame_refl]) simp_all
qed

interpretation transfer_authority_fills: fill_preserving "\<lambda>P prog. process_transfer_authority P"
proof
  fix P prog accs views data accs'
  assume "process_transfer_authority P views data accs = Inr accs'"
  then obtain role new_authority where
    state: "state_attach (acc_data (accs (STATE_PDA P))) = Inr (acc_data (accs (STATE_PDA P)))"
    and accs': "accs' = set_data (STATE_PDA P) (state_set_authority role new_authority (acc_data (accs (STATE_PDA P)))) accs"
    by (rule process_transfer_authority_Inr) blast
  then show "no_fill prog accs accs'"
    using state_discriminator_not_order state_set_authority_reads(2)
    by (intro state_write_no_fill [where a = "STATE_PDA P", OF owned_frame_refl])
      (simp_all add: accs' state_attach_Inr_iff)
qed

section \<open>Every instruction but one\<close>

lemma other_instructions_fill_nothing:
  assumes rules: "runtime_rules P prog"
    and run: "process_instruction P prog views data accs = Inr accs'"
    and other: "\<nexists>body. data = ix_discriminator BeginSettle # body"
  shows "no_fill prog accs accs'"
proof -
  from run obtain i rest where "recover_discriminator data = Inr (i, rest)"
    by (auto simp: process_instruction_def bindE_Inr_iff)
  with run other show ?thesis
    by (cases i)
      (auto simp: process_instruction_def recover_discriminator_Inr_iff simp del: ix_discriminator.simps
        intro: finalize_settle_fills.keeps_fills [OF rules] cancel_order_fills.keeps_fills [OF rules]
          create_order_fills.keeps_fills [OF rules] create_settlement_owned_order_fills.keeps_fills [OF rules]
          initialize_fills.keeps_fills [OF rules] create_buffer_fills.keeps_fills [OF rules]
          reclaim_order_fills.keeps_fills [OF rules] reclaim_buffer_fills.keeps_fills [OF rules]
          transfer_authority_fills.keeps_fills [OF rules] add_solver_fills.keeps_fills [OF rules]
          remove_solver_fills.keeps_fills [OF rules] withdraw_native_sol_fills.keeps_fills [OF rules])
qed

end
