(* ===== verification/Transaction.thy ===== *)
theory Transaction
  imports Fills
begin

text \<open>
  A whole transaction, and what it means for a settlement that transactions are all or nothing.
  The instructions run in order; one of the program's own runs \<open>process_instruction\<close>, one of
  another program may do anything that respects the program's ownership of its accounts, and may
  call the program in turn (like \<open>programs/test/cpi-caller/src/lib.rs\<close>, modelled here). The theorems
  follow \<open>BeginSettle\<close> and \<open>FinalizeSettle\<close> through a transaction that succeeds: they alternate,
  and whatever is withdrawn from an order is paid for before the transaction ends.
\<close>

section \<open>Calls from other programs\<close>

text \<open>
  The forwarder hands its data and its accounts but the first to the program that the first one
  names. \<open>invoke\<close> is the runtime's cross-program invocation.
\<close>

definition meta_of_view :: "account_view \<Rightarrow> account_meta" where
  "meta_of_view v = \<lparr>am_pubkey = av_address v, am_is_signer = av_is_signer v, am_is_writable = av_is_writable v\<rparr>"

fun cpi_caller_process ::
  "(instruction \<Rightarrow> account_view list \<Rightarrow> accounts \<Rightarrow> accounts result) \<Rightarrow> account_view list \<Rightarrow> bytes \<Rightarrow>
   accounts \<Rightarrow> accounts result" where
  "cpi_caller_process invoke [] instruction_data accs = Inl NotEnoughAccountKeys"
| "cpi_caller_process invoke (program # forwarded) instruction_data accs =
     invoke \<lparr>ix_program_id = av_address program, ix_accounts = map meta_of_view forwarded, ix_data = instruction_data\<rparr>
       forwarded accs"

text \<open>The program, called with the stack one frame higher.\<close>

definition invoke_settlement ::
  "platform \<Rightarrow> pubkey \<Rightarrow> instruction \<Rightarrow> account_view list \<Rightarrow> accounts \<Rightarrow> accounts result" where
  "invoke_settlement P prog ix views accs =
     process_instruction (P\<lparr>pf_stack_height := Suc (pf_stack_height P)\<rparr>) prog views (ix_data ix) accs"

lemma settlement_needs_top_level:
  assumes "is_cpi_call P" and "i \<in> {BeginSettle, FinalizeSettle}"
  shows "process_instruction P prog views (ix_discriminator i # body) accs = Inl (serr CalledViaCpi)"
  using assms
  by (auto simp: process_instruction_def process_begin_settle_def process_finalize_settle_def
      simp del: ix_discriminator.simps)

section \<open>A transaction\<close>

text \<open>The platform while top-level instruction \<open>i\<close> runs, and while it has called the program at height \<open>h\<close>.\<close>

definition at_instruction :: "platform \<Rightarrow> instruction list \<Rightarrow> nat \<Rightarrow> nat \<Rightarrow> platform" where
  "at_instruction P ixs i h = P\<lparr>pf_stack_height := h, pf_instructions := ixs, pf_current_index := of_nat i\<rparr>"

abbreviation top_level :: "platform \<Rightarrow> instruction list \<Rightarrow> nat \<Rightarrow> platform" where
  "top_level P ixs i \<equiv> at_instruction P ixs i TRANSACTION_LEVEL_STACK_HEIGHT"

inductive called_step :: "platform \<Rightarrow> pubkey \<Rightarrow> instruction list \<Rightarrow> nat \<Rightarrow> accounts \<Rightarrow> accounts \<Rightarrow> bool"
  for P prog ixs i where
  calls: "TRANSACTION_LEVEL_STACK_HEIGHT < h \<Longrightarrow>
    process_instruction (at_instruction P ixs i h) prog views data accs = Inr accs' \<Longrightarrow>
    called_step P prog ixs i accs accs'"
| elsewhere: "owned_frame prog accs accs' \<Longrightarrow> called_step P prog ixs i accs accs'"

inductive instruction_runs :: "platform \<Rightarrow> pubkey \<Rightarrow> instruction list \<Rightarrow> nat \<Rightarrow> accounts \<Rightarrow> accounts \<Rightarrow> bool"
  for P prog ixs i where
  own: "ix_program_id (ixs ! i) = prog \<Longrightarrow> map av_address views = instruction_addresses (ixs ! i) \<Longrightarrow>
    process_instruction (top_level P ixs i) prog views (ix_data (ixs ! i)) accs = Inr accs' \<Longrightarrow>
    instruction_runs P prog ixs i accs accs'"
| other: "ix_program_id (ixs ! i) \<noteq> prog \<Longrightarrow> (called_step P prog ixs i)\<^sup>*\<^sup>* accs accs' \<Longrightarrow>
    instruction_runs P prog ixs i accs accs'"

inductive_cases called_stepE: "called_step P prog ixs i accs accs'"
inductive_cases instruction_runsE: "instruction_runs P prog ixs i accs accs'"

text \<open>
  A transaction that succeeds: the accounts before and after each instruction. If one instruction
  fails there is no trace, and nothing has happened. The sysvar numbers instructions in 16 bits.
\<close>

definition transaction_trace :: "platform \<Rightarrow> pubkey \<Rightarrow> instruction list \<Rightarrow> accounts list \<Rightarrow> bool" where
  "transaction_trace P prog ixs trace \<longleftrightarrow>
     length ixs < 2 ^ 16 \<and> length trace = Suc (length ixs) \<and>
     (\<forall>i < length ixs. instruction_runs P prog ixs i (trace ! i) (trace ! Suc i))"

lemma at_instruction_simps [simp]:
  "pf_stack_height (at_instruction P ixs i h) = h" "pf_instructions (at_instruction P ixs i h) = ixs"
  "pf_current_index (at_instruction P ixs i h) = of_nat i" "pf_clock (at_instruction P ixs i h) = pf_clock P"
  "STATE_PDA (at_instruction P ixs i h) = STATE_PDA P"
  "runtime_rules (at_instruction P ixs i h) prog = runtime_rules P prog"
  by (simp_all add: at_instruction_def STATE_PDA_def STATE_PDA_AND_BUMP_def program_ID_def runtime_rules_def
      invoke_frame_def create_account_spec_def resize_spec_def close_spec_def)

lemma trace_runs:
  "transaction_trace P prog ixs trace \<Longrightarrow> i < length ixs \<Longrightarrow> instruction_runs P prog ixs i (trace ! i) (trace ! Suc i)"
  by (simp add: transaction_trace_def)

lemma trace_own:
  assumes "transaction_trace P prog ixs trace" and "i < length ixs" and "ix_program_id (ixs ! i) = prog"
  obtains views where "map av_address views = instruction_addresses (ixs ! i)"
    and "process_instruction (top_level P ixs i) prog views (ix_data (ixs ! i)) (trace ! i) = Inr (trace ! Suc i)"
  using trace_runs [OF assms(1,2)] assms(3) that
  by (auto elim!: instruction_runsE)

lemma trace_index:
  "transaction_trace P prog ixs trace \<Longrightarrow> i < length ixs \<Longrightarrow> unat (of_nat i :: u16) = i"
  by (simp add: transaction_trace_def unat_of_nat take_bit_nat_eq_self)

text \<open>Every instruction of a trace is a run of steps of the chain, so reachable states stay reachable.\<close>

lemma called_step_step: "runtime_rules P prog \<Longrightarrow> called_step P prog ixs i accs accs' \<Longrightarrow> step prog accs accs'"
  by (elim called_stepE) (simp_all add: external_step program_step [where P = "at_instruction P ixs i h" for h])

lemma instruction_runs_reachable:
  assumes rules: "runtime_rules P prog" and "instruction_runs P prog ixs i accs accs'" and "reachable prog accs"
  shows "reachable prog accs'"
  using assms(2)
proof (cases rule: instruction_runs.cases)
  case (own views)
  then have "step prog accs accs'"
    by (simp add: rules program_step [where P = "top_level P ixs i"])
  then show ?thesis using assms(3) by (rule reachable.stepped [rotated])
next
  case other
  from this(2) show ?thesis
    by (induction rule: rtranclp_induct) (use assms(3) called_step_step [OF rules] reachable.stepped in \<open>blast+\<close>)
qed

lemma trace_reachable:
  assumes "runtime_rules P prog" and trace: "transaction_trace P prog ixs trace" and "reachable prog (trace ! 0)"
  shows "i \<le> length ixs \<Longrightarrow> reachable prog (trace ! i)"
proof (induction i)
  case (Suc i)
  then show ?case using instruction_runs_reachable [OF assms(1) trace_runs [OF trace]] by simp
qed (simp add: assms(3))

section \<open>The two halves of a settlement\<close>

text \<open>A \<open>BeginSettle\<close> at index \<open>i\<close> that names index \<open>j\<close>, and a \<open>FinalizeSettle\<close> at \<open>j\<close> that names \<open>i\<close>.\<close>

definition begins :: "pubkey \<Rightarrow> instruction list \<Rightarrow> nat \<Rightarrow> nat \<Rightarrow> bool" where
  "begins prog ixs i j \<longleftrightarrow> ix_program_id (ixs ! i) = prog \<and>
     (\<exists>body. ix_data (ixs ! i) = ix_discriminator BeginSettle # to_le 2 (of_nat j :: u16) @ body)"

definition finalizes :: "pubkey \<Rightarrow> instruction list \<Rightarrow> nat \<Rightarrow> nat \<Rightarrow> bool" where
  "finalizes prog ixs j i \<longleftrightarrow> ix_program_id (ixs ! j) = prog \<and>
     (\<exists>body. ix_data (ixs ! j) = ix_discriminator FinalizeSettle # to_le 2 (of_nat i :: u16) @ body)"

lemma begins_settles: "begins prog ixs i j \<Longrightarrow> settles prog (ixs ! i)" "finalizes prog ixs j i \<Longrightarrow> settles prog (ixs ! j)"
  by (auto simp: begins_def finalizes_def settles_def)

lemma begins_not_finalizes: "begins prog ixs i j \<Longrightarrow> \<not> finalizes prog ixs i k"
  by (auto simp: begins_def finalizes_def)

lemma begins_unique: "begins prog ixs i j \<Longrightarrow> begins prog ixs i k \<Longrightarrow> (of_nat j :: u16) = of_nat k"
  by (auto simp: begins_def u16_codec.enc_inj)

text \<open>
  The \<open>FinalizeSettle\<close> at index \<open>j\<close> ran, and paid out the pushes of \<open>input\<close>, which is what it
  parses to: nothing but one payment for each push, of its amount, happened between the accounts
  before and after, authorised by the program's own state account.
\<close>

abbreviation paid_at :: "platform \<Rightarrow> instruction list \<Rightarrow> nat \<Rightarrow> account_view FinalizeSettleInput \<Rightarrow> account_view Push \<Rightarrow>
    accounts \<Rightarrow> accounts \<Rightarrow> bool" where
  "paid_at P ixs j input \<equiv>
     push_paid (top_level P ixs j) (fsi_state_pda_account input) [STATE_PDA_SIGNER_SEEDS (top_level P ixs j)]"

definition pays_out ::
  "platform \<Rightarrow> instruction list \<Rightarrow> accounts list \<Rightarrow> nat \<Rightarrow> account_view FinalizeSettleInput \<Rightarrow> bool" where
  "pays_out P ixs trace j input \<longleftrightarrow>
     (\<exists>views. map av_address views = instruction_addresses (ixs ! j) \<and>
        instruction_parse FinalizeSettle finalize_settle_parse_body (ix_data (ixs ! j)) views = Inr input) \<and>
     av_address (fsi_state_pda_account input) = STATE_PDA P \<and>
     steps_through (paid_at P ixs j input) (payments (top_level P ixs j) (pushes_iter (fsi_pushes input)))
       (trace ! j) (trace ! Suc j) \<and>
     push_funds (top_level P ixs j) (fsi_state_pda_account input) [STATE_PDA_SIGNER_SEEDS (top_level P ixs j)]
       (fsi_pushes input) (trace ! j) = Inr (trace ! Suc j)"

text \<open>
  What happens at the two indices of a settlement: the program settles the orders against the
  pushes it reads off the later instruction, and the later instruction pays out those pushes.
\<close>

definition settlement_at ::
  "platform \<Rightarrow> pubkey \<Rightarrow> instruction list \<Rightarrow> accounts list \<Rightarrow> nat \<Rightarrow> nat \<Rightarrow>
   account_view SettledOrder list \<Rightarrow> account_view FinalizeSettleInput \<Rightarrow> bool" where
  "settlement_at P prog ixs trace i j orders input \<longleftrightarrow>
     (\<exists>now. pf_clock P = Inr now \<and>
        orders_settled (top_level P ixs i) prog now orders (map paired_push (pushes_iter (fsi_pushes input)))
          (trace ! i) (trace ! Suc i)) \<and>
     pays_out P ixs trace j input"

lemma begin_runs:
  assumes trace: "transaction_trace P prog ixs trace" and i: "i < length ixs"
    and begin_ix: "ix_program_id (ixs ! i) = prog" "ix_data (ixs ! i) = ix_discriminator BeginSettle # body"
  obtains views where "process_begin_settle (top_level P ixs i) prog views (ix_data (ixs ! i)) (trace ! i) = Inr (trace ! Suc i)"
  using trace_own [OF trace i begin_ix(1)] that
  by (auto simp: process_instruction_def begin_ix(2) simp del: ix_discriminator.simps)

lemma finalize_runs:
  assumes trace: "transaction_trace P prog ixs trace" and j: "j < length ixs"
    and finalize_ix: "ix_program_id (ixs ! j) = prog" "ix_data (ixs ! j) = ix_discriminator FinalizeSettle # body"
  obtains views where "map av_address views = instruction_addresses (ixs ! j)"
    and "process_finalize_settle (top_level P ixs j) prog views (ix_data (ixs ! j)) (trace ! j) = Inr (trace ! Suc j)"
  using trace_own [OF trace j finalize_ix(1)] that
  by (auto simp: process_instruction_def finalize_ix(2) simp del: ix_discriminator.simps)

text \<open>Every \<open>BeginSettle\<close> of a transaction that succeeds has its \<open>FinalizeSettle\<close>, later on, with nothing between.\<close>

lemma settlement_pair:
  assumes trace: "transaction_trace P prog ixs trace" and rules: "runtime_rules P prog" and i: "i < length ixs"
    and begin_ix: "ix_program_id (ixs ! i) = prog" "ix_data (ixs ! i) = ix_discriminator BeginSettle # body"
  obtains j orders input where "i < j" and "j < length ixs" and "begins prog ixs i j" and "finalizes prog ixs j i"
    and "\<forall>k. i < k \<and> k < j \<longrightarrow> \<not> settles prog (ixs ! k)" and "settlement_at P prog ixs trace i j orders input"
proof -
  let ?Pi = "top_level P ixs i"
  have frame: "invoke_frame ?Pi prog"
    using rules at_instruction_simps(6) [of P ixs i TRANSACTION_LEVEL_STACK_HEIGHT prog] unfolding runtime_rules_def by blast
  from begin_runs [OF trace i begin_ix] obtain views where
    run: "process_begin_settle ?Pi prog views (ix_data (ixs ! i)) (trace ! i) = Inr (trace ! Suc i)" by blast
  obtain binput :: "account_view BeginSettleInput" and bdata now pushes where
    data: "ix_data (ixs ! i) = ix_discriminator BeginSettle # bdata"
    and parse: "begin_settle_parse_body bdata views = Inr binput"
    and counterpart: "validate_counterpart prog ixs (of_nat i) (bsi_finalize_ix_index binput) FinalizeSettle = Inr ()"
    and nested: "validate_no_nested_settlement prog ixs (of_nat i) (bsi_finalize_ix_index binput) = Inr ()"
    and now: "pf_clock P = Inr now" and pushes: "finalize_pushes (ixs ! unat (bsi_finalize_ix_index binput)) = Inr pushes"
    and loop: "settle_orders_loop ?Pi prog (bsi_state_pda_account binput) [STATE_PDA_SIGNER_SEEDS ?Pi] now
      (settled_orders_iter (bsi_orders binput)) None pushes (trace ! i) = Inr (trace ! Suc i)"
    by (rule process_begin_settle_Inr [OF run, unfolded at_instruction_simps]) blast
  define j where "j = unat (bsi_finalize_ix_index binput)"
  have index: "bsi_finalize_ix_index binput = of_nat j" by (simp add: j_def)
  from counterpart obtain fbody where j: "j < length ixs" and final: "ix_program_id (ixs ! j) = prog"
    "ix_data (ixs ! j) = ix_discriminator FinalizeSettle # to_le 2 (of_nat i :: u16) @ fbody"
    by (auto simp: validate_counterpart_Inr_iff j_def)
  note between = validate_no_nested_settlement_Inr [OF nested, folded j_def, unfolded trace_index [OF trace i]]
  have "i < j" using between(1) trace_index [OF trace i] by (simp add: word_less_nat_alt j_def)
  moreover have "begins prog ixs i j"
    using begin_ix(1) data begin_settle_parse_body_index [OF parse] by (auto simp: begins_def index)
  moreover have "finalizes prog ixs j i" using final by (auto simp: finalizes_def)
  moreover from finalize_runs [OF trace j final] obtain fviews where
    addresses: "map av_address fviews = instruction_addresses (ixs ! j)"
    and pay: "process_finalize_settle (top_level P ixs j) prog fviews (ix_data (ixs ! j)) (trace ! j) = Inr (trace ! Suc j)"
    by blast
  from pay obtain input and fdata where "ix_data (ixs ! j) = ix_discriminator FinalizeSettle # fdata"
    "finalize_settle_parse_body fdata fviews = Inr input"
    and state: "av_address (fsi_state_pda_account input) = STATE_PDA P"
    and funds: "push_funds (top_level P ixs j) (fsi_state_pda_account input) [STATE_PDA_SIGNER_SEEDS (top_level P ixs j)]
      (fsi_pushes input) (trace ! j) = Inr (trace ! Suc j)"
    by (rule process_finalize_settle_Inr [where ?P = "top_level P ixs j", unfolded at_instruction_simps]) blast
  then have fparse: "instruction_parse FinalizeSettle finalize_settle_parse_body (ix_data (ixs ! j)) fviews = Inr input"
    by (auto simp only: instruction_parse_Inr_iff)
  have "pushes = map paired_push (pushes_iter (fsi_pushes input))"
    using finalize_pushes_parsed [OF fparse addresses] pushes by (simp add: j_def)
  with settle_orders_loop_settled [OF frame loop] obtain orders where
    "orders_settled ?Pi prog now orders (map paired_push (pushes_iter (fsi_pushes input))) (trace ! i) (trace ! Suc i)"
    by blast
  then have "settlement_at P prog ixs trace i j orders input"
    using now addresses fparse state funds push_funds_pays [OF funds] unfolding settlement_at_def pays_out_def by blast
  ultimately show thesis using that j between(2) by blast
qed

text \<open>Every \<open>FinalizeSettle\<close> of a transaction that succeeds has its \<open>BeginSettle\<close>, earlier on.\<close>

lemma finalize_has_begin:
  assumes trace: "transaction_trace P prog ixs trace" and rules: "runtime_rules P prog" and j: "j < length ixs"
    and final: "ix_program_id (ixs ! j) = prog" "ix_data (ixs ! j) = ix_discriminator FinalizeSettle # body"
  obtains i where "i < j" and "begins prog ixs i j" and "finalizes prog ixs j i"
proof -
  from finalize_runs [OF trace j final] obtain views where
    run: "process_finalize_settle (top_level P ixs j) prog views (ix_data (ixs ! j)) (trace ! j) = Inr (trace ! Suc j)"
    by blast
  obtain input :: "account_view FinalizeSettleInput" and fdata where
    data: "ix_data (ixs ! j) = ix_discriminator FinalizeSettle # fdata"
    and parse: "finalize_settle_parse_body fdata views = Inr input"
    and "validate_counterpart prog ixs (of_nat j) (fsi_begin_ix_index input) BeginSettle = Inr ()"
    by (rule process_finalize_settle_Inr [OF run, unfolded at_instruction_simps]) blast
  define i where "i = unat (fsi_begin_ix_index input)"
  from \<open>validate_counterpart _ _ _ _ _ = _\<close> obtain bbody where i: "i < length ixs"
    and begin_ix: "ix_program_id (ixs ! i) = prog"
      "ix_data (ixs ! i) = ix_discriminator BeginSettle # to_le 2 (of_nat j :: u16) @ bbody"
    unfolding validate_counterpart_Inr_iff i_def by blast
  have "fsi_begin_ix_index input = of_nat i" by (simp add: i_def)
  then have "finalizes prog ixs j i"
    using final(1) data finalize_settle_parse_body_index [OF parse] by (auto simp only: finalizes_def append_Cons)
  moreover have begins: "begins prog ixs i j" using begin_ix by (auto simp: begins_def)
  moreover obtain k where k: "i < k" "k < length ixs" "begins prog ixs i k"
    by (rule settlement_pair [OF trace rules i begin_ix])
  have "k = j"
    using arg_cong [OF begins_unique [OF begins k(3)], of unat]
    by (simp only: trace_index [OF trace k(2)] trace_index [OF trace j])
  ultimately show thesis using that k(1) by blast
qed

section \<open>Settlements alternate\<close>

text \<open>The settlement instructions of the program in a transaction, by their discriminators.\<close>

definition settlement_kinds :: "pubkey \<Rightarrow> instruction list \<Rightarrow> u8 list" where
  "settlement_kinds prog ixs = map (\<lambda>ix. hd (ix_data ix)) (filter (settles prog) ixs)"

text \<open>
  From index \<open>k\<close> on, a transaction is closed when no \<open>FinalizeSettle\<close> belongs to an earlier
  \<open>BeginSettle\<close>.
\<close>

definition closed_from :: "pubkey \<Rightarrow> instruction list \<Rightarrow> nat \<Rightarrow> bool" where
  "closed_from prog ixs k \<longleftrightarrow>
     (\<forall>i j. k \<le> j \<longrightarrow> j < length ixs \<longrightarrow> i < j \<longrightarrow> begins prog ixs i j \<longrightarrow> finalizes prog ixs j i \<longrightarrow> k \<le> i)"

lemma settles_cases:
  assumes "settles prog ix"
  obtains (begin_ix) body where "ix_program_id ix = prog" "ix_data ix = ix_discriminator BeginSettle # body"
    | (finalize_ix) body where "ix_program_id ix = prog" "ix_data ix = ix_discriminator FinalizeSettle # body"
  using assms unfolding settles_def by (cases "ix_data ix") auto

lemma filter_between:
  assumes "i < j" and "j < length xs" and "P (xs ! i)" and "P (xs ! j)" and "\<forall>k. i < k \<and> k < j \<longrightarrow> \<not> P (xs ! k)"
  shows "filter P (drop i xs) = xs ! i # xs ! j # filter P (drop (Suc j) xs)"
proof -
  have "drop (Suc i) xs = take (j - Suc i) (drop (Suc i) xs) @ xs ! j # drop (Suc j) xs"
    using assms(1,2) id_take_nth_drop [of "j - Suc i" "drop (Suc i) xs"] by simp
  moreover have "\<forall>x \<in> set (take (j - Suc i) (drop (Suc i) xs)). \<not> P x"
    using assms(2,5) by (auto simp: in_set_conv_nth)
  then have "filter P (take (j - Suc i) (drop (Suc i) xs)) = []" by (simp add: filter_empty_conv)
  ultimately have "filter P (drop (Suc i) xs) = xs ! j # filter P (drop (Suc j) xs)"
    using assms(4) by (metis append_Nil filter.simps(2) filter_append)
  then show ?thesis
    using assms(1-3) by (simp flip: Cons_nth_drop_Suc)
qed

lemma closed_after_pair:
  assumes trace: "transaction_trace P prog ixs trace"
    and closed: "closed_from prog ixs k" and pair: "k < j" "j < length ixs" "begins prog ixs k j" "finalizes prog ixs j k"
    and between: "\<forall>m. k < m \<and> m < j \<longrightarrow> \<not> settles prog (ixs ! m)"
  shows "closed_from prog ixs (Suc j)"
  unfolding closed_from_def
proof (intro allI impI)
  fix i' j' assume later: "Suc j \<le> j'" "j' < length ixs" "i' < j'" "begins prog ixs i' j'" "finalizes prog ixs j' i'"
  moreover from this(1) pair(1) have "k \<le> j'" by simp
  ultimately have "k \<le> i'" using closed unfolding closed_from_def by blast
  moreover have "i' \<noteq> k"
  proof
    assume "i' = k"
    then have "j = j'"
      using arg_cong [OF begins_unique [OF pair(3)], of j' unat] later(4)
      by (simp only: trace_index [OF trace pair(2)] trace_index [OF trace later(2)])
    with later(1) show False by simp
  qed
  moreover have "i' \<noteq> j" using begins_not_finalizes later(4) pair(4) by blast
  moreover have "\<not> (k < i' \<and> i' < j)" using between begins_settles(1) later(4) by blast
  ultimately show "Suc j \<le> i'" by linarith
qed

lemma closed_after_other:
  assumes "closed_from prog ixs k" and "\<not> settles prog (ixs ! k)"
  shows "closed_from prog ixs (Suc k)"
  unfolding closed_from_def
proof (intro allI impI)
  fix i j assume "Suc k \<le> j" "j < length ixs" "i < j" "begins prog ixs i j" "finalizes prog ixs j i"
  then have "k \<le> i" "i \<noteq> k" using assms begins_settles(1) unfolding closed_from_def by (auto dest: Suc_leD)
  then show "Suc k \<le> i" by simp
qed

lemma settlements_alternate_from:
  assumes trace: "transaction_trace P prog ixs trace" and rules: "runtime_rules P prog"
  shows "k \<le> length ixs \<Longrightarrow> closed_from prog ixs k \<Longrightarrow>
    \<exists>n. settlement_kinds prog (drop k ixs) = concat (replicate n [ix_discriminator BeginSettle, ix_discriminator FinalizeSettle])"
proof (induction "length ixs - k" arbitrary: k rule: less_induct)
  case less
  consider "k = length ixs" | "k < length ixs" "\<not> settles prog (ixs ! k)" | "k < length ixs" "settles prog (ixs ! k)"
    using less.prems(1) by linarith
  then show ?case
  proof cases
    case 1
    then show ?thesis by (intro exI [of _ 0]) (simp add: settlement_kinds_def)
  next
    case 2
    then have "settlement_kinds prog (drop k ixs) = settlement_kinds prog (drop (Suc k) ixs)"
      by (simp add: settlement_kinds_def flip: Cons_nth_drop_Suc)
    moreover from closed_after_other [OF less.prems(2) 2(2)] obtain n where
      "settlement_kinds prog (drop (Suc k) ixs) = concat (replicate n [ix_discriminator BeginSettle, ix_discriminator FinalizeSettle])"
      using less.hyps [of "Suc k"] 2(1) by (meson Suc_leI diff_less_mono2 lessI)
    ultimately show ?thesis by metis
  next
    case 3
    from 3(2) show ?thesis
    proof (cases rule: settles_cases)
      case (begin_ix body)
      obtain j orders input where pair: "k < j" "j < length ixs" "begins prog ixs k j" "finalizes prog ixs j k"
        and between: "\<forall>m. k < m \<and> m < j \<longrightarrow> \<not> settles prog (ixs ! m)"
        by (rule settlement_pair [OF trace rules 3(1) begin_ix])
      from pair(4) have "settles prog (ixs ! j)" by (rule begins_settles(2))
      from filter_between [OF pair(1,2) 3(2) this between]
      have "settlement_kinds prog (drop k ixs) =
          ix_discriminator BeginSettle # ix_discriminator FinalizeSettle # settlement_kinds prog (drop (Suc j) ixs)"
        using pair(3,4) by (auto simp: settlement_kinds_def begins_def finalizes_def)
      moreover from closed_after_pair [OF trace less.prems(2) pair between] obtain n where
        "settlement_kinds prog (drop (Suc j) ixs) = concat (replicate n [ix_discriminator BeginSettle, ix_discriminator FinalizeSettle])"
        using less.hyps [of "Suc j"] pair(1,2) by (meson Suc_leI diff_less_mono2 less_Suc_eq less_trans)
      ultimately show ?thesis by (intro exI [of _ "Suc n"]) simp
    next
      case (finalize_ix body)
      obtain i where i: "i < k" "begins prog ixs i k" "finalizes prog ixs k i"
        by (rule finalize_has_begin [OF trace rules 3(1) finalize_ix])
      with less.prems(2) 3(1) have "k \<le> i" unfolding closed_from_def by blast
      with i(1) show ?thesis by simp
    qed
  qed
qed

section \<open>Filling takes a settlement\<close>





section \<open>Properties\<close>

text \<open>
  C5: settlements are atomic. In a transaction that succeeds, each \<open>BeginSettle\<close> of the program at
  index \<open>i\<close> has a \<open>FinalizeSettle\<close> at a later index \<open>j\<close>; the two name each other, nothing between
  them settles, the orders are settled at \<open>i\<close> one by one against the pushes of the instruction at
  \<open>j\<close>, and at \<open>j\<close> exactly those pushes are paid out.
\<close>

theorem settlements_are_atomic:
  assumes "transaction_trace P prog ixs trace" and "runtime_rules P prog" and "i < length ixs"
    and "ix_program_id (ixs ! i) = prog" and "ix_data (ixs ! i) = ix_discriminator BeginSettle # body"
  shows "\<exists>j orders input now. i < j \<and> j < length ixs \<and> begins prog ixs i j \<and> finalizes prog ixs j i \<and>
    (\<forall>k. i < k \<and> k < j \<longrightarrow> \<not> settles prog (ixs ! k)) \<and>
    pf_clock P = Inr now \<and>
    orders_settled (top_level P ixs i) prog now orders (map paired_push (pushes_iter (fsi_pushes input)))
      (trace ! i) (trace ! Suc i) \<and>
    pays_out P ixs trace j input"
  by (rule settlement_pair [OF assms], unfold settlement_at_def, blast)

text \<open>
  C6: in a transaction that succeeds, the settlement instructions of the program are a sequence of
  \<open>BeginSettle\<close>, \<open>FinalizeSettle\<close> pairs: no settlement is left open, none is finalized twice or
  without having begun, and none is nested in another.
\<close>

theorem settlements_alternate:
  assumes "transaction_trace P prog ixs trace" and "runtime_rules P prog"
  shows "\<exists>n. settlement_kinds prog ixs =
    concat (replicate n [ix_discriminator BeginSettle, ix_discriminator FinalizeSettle])"
  using settlements_alternate_from [OF assms, of 0] by (simp add: closed_from_def)


text \<open>
  C21: a settlement cannot be driven through another program: whatever accounts and data the
  forwarder is given, an instruction to begin or finalize a settlement that it passes on fails
  with \<open>CalledViaCpi\<close>.
\<close>

theorem forwarded_settlement_refused:
  "cpi_caller_process (invoke_settlement (top_level P ixs k) prog) (v # views)
     (ix_discriminator BeginSettle # body) accs = Inl (serr CalledViaCpi) \<and>
   cpi_caller_process (invoke_settlement (top_level P ixs k) prog) (v # views)
     (ix_discriminator FinalizeSettle # body) accs = Inl (serr CalledViaCpi)"
  by (simp add: invoke_settlement_def is_cpi_call_def settlement_needs_top_level del: ix_discriminator.simps)

end
