(* ===== verification/TransactionRun.thy ===== *)
theory TransactionRun
  imports Transaction Witnesses
begin

text \<open>
  The settlement of the run as a transaction of two instructions, and the properties of whole
  transactions applied to it.
\<close>

abbreviation settle_trace :: "accounts list" where
  "settle_trace \<equiv> [chain3, chain4, chain5]"

lemma toy_top_level: "top_level toy ixs i = toy_at 100 ixs (of_nat i)"
  by (simp add: at_instruction_def toy_at_def TRANSACTION_LEVEL_STACK_HEIGHT_def)

lemma settle_instructions_at:
  "ix_program_id (settle_ixs ! 0) = program" "ix_data (settle_ixs ! 0) = begin_data"
  "instruction_addresses (settle_ixs ! 0) = map av_address begin_views"
  "ix_program_id (settle_ixs ! 1) = program" "ix_data (settle_ixs ! 1) = finalize_data"
  "instruction_addresses (settle_ixs ! 1) = map av_address finalize_views" "length settle_ixs = 2"
  by (simp_all add: settle_ixs_def meta_new_def)

lemma settle_runs: "transaction_trace toy program settle_ixs settle_trace"
proof -
  have platforms: "top_level toy settle_ixs 0 = toy_at 100 settle_ixs 0" "top_level toy settle_ixs 1 = toy_at 100 settle_ixs 1"
    by (simp_all add: toy_top_level)
  have "process_instruction (toy_at 100 settle_ixs 0) program begin_views begin_data chain3 = Inr chain4"
    using run_begin_settle by (simp add: process_instruction_def del: ix_discriminator.simps)
  then have first: "instruction_runs toy program settle_ixs 0 chain3 chain4"
    by (intro instruction_runs.own [where views = begin_views])
      (simp_all only: platforms settle_instructions_at)
  have "process_instruction (toy_at 100 settle_ixs 1) program finalize_views finalize_data chain4 = Inr chain5"
    using run_finalize_settle by (simp add: process_instruction_def del: ix_discriminator.simps)
  then have second: "instruction_runs toy program settle_ixs 1 chain4 chain5"
    by (intro instruction_runs.own [where views = finalize_views])
      (simp_all only: platforms settle_instructions_at)
  have "instruction_runs toy program settle_ixs i (settle_trace ! i) (settle_trace ! Suc i)" if "i < 2" for i
    using that first second unfolding less_2_cases_iff by (elim disjE) simp_all
  then show ?thesis
    by (simp add: transaction_trace_def settle_instructions_at(7))
qed

theorem settlements_are_atomic_witness:
  "transaction_trace toy program settle_ixs settle_trace \<and>
   (\<exists>input. begins program settle_ixs 0 1 \<and> finalizes program settle_ixs 1 0 \<and>
      pays_out toy settle_ixs settle_trace 1 input)"
proof -
  from settlements_are_atomic [OF settle_runs, of 0] obtain j input where
    "0 < j" "j < length settle_ixs" "begins program settle_ixs 0 j" "finalizes program settle_ixs j 0"
    "pays_out toy settle_ixs settle_trace j input"
    using settle_instructions_at(1,2,7) toy_program_rules by (metis zero_less_numeral)
  moreover from this have "j = 1" by (simp add: settle_instructions_at(7))
  ultimately show ?thesis using settle_runs by blast
qed

theorem settlements_alternate_witness:
  "transaction_trace toy program settle_ixs settle_trace \<and>
   (\<exists>n. settlement_kinds program settle_ixs = concat (replicate n [ix_discriminator BeginSettle, ix_discriminator FinalizeSettle]))"
  using settlements_alternate [OF settle_runs] settle_runs by simp


end
