(* ===== verification/Spec2Isabelle.thy ===== *)
theory Spec2Isabelle
  imports Witnesses CliWitnesses EndToEndRun TransactionRun
begin

text \<open>
  \<^bold>\<open>The CoW Protocol settlement program for Solana\<close>

  This library models and verifies the on-chain program under \<open>src/programs/settlement/src\<close>, the
  interface crate it shares with its clients (\<open>src/interface/src\<close>), the client crate
  (\<open>src/client/src\<close>) and the command line tool built on it (\<open>src/test-cli/src\<close>).

  \<^bold>\<open>The program.\<close> Users sign an intent (sell at most this much of one token for at least that much of
  another, until a time) and the program stores it in an order account. Solvers, a set of
  registered accounts, fill orders in settlements: one transaction with a \<open>BeginSettle\<close>, which pulls
  the sell tokens and accounts for every fill, and a \<open>FinalizeSettle\<close>, which pays the buy tokens out
  of the program's buffers. \<open>BeginSettle\<close> looks ahead in the transaction at the \<open>FinalizeSettle\<close> it is
  paired with and checks each order against the push that will pay it. Four roles recorded in the
  state account administer the program. The command line tool \<open>cow\<close> builds these instructions from
  its arguments and from what it reads from a node, and sends them or proposes them to a multisig.

  \<^bold>\<open>Theories and sources.\<close>

  \<^item> \<open>Prelude\<close>: results with errors as values (\<open>bindE\<close>), checked machine arithmetic, byte strings
    (little-endian integers, slices, in-place writes, \<open>as_chunks\<close>), 32-byte arrays with their order,
    a relation stepped through a list (\<open>steps_through\<close>), and the contracts \<open>tagged_enum\<close>
    and \<open>canonical_encoding\<close> as locales.
  \<^item> \<open>Errors\<close> (\<open>error.rs\<close>), \<open>Enums\<close> (\<open>role.rs\<close>, \<open>token_program.rs\<close>, the two discriminators).
  \<^item> \<open>Platform\<close>: accounts, account views, instructions, and the record \<open>platform\<close> of everything that
    is not in the repository: hashing, address derivation, system calls, token programs and the
    runtime's invocation. What the program relies on is stated there as named predicates
    (\<open>invoke_frame\<close>, \<open>create_account_spec\<close>, \<open>create_signer_rule\<close>, \<open>resize_spec\<close>, \<open>close_spec\<close>,
    \<open>find_agrees\<close>, \<open>derive_agrees\<close>), and theorems name those they need.
  \<^item> \<open>Intent\<close> (\<open>data/intent.rs\<close>, \<open>utils/intent.rs\<close>), \<open>OrderData\<close> (\<open>data/order.rs\<close>), \<open>StateData\<close>
    (\<open>data/state.rs\<close>): the three wire formats as functions on bytes, with the standard library's
    binary search and the in-place moves of the solver list; the locale \<open>solver_set\<close> is the contract
    of that list and is interpreted on the account bytes.
  \<^item> \<open>Pda\<close> (\<open>interface/src/pda\<close>, \<open>programs/settlement/src/pda\<close>): seeds, pinned addresses, and the
    perfect-hash table of known buffers.
  \<^item> \<open>Instructions\<close> and \<open>SettleInstructions\<close> (\<open>interface/src/instruction\<close>): builders and parsers of the
    thirteen instructions; the locale \<open>instruction_codec\<close> gives the round trips.
  \<^item> \<open>Runtime\<close> (\<open>processor/utils\<close>): authorisation, lamport moves, canonical account creation,
    counterpart validation, token helpers; the invariant of order accounts and the contract
    \<open>order_preserving\<close> of a handler.
  \<^item> \<open>OrderHandlers\<close>, \<open>StateHandlers\<close>, \<open>BufferHandlers\<close>, \<open>Settle\<close> (\<open>processor/*.rs\<close>): one definition per
    handler, with every check in the order of the code; a loop is a recursive function on the list
    it walks, so that no fuel is needed anywhere.
  \<^item> \<open>StateInvariant\<close>: every handler keeps the state account well formed, and which ones change it.
  \<^item> \<open>Processor\<close> (\<open>processor/mod.rs\<close>): the dispatcher, and the chain as a step relation: an
    instruction of the program that succeeds on any platform that follows the rules, or anything
    else that respects the ownership of accounts.
  \<^item> \<open>Refinement\<close>: an abstract configuration machine and that the program refines it.
  \<^item> \<open>Fills\<close>: the contract \<open>fill_preserving\<close>, interpreted for every handler but \<open>BeginSettle\<close>: it
    never makes the counters of an order grow.
  \<^item> \<open>Transaction\<close>: whole transactions as traces of their instructions, calls from other programs, and
    the forwarder of \<open>programs/test/cpi-caller/src/lib.rs\<close>.
  \<^item> \<open>NoPanic\<close>: every \<open>expect\<close>, \<open>unreachable!\<close>, index and slice is the error value \<open>Panic\<close>, and no
    instruction returns it.
  \<^item> \<open>Liveness\<close>: owners can always cancel; expired orders can always be reclaimed.
  \<^item> \<open>Client\<close> (\<open>client/src\<close>): builders, the parser of any instruction, account snapshots.
  \<^item> \<open>Scenario\<close>, \<open>Run\<close>, \<open>SettleRun\<close>, \<open>Witnesses\<close>, \<open>TransactionRun\<close>: a small concrete platform, a run of the program on it
    from deployment to a paid settlement, and every property that has hypotheses applied to it.
  \<^item> \<open>CliEnv\<close>: what the tool runs on, as the record \<open>cli\<close> over a chain state: the node behind its RPC
    client, text forms of addresses, token decoders and instruction constructors of other crates,
    the order in which a hash map is visited; and the string and integer parsers of the standard
    library. \<open>base58_spec\<close> and \<open>iteration_spec\<close> state what is relied on.
  \<^item> \<open>CliArgs\<close> (\<open>utils/parsing.rs\<close>, \<open>utils/keypair.rs\<close>): the values of arguments, parsed and printed.
  \<^item> \<open>Squads\<close> (\<open>cmd/mod.rs\<close>, \<open>utils/squads\<close>, \<open>utils/output.rs\<close>): the context of a command, sending,
    proposing to a Squads multisig and its compact message encoding.
  \<^item> \<open>CliToken\<close> (\<open>utils/token.rs\<close>, \<open>utils/spl_instructions.rs\<close>), \<open>CliCommands\<close> (\<open>cmd/initialize.rs\<close>,
    \<open>cmd/solver\<close>, \<open>cmd/authority\<close>, \<open>cmd/create_order.rs\<close>, \<open>cmd/reclaim.rs\<close>), \<open>CliBuffers\<close>
    (\<open>cmd/buffer\<close>), \<open>CliSettle\<close> (\<open>cmd/settle.rs\<close>), \<open>CliMain\<close> (\<open>main.rs\<close>): one definition per command, with
    the plan it computes, the instructions it builds and what it prints; \<open>CliWitnesses\<close> applies their
    properties to a small node.
  \<^item> \<open>EndToEnd\<close>: the tool and the program together. The contract \<open>account_parser\<close>, that a parser only
    looks at the positions of its accounts, is interpreted for the instructions the tool builds; it
    carries what the tool's theorems say of addresses over to the accounts the program is given.
    \<open>EndToEndRun\<close> places and settles an order on the chain of the run.

  \<^bold>\<open>How the code is modelled.\<close> A handler takes the platform, the program's address, the account views
  and the instruction data, and maps the accounts before (an address-indexed store, so that two
  views of one account alias) to a result with the accounts after. A failed instruction has no
  effect. Integers are words of their width; \<open>usize\<close> arithmetic is on naturals with the checks
  written out. Mutable borrows that the code holds across an invocation are passed to it, and
  \<open>invoke_frame\<close> says what a borrow protects. An \<open>i64\<close> clock is an integer.

  A command of the tool maps the chain state to the lines it prints, a result and the chain
  afterwards; reading is a function of the state, sending a transaction changes it.

  \<^bold>\<open>What the theorems show.\<close> For every reachable state: orders stay within their limits and only
  evolve (C1, C2), the solver list stays sorted (C16), intents decode (C24), the configuration
  follows its specification (C8, C17). For settlements: each order is accounted for against its own
  push (C3), nothing is withdrawn from an order that the same transaction does not pay for, one
  transfer of the push's amount to the order's buy account (C4), a settlement is atomic, settlements alternate and cannot be driven through another program (C5, C6,
  C21), only solvers settle (C7), prices are compared exactly (C11), the pulls transfer the
  owner's tokens out of the order's sell account and nothing else (C12), native payments balance (C13). Then no panics (C9), liveness (C10, C20), canonical
  encodings (C18), equivalence of the table and of the parsers (C19, C36), the behaviour of each
  handler (C25 to C35) and of the client's builders (C37). For the command line tool: it sends at
  most one transaction and never bypasses the multisig (C22), its settlement funds itself and is
  read by the program as intended (C23, C38), the order placed sells and buys what its terms say (C39), and
  buffers are closed within their limits (C40). For tool and program together: an order placed with
  the tool survives the chain until it is closed (C15), and the settlement the tool builds fills its
  orders (C14).

  What a token program does with a transfer is not part of the model: payments and pulls are stated
  as the transfers that are executed (\<open>token_moved\<close>), with their accounts, amount and authority,
  because a Token-2022 mint may charge a fee on top. In the concrete run transfers move balances.

  \<^bold>\<open>Not modelled.\<close> The entrypoint and allocator macros of \<open>programs/settlement/src/lib.rs\<close>; the test
  fixtures; of the tool, the argument parser generated by \<open>clap\<close>, the defaults it reads from the
  Solana configuration file and the environment, the text of error messages beyond their fixed
  part, and the generated code of the Squads client that nothing calls (builders, CPI wrappers,
  fetchers); the program tests with the check of the IDL file, and the TypeScript bindings. Compute
  budgets, transaction size limits and the runtime's own rent check are outside the model. The
  reachable states are those after each instruction, not only after each transaction, so the
  invariants are proved for more states than can be observed; what holds only of a transaction as a
  whole is stated on the traces of \<open>Transaction\<close>, where a transaction with a failing instruction has
  no trace.
\<close>

end
